theory Spec2Isabelle
  imports Complex_Main
begin

section \<open>Strings and hex tokens (src/lib/color-utils: normalizeHex, parseHexColors)\<close>

text \<open>
  A JavaScript string is modelled as a \<open>string\<close> whose characters are code units below
  256. The character classes of the regular expressions of the source are written out.
\<close>

definition isHexDigit :: "char \<Rightarrow> bool" where
  "isHexDigit c \<longleftrightarrow> c \<in> set ''0123456789ABCDEFabcdef''"

text \<open>White space removed by \<open>String.prototype.trim\<close> (TAB, LF, VT, FF, CR, SP, NBSP).\<close>

definition isSpace :: "char \<Rightarrow> bool" where
  "isSpace c \<longleftrightarrow> (of_char c :: nat) \<in> set [9, 10, 11, 12, 13, 32, 160]"

definition trim :: "string \<Rightarrow> string" where
  "trim s = rev (dropWhile isSpace (rev (dropWhile isSpace s)))"

text \<open>\<open>s.replace(/^#/, '')\<close>\<close>

fun stripHash :: "string \<Rightarrow> string" where
  "stripHash [] = []"
| "stripHash (c # cs) = (if c = CHR ''#'' then cs else c # cs)"

text \<open>
  \<open>normalizeHex\<close>: three hex digits are doubled, six are kept, anything else is
  \<open>null\<close> (here \<open>None\<close>).
\<close>

definition normalizeHex :: "string \<Rightarrow> string option" where
  "normalizeHex hex =
     (let cleaned = stripHash (trim hex) in
      if length cleaned = 3 \<and> list_all isHexDigit cleaned
        then Some (CHR ''#'' # concat (map (\<lambda>c. [c, c]) cleaned))
      else if length cleaned = 6 \<and> list_all isHexDigit cleaned
        then Some (CHR ''#'' # cleaned)
      else None)"

text \<open>
  \<open>input.match(/#?[0-9A-Fa-f]{3,6}/g)\<close>: the leftmost, greedy, non-overlapping matches.
  At a \<open>#\<close> the match needs at least three hex digits after it; at a hex digit the
  match is the run of hex digits from there, cut at six (\<open>hexRun\<close>: the hex digits a
  text starts with, at most six); no match at a position moves the scan one character on.
\<close>

definition hexRun :: "string \<Rightarrow> string" where
  "hexRun s = takeWhile isHexDigit (take 6 s)"

function hexTokens :: "string \<Rightarrow> string list" where
  "hexTokens [] = []"
| "hexTokens (c # cs) =
     (if c = CHR ''#'' then
        (if 3 \<le> length (hexRun cs)
         then (c # hexRun cs) # hexTokens (drop (length (hexRun cs)) cs)
         else hexTokens cs)
      else
        (if 3 \<le> length (hexRun (c # cs))
         then hexRun (c # cs) # hexTokens (drop (length (hexRun (c # cs))) (c # cs))
         else hexTokens cs))"
  by pat_completeness auto
termination
  by (relation "measure length") auto

definition parseHexColors :: "string \<Rightarrow> string list" where
  "parseHexColors input = List.map_filter normalizeHex (hexTokens input)"

section \<open>Colour helpers of src/lib/image-api\<close>

record ColorRGB =
  cr :: int
  cg :: int
  cb :: int

text \<open>\<open>parseInt(s, 16)\<close> on a string of hex digits.\<close>

definition hexDigitVal :: "char \<Rightarrow> int" where
  "hexDigitVal c =
     (let n = (of_char c :: int) in
      if 48 \<le> n \<and> n \<le> 57 then n - 48
      else if 97 \<le> n \<and> n \<le> 102 then n - 87
      else n - 55)"

definition parseIntHex :: "string \<Rightarrow> int" where
  "parseIntHex s = foldl (\<lambda>a c. 16 * a + hexDigitVal c) 0 s"

text \<open>
  The module-local \<open>hexToRgb\<close> of image-api:
  \<open>/^#?([a-f\d]{2})([a-f\d]{2})([a-f\d]{2})$/i\<close>, and black when the string does not
  match.
\<close>

definition hexToRgb_api :: "string \<Rightarrow> ColorRGB" where
  "hexToRgb_api hex =
     (let h = stripHash hex in
      if length h = 6 \<and> list_all isHexDigit h
      then \<lparr>cr = parseIntHex (take 2 h), cg = parseIntHex (take 2 (drop 2 h)),
            cb = parseIntHex (drop 4 h)\<rparr>
      else \<lparr>cr = 0, cg = 0, cb = 0\<rparr>)"

text \<open>\<open>Number.prototype.toString(16)\<close> on a non-negative integer.\<close>

definition hexDigitChar :: "nat \<Rightarrow> char" where
  "hexDigitChar d = ''0123456789abcdef'' ! d"

fun toString16 :: "nat \<Rightarrow> string" where
  "toString16 n =
     (if n < 16 then [hexDigitChar n] else toString16 (n div 16) @ [hexDigitChar (n mod 16)])"

declare toString16.simps [simp del]

text \<open>
  \<open>'#' + ((1 << 24) + (r << 16) + (g << 8) + b).toString(16).slice(1)\<close>; the arguments are
  integers of 0..255 at every call of the source.
\<close>

definition rgbToHex :: "int \<Rightarrow> int \<Rightarrow> int \<Rightarrow> string" where
  "rgbToHex r g b = CHR ''#'' # drop 1 (toString16 (nat (2 ^ 24 + r * 2 ^ 16 + g * 2 ^ 8 + b)))"

text \<open>\<open>Math.round\<close>: the nearest integer, a half rounded up. Arithmetic is over the reals.\<close>

definition js_round :: "real \<Rightarrow> int" where
  "js_round x = \<lfloor>x + 1 / 2\<rfloor>"

definition adjustBrightness :: "string \<Rightarrow> real \<Rightarrow> string" where
  "adjustBrightness hex percent =
     (let rgb = hexToRgb_api hex;
          adjust = (\<lambda>val :: int. max 0 (min 255 (real_of_int val + (real_of_int val * percent) / 100)))
      in rgbToHex (js_round (adjust (cr rgb))) (js_round (adjust (cg rgb))) (js_round (adjust (cb rgb))))"

definition adjustSaturation :: "string \<Rightarrow> real \<Rightarrow> string" where
  "adjustSaturation hex percent =
     (let rgb = hexToRgb_api hex;
          gray = real_of_int (cr rgb + cg rgb + cb rgb) / 3;
          adjust = (\<lambda>val :: int.
             let diff = real_of_int val - gray
             in max 0 (min 255 (gray + diff * (1 + percent / 100))))
      in rgbToHex (js_round (adjust (cr rgb))) (js_round (adjust (cg rgb))) (js_round (adjust (cb rgb))))"

definition getComplementaryColor :: "string \<Rightarrow> string" where
  "getComplementaryColor hex =
     (let rgb = hexToRgb_api hex in rgbToHex (255 - cr rgb) (255 - cg rgb) (255 - cb rgb))"

definition getAnalogousColors :: "string \<Rightarrow> string \<times> string" where
  "getAnalogousColors hex = (adjustBrightness hex 15, adjustBrightness hex (- 15))"

record DominantColors =
  vibrant :: string
  darkVibrant :: string
  lightVibrant :: string
  muted :: string
  darkMuted :: string
  lightMuted :: string
  complementary :: string
  analogous1 :: string
  analogous2 :: string

definition buildDerivedPalette :: "string \<Rightarrow> DominantColors" where
  "buildDerivedPalette primaryColor =
     (let complementary' = getComplementaryColor primaryColor;
          analogous = getAnalogousColors primaryColor
      in \<lparr>vibrant = primaryColor,
          darkVibrant = adjustBrightness primaryColor (- 30),
          lightVibrant = adjustBrightness primaryColor 30,
          muted = adjustSaturation primaryColor (- 30),
          darkMuted = adjustBrightness (adjustSaturation primaryColor (- 30)) (- 30),
          lightMuted = adjustBrightness (adjustSaturation primaryColor (- 30)) 30,
          complementary = complementary',
          analogous1 = fst analogous,
          analogous2 = snd analogous\<rparr>)"

text \<open>\<open>Object.values(dominantColors)\<close>: the nine slots in declaration order.\<close>

definition paletteValues :: "DominantColors \<Rightarrow> string list" where
  "paletteValues d =
     [vibrant d, darkVibrant d, lightVibrant d, muted d, darkMuted d, lightMuted d,
      complementary d, analogous1 d, analogous2 d]"

section \<open>The tinycolor2 library\<close>

text \<open>
  Modelled from the spec: tinycolor2 is a third-party package, not a file of this
  repository. The spec describes what the repository uses of it: the WCAG contrast ratio
  (section 4.1, \<open>contrastRatio\<close>), the dark/light heuristic, hue, saturation and
  lightness conversion, and the lightness step of one unit. The definitions below give
  these operations as the library computes them, over the reals instead of binary
  floating point. Of the string formats the library reads, the hexadecimal ones are
  modelled (3, 4, 6 and 8 digits, with or without \<open>#\<close>); any other text is read as
  an invalid colour, which the library turns into black.
\<close>

record tc =
  tc_r :: real
  tc_g :: real
  tc_b :: real

definition toLowerChar :: "char \<Rightarrow> char" where
  "toLowerChar c =
     (case map_of (zip ''ABCDEFGHIJKLMNOPQRSTUVWXYZ'' ''abcdefghijklmnopqrstuvwxyz'') c of
        Some d \<Rightarrow> d
      | None \<Rightarrow> c)"

text \<open>
  The constructor keeps a channel below 1 as 0 or 1
  (\<open>if (this._r < 1) this._r = Math.round(this._r)\<close>), after clamping to 0..255.
\<close>

definition tc_channel :: "real \<Rightarrow> real" where
  "tc_channel x = (let y = min 255 (max x 0) in if y < 1 then real_of_int (js_round y) else y)"

definition mk_tc :: "real \<Rightarrow> real \<Rightarrow> real \<Rightarrow> tc" where
  "mk_tc r g b = \<lparr>tc_r = tc_channel r, tc_g = tc_channel g, tc_b = tc_channel b\<rparr>"

text \<open>
  \<open>bound01(n, max)\<close> on a number: clamp to 0..max, 1 when within a millionth of max,
  else \<open>(n % max) / max\<close>, where \<open>n % max\<close> is \<open>n\<close> itself as \<open>0 \<le> n < max\<close> there.
\<close>

definition bound01 :: "real \<Rightarrow> real \<Rightarrow> real" where
  "bound01 n mx =
     (let n' = min mx (max 0 n) in if \<bar>n' - mx\<bar> < 0.000001 then 1 else n' / mx)"

text \<open>
  \<open>bound01(p + "%", max)\<close> on a percentage: the clamped number is cut to
  \<open>parseInt(n * max, 10) / 100\<close> before it is scaled.
\<close>

definition bound01_percent :: "real \<Rightarrow> real \<Rightarrow> real" where
  "bound01_percent p mx =
     (let n' = min mx (max 0 p);
          n'' = real_of_int \<lfloor>n' * mx\<rfloor> / 100
      in if \<bar>n'' - mx\<bar> < 0.000001 then 1 else n'' / mx)"

text \<open>
  \<open>bound01(convertToPercentage(n), max)\<close>: a saturation or lightness of at most 1 is
  turned into a percentage first.
\<close>

definition bound01_unit :: "real \<Rightarrow> real \<Rightarrow> real" where
  "bound01_unit n mx = (if n \<le> 1 then bound01_percent (n * 100) mx else bound01 n mx)"

definition hue2rgb :: "real \<Rightarrow> real \<Rightarrow> real \<Rightarrow> real" where
  "hue2rgb p q t0 =
     (let t1 = (if t0 < 0 then t0 + 1 else t0);
          t = (if t1 > 1 then t1 - 1 else t1)
      in if t < 1 / 6 then p + (q - p) * 6 * t
         else if t < 1 / 2 then q
         else if t < 2 / 3 then p + (q - p) * (2 / 3 - t) * 6
         else p)"

text \<open>\<open>hslToRgb(h, s, l)\<close> on the already bounded arguments; the result is in 0..255.\<close>

definition hslToRgb :: "real \<Rightarrow> real \<Rightarrow> real \<Rightarrow> real \<times> real \<times> real" where
  "hslToRgb h s l =
     (if s = 0 then (l * 255, l * 255, l * 255)
      else
        (let q = (if l < 1 / 2 then l * (1 + s) else l + s - l * s);
             p = 2 * l - q
         in (hue2rgb p q (h + 1 / 3) * 255, hue2rgb p q h * 255, hue2rgb p q (h - 1 / 3) * 255)))"

text \<open>\<open>tinycolor({h, s, l})\<close>: \<open>h\<close> in degrees, \<open>s\<close> and \<open>l\<close> as given by the caller.\<close>

definition tinycolor_hsl :: "real \<Rightarrow> real \<Rightarrow> real \<Rightarrow> tc" where
  "tinycolor_hsl h s l =
     (case hslToRgb (bound01 h 360) (bound01_unit s 100) (bound01_unit l 100) of
        (r, g, b) \<Rightarrow> mk_tc r g b)"

text \<open>\<open>rgbToHsl(r, g, b)\<close>: hue in 0..1, saturation, lightness.\<close>

definition rgbToHsl :: "real \<Rightarrow> real \<Rightarrow> real \<Rightarrow> real \<times> real \<times> real" where
  "rgbToHsl r0 g0 b0 =
     (let r = bound01 r0 255; g = bound01 g0 255; b = bound01 b0 255;
          mx = max r (max g b); mn = min r (min g b);
          l = (mx + mn) / 2
      in if mx = mn then (0, 0, l)
         else
           (let d = mx - mn;
                s = (if l > 1 / 2 then d / (2 - mx - mn) else d / (mx + mn));
                h = (if mx = r then (g - b) / d + (if g < b then 6 else 0)
                     else if mx = g then (b - r) / d + 2
                     else (r - g) / d + 4)
            in (h / 6, s, l)))"

text \<open>\<open>toHsl()\<close>: the hue in degrees.\<close>

definition toHsl :: "tc \<Rightarrow> real \<times> real \<times> real" where
  "toHsl c = (case rgbToHsl (tc_r c) (tc_g c) (tc_b c) of (h, s, l) \<Rightarrow> (h * 360, s, l))"

definition clamp01 :: "real \<Rightarrow> real" where
  "clamp01 x = min 1 (max 0 x)"

definition lighten :: "tc \<Rightarrow> real \<Rightarrow> tc" where
  "lighten c amount =
     (case toHsl c of (h, s, l) \<Rightarrow> tinycolor_hsl h s (clamp01 (l + amount / 100)))"

definition darken :: "tc \<Rightarrow> real \<Rightarrow> tc" where
  "darken c amount =
     (case toHsl c of (h, s, l) \<Rightarrow> tinycolor_hsl h s (clamp01 (l - amount / 100)))"

definition saturate :: "tc \<Rightarrow> real \<Rightarrow> tc" where
  "saturate c amount =
     (case toHsl c of (h, s, l) \<Rightarrow> tinycolor_hsl h (clamp01 (s + amount / 100)) l)"

definition desaturate :: "tc \<Rightarrow> real \<Rightarrow> tc" where
  "desaturate c amount =
     (case toHsl c of (h, s, l) \<Rightarrow> tinycolor_hsl h (clamp01 (s - amount / 100)) l)"

text \<open>\<open>toRgb()\<close> rounds the channels; \<open>toHexString()\<close> prints each as two hex digits.\<close>

definition toRgb :: "tc \<Rightarrow> ColorRGB" where
  "toRgb c = \<lparr>cr = js_round (tc_r c), cg = js_round (tc_g c), cb = js_round (tc_b c)\<rparr>"

definition pad2 :: "string \<Rightarrow> string" where
  "pad2 s = (if length s = 1 then CHR ''0'' # s else s)"

definition toHexString :: "tc \<Rightarrow> string" where
  "toHexString c =
     CHR ''#'' # pad2 (toString16 (nat (js_round (tc_r c))))
       @ pad2 (toString16 (nat (js_round (tc_g c))))
       @ pad2 (toString16 (nat (js_round (tc_b c))))"

text \<open>
  \<open>tinycolor(text)\<close>: the text is trimmed and lowered; eight, six, four or three hex
  digits (after an optional \<open>#\<close>) give the channels, the alpha digits being dropped;
  other text is invalid and yields black.
\<close>

definition tinycolor :: "string \<Rightarrow> tc" where
  "tinycolor color =
     (let h = stripHash (map toLowerChar (trim color)) in
      if (length h = 8 \<or> length h = 6) \<and> list_all isHexDigit h
      then mk_tc (real_of_int (parseIntHex (take 2 h)))
                 (real_of_int (parseIntHex (take 2 (drop 2 h))))
                 (real_of_int (parseIntHex (take 2 (drop 4 h))))
      else if (length h = 4 \<or> length h = 3) \<and> list_all isHexDigit h
      then mk_tc (real_of_int (parseIntHex [h ! 0, h ! 0]))
                 (real_of_int (parseIntHex [h ! 1, h ! 1]))
                 (real_of_int (parseIntHex [h ! 2, h ! 2]))
      else mk_tc 0 0 0)"

text \<open>\<open>getBrightness()\<close> and \<open>isDark()\<close>.\<close>

definition getBrightness :: "tc \<Rightarrow> real" where
  "getBrightness c =
     (let rgb = toRgb c
      in real_of_int (cr rgb * 299 + cg rgb * 587 + cb rgb * 114) / 1000)"

definition isDark :: "tc \<Rightarrow> bool" where
  "isDark c \<longleftrightarrow> getBrightness c < 128"

text \<open>\<open>getLuminance()\<close>: the WCAG relative luminance of the rounded channels.\<close>

definition linearize :: "real \<Rightarrow> real" where
  "linearize c = (if c \<le> 0.03928 then c / 12.92 else ((c + 0.055) / 1.055) powr 2.4)"

definition getLuminance :: "tc \<Rightarrow> real" where
  "getLuminance c =
     (let rgb = toRgb c
      in 0.2126 * linearize (real_of_int (cr rgb) / 255)
         + 0.7152 * linearize (real_of_int (cg rgb) / 255)
         + 0.0722 * linearize (real_of_int (cb rgb) / 255))"

text \<open>\<open>tinycolor.readability(color1, color2)\<close>.\<close>

definition readability :: "string \<Rightarrow> string \<Rightarrow> real" where
  "readability color1 color2 =
     (let l1 = getLuminance (tinycolor color1); l2 = getLuminance (tinycolor color2)
      in (max l1 l2 + 0.05) / (min l1 l2 + 0.05))"

section \<open>Numbers: \<open>Math.sqrt\<close>\<close>

text \<open>
  A JS number is a double. The colour channels and the sums of their squares are small
  integers, which doubles hold exactly, so a distance is rounded once, by \<open>Math.sqrt\<close>,
  which returns the double nearest to the root (ties to the even mantissa). \<open>to_double\<close>
  is that rounding for a real in the normal range of doubles (a mantissa of 53 bits; the
  roots taken here are at most 442): \<open>u\<close> is the spacing of the doubles around \<open>x\<close>.
\<close>

definition round_even :: "real \<Rightarrow> int" where
  "round_even y =
     (let f = \<lfloor>y\<rfloor>
      in if y - of_int f < 1 / 2 then f
         else if 1 / 2 < y - of_int f then f + 1
         else if even f then f else f + 1)"

definition to_double :: "real \<Rightarrow> real" where
  "to_double x =
     (if x = 0 then 0
      else let e = \<lfloor>log 2 \<bar>x\<bar>\<rfloor>;
               u = 2 powr (of_int e - 52)
           in u * of_int (round_even (x / u)))"

definition Math_sqrt :: "real \<Rightarrow> real" where
  "Math_sqrt x = to_double (sqrt x)"

section \<open>Colour utilities of src/lib/color-utils\<close>

definition hexToRgb :: "string \<Rightarrow> ColorRGB" where
  "hexToRgb hex = toRgb (tinycolor hex)"

definition colorDistance :: "ColorRGB \<Rightarrow> ColorRGB \<Rightarrow> real" where
  "colorDistance color1 color2 =
     (let rDiff = cr color1 - cr color2;
          gDiff = cg color1 - cg color2;
          bDiff = cb color1 - cb color2
      in Math_sqrt (real_of_int (rDiff * rDiff + gDiff * gDiff + bDiff * bDiff)))"

definition isColorMatch :: "ColorRGB \<Rightarrow> ColorRGB \<Rightarrow> real \<Rightarrow> bool" where
  "isColorMatch targetColor imageColor threshold \<longleftrightarrow>
     colorDistance targetColor imageColor \<le> threshold"

definition getContrastRatio :: "string \<Rightarrow> string \<Rightarrow> real" where
  "getContrastRatio fg bg = readability fg bg"

text \<open>
  \<open>ensureContrast\<close>: the loop steps the colour object \<open>result\<close> by one lightness unit,
  up (background dark) or down, while the contrast of its printed form is below the
  target and fewer than 100 steps were taken. The loop function returns the final
  colour together with the number of steps taken.
\<close>

function ensureContrast_loop :: "string \<Rightarrow> real \<Rightarrow> bool \<Rightarrow> tc \<Rightarrow> nat \<Rightarrow> tc \<times> nat" where
  "ensureContrast_loop bg targetRatio isBgDark result iterations =
     (if readability (toHexString result) bg < targetRatio \<and> iterations < 100
      then ensureContrast_loop bg targetRatio isBgDark
             (if isBgDark then lighten result 1 else darken result 1) (iterations + 1)
      else (result, iterations))"
  by pat_completeness auto
termination
  by (relation "measure (\<lambda>(bg, targetRatio, isBgDark, result, iterations). 100 - iterations)") auto

declare ensureContrast_loop.simps [simp del]

definition ensureContrast :: "string \<Rightarrow> string \<Rightarrow> real \<Rightarrow> string" where
  "ensureContrast fg bg targetRatio =
     (if readability fg bg \<ge> targetRatio then fg
      else toHexString (fst (ensureContrast_loop bg targetRatio (isDark (tinycolor bg)) (tinycolor fg) 0)))"

text \<open>\<open>getColorName\<close>: a colour name for the search text, from hue, saturation and lightness.\<close>

definition getColorName :: "string \<Rightarrow> string" where
  "getColorName hex =
     (case toHsl (tinycolor hex) of (h, s, l) \<Rightarrow>
        if l < 0.15 then ''black''
        else if l > 0.85 then ''white''
        else if s < 0.15 then ''gray''
        else if h < 30 then ''red''
        else if h < 60 then ''orange''
        else if h < 90 then ''yellow''
        else if h < 150 then ''green''
        else if h < 210 then ''teal''
        else if h < 270 then ''blue''
        else if h < 300 then ''purple''
        else if h < 330 then ''pink''
        else ''red'')"

definition getUnsplashColorParam :: "string \<Rightarrow> string option" where
  "getUnsplashColorParam hex =
     (let name = getColorName hex;
          supported = [''black'', ''white'', ''yellow'', ''orange'', ''red'',
                       ''purple'', ''magenta'', ''green'', ''teal'', ''blue'']
      in if name = ''pink'' then Some ''magenta''
         else if name \<in> set supported then Some name
         else None)"

section \<open>Provider images and adapters (src/lib/image-api)\<close>

record Urls =
  raw :: string
  full :: string
  regular :: string
  small :: string
  thumb :: string

record UserInfo =
  name :: string
  username :: string
  profile_image :: "string option"

record UnsplashImage =
  us_id :: string
  us_urls :: Urls
  us_user :: UserInfo
  us_links :: "string option"
  us_description :: "string option"
  us_alt_description :: "string option"
  us_color :: string

record PexelsSrc =
  original :: string
  large2x :: string
  large :: string
  medium :: string
  src_small :: string

record PexelsImage =
  px_id :: int
  px_src :: PexelsSrc
  px_photographer :: string
  px_avg_color :: string

record PixabayImage =
  pb_id :: int
  pb_pageURL :: string
  pb_type :: string
  pb_tags :: string
  pb_previewURL :: string
  pb_webformatURL :: string
  pb_largeImageURL :: string
  pb_user :: string
  pb_userImageURL :: string

datatype ImageSource = Unsplash | Pexels | Pixabay

record ColorSearchResultImage =
  r_id :: string
  r_urls :: Urls
  r_user :: UserInfo
  r_links :: string
  r_description :: "string option"
  r_alt_description :: "string option"
  r_color :: string
  r_dominantColors :: DominantColors
  r_source :: ImageSource

text \<open>
  What one HTTP request of an adapter comes back with: \<open>Http_error\<close> when axios throws
  (no connection, or a status outside 2xx such as a refused credential), else the list
  under the field the adapter reads (\<open>results\<close>, \<open>photos\<close>, \<open>hits\<close>) of the response
  body, \<open>None\<close> when the body has no such field (the read yields \<open>undefined\<close>).
\<close>

datatype 'a http_result = Http_error | Http_ok "'a list option"

text \<open>
  The world outside the request handler: the three provider services, as functions of
  the request parameters, and the Pixabay key of the process environment.
\<close>

record Providers =
  unsplash_api :: "string \<Rightarrow> int \<Rightarrow> int \<Rightarrow> string option \<Rightarrow> UnsplashImage http_result"
  pexels_api :: "string \<Rightarrow> int \<Rightarrow> int \<Rightarrow> PexelsImage http_result"
  pixabay_api :: "string \<Rightarrow> int \<Rightarrow> int \<Rightarrow> PixabayImage http_result"
  PIXABAY_API_KEY :: "string option"

text \<open>
  \<open>searchUnsplash\<close>: the \<open>color\<close> parameter sent is \<open>color || (query.startsWith('#') ?
  undefined : query)\<close>. A thrown request gives \<open>[]\<close>; otherwise the adapter returns
  \<open>response.data.results\<close> as it is, \<open>undefined\<close> (here \<open>None\<close>) included.
\<close>

definition searchUnsplash ::
  "Providers \<Rightarrow> string \<Rightarrow> int \<Rightarrow> int \<Rightarrow> string option \<Rightarrow> UnsplashImage list option" where
  "searchUnsplash env query pg perPage color =
     (let colorParam =
            (case color of
               Some c \<Rightarrow> if c \<noteq> [] then Some c
                          else if take 1 query = ''#'' then None else Some query
             | None \<Rightarrow> if take 1 query = ''#'' then None else Some query)
      in case unsplash_api env query pg perPage colorParam of
           Http_error \<Rightarrow> Some []
         | Http_ok results \<Rightarrow> results)"

definition searchPexels :: "Providers \<Rightarrow> string \<Rightarrow> int \<Rightarrow> int \<Rightarrow> PexelsImage list option" where
  "searchPexels env query pg perPage =
     (case pexels_api env query pg perPage of
        Http_error \<Rightarrow> Some []
      | Http_ok photos \<Rightarrow> photos)"

text \<open>
  \<open>searchPixabay\<close>: no request at all without a key (\<open>!key\<close> holds for a missing and
  for an empty key); a body without \<open>hits\<close> gives \<open>[]\<close> (\<open>response.data.hits ?? []\<close>).
\<close>

definition searchPixabay :: "Providers \<Rightarrow> string \<Rightarrow> int \<Rightarrow> int \<Rightarrow> PixabayImage list option" where
  "searchPixabay env query pg perPage =
     (case PIXABAY_API_KEY env of
        None \<Rightarrow> Some []
      | Some k \<Rightarrow>
          if k = [] then Some []
          else (case pixabay_api env query pg perPage of
                  Http_error \<Rightarrow> Some []
                | Http_ok hits \<Rightarrow> (case hits of None \<Rightarrow> Some [] | Some hs \<Rightarrow> Some hs)))"

text \<open>
  The palette builders. \<open>image.color || '#000000'\<close>: an empty colour falls back to
  black. The \<open>catch\<close> branches are not reachable for an image record (nothing in the
  body throws), so the Unsplash and Pexels builders always return a palette; the Pixabay
  builder always returns \<open>null\<close>.
\<close>

definition buildDominantColorsFromUnsplash :: "UnsplashImage \<Rightarrow> DominantColors option" where
  "buildDominantColorsFromUnsplash img =
     (let primaryColor = (if us_color img \<noteq> [] then us_color img else ''#000000'')
      in Some (buildDerivedPalette primaryColor))"

definition buildDominantColorsFromPexels :: "PexelsImage \<Rightarrow> DominantColors option" where
  "buildDominantColorsFromPexels img =
     (let primaryColor = (if px_avg_color img \<noteq> [] then px_avg_color img else ''#000000'')
      in Some (buildDerivedPalette primaryColor))"

definition buildDominantColorsFromPixabay :: "PixabayImage \<Rightarrow> DominantColors option" where
  "buildDominantColorsFromPixabay img = None"

section \<open>JavaScript built-ins used when an image is reshaped\<close>

text \<open>\<open>Number.prototype.toString()\<close> on an integer.\<close>

fun toString10 :: "nat \<Rightarrow> string" where
  "toString10 n =
     (if n < 10 then [''0123456789'' ! n] else toString10 (n div 10) @ [''0123456789'' ! (n mod 10)])"

declare toString10.simps [simp del]

definition numberToString :: "int \<Rightarrow> string" where
  "numberToString i = (if i < 0 then CHR ''-'' # toString10 (nat (- i)) else toString10 (nat i))"

text \<open>\<open>s.toLowerCase()\<close> (on ASCII letters) and \<open>s.replace(/\s+/g, '-')\<close>.\<close>

definition toLowerCase :: "string \<Rightarrow> string" where
  "toLowerCase s = map toLowerChar s"

fun replaceSpaces_from :: "bool \<Rightarrow> string \<Rightarrow> string" where
  "replaceSpaces_from inRun [] = []"
| "replaceSpaces_from inRun (c # cs) =
     (if isSpace c then (if inRun then replaceSpaces_from True cs
                         else CHR ''-'' # replaceSpaces_from True cs)
      else c # replaceSpaces_from False cs)"

definition replaceSpaces :: "string \<Rightarrow> string" where
  "replaceSpaces s = replaceSpaces_from False s"

text \<open>
  \<open>encodeURIComponent\<close>: letters, digits and \<open>-_.!~*'()\<close> are kept; any other code unit
  is written as the \<open>%XX\<close> escapes of its UTF-8 bytes (one byte below 128, two above).
\<close>

definition percentByte :: "nat \<Rightarrow> string" where
  "percentByte n =
     [CHR ''%'', ''0123456789ABCDEF'' ! (n div 16), ''0123456789ABCDEF'' ! (n mod 16)]"

definition isUnreserved :: "char \<Rightarrow> bool" where
  "isUnreserved c \<longleftrightarrow>
     c \<in> set ''ABCDEFGHIJKLMNOPQRSTUVWXYZabcdefghijklmnopqrstuvwxyz0123456789-_.!~*()''
     \<or> (of_char c :: nat) = 39"

definition encodeURIComponent :: "string \<Rightarrow> string" where
  "encodeURIComponent s =
     concat (map (\<lambda>c. let n = (of_char c :: nat) in
                       if isUnreserved c then [c]
                       else if n < 128 then percentByte n
                       else percentByte (192 + n div 64) @ percentByte (128 + n mod 64)) s)"

section \<open>The search route (POST of /api/search-images)\<close>

record SearchImagesRequestBody =
  hexColors :: string
  page :: "int option"
  threshold :: "real option"

record SourceCounts =
  unsplash_count :: nat
  pexels_count :: nat
  pixabay_count :: nat

record SearchImagesResponseBody =
  images :: "ColorSearchResultImage list"
  resp_page :: int
  total :: nat
  sources :: SourceCounts

text \<open>The adapter calls a request makes, with their arguments, in the order they are issued.\<close>

datatype AdapterCall =
    Call_searchUnsplash string int int "string option"
  | Call_searchPexels string int int
  | Call_searchPixabay string int int

text \<open>
  \<open>hasMatch\<close>: some value of the palette (all nine are strings, so the \<open>null\<close> filter
  and the \<open>typeof\<close> test pass every one) is matched by some target colour.
\<close>

definition hasMatch :: "ColorRGB list \<Rightarrow> real \<Rightarrow> DominantColors \<Rightarrow> bool" where
  "hasMatch targetRgbColors thr dominantColors =
     list_ex (\<lambda>imageHex.
                let imageRgb = hexToRgb imageHex
                in list_ex (\<lambda>targetRgb. isColorMatch targetRgb imageRgb thr) targetRgbColors)
             (paletteValues dominantColors)"

definition unsplashResult :: "UnsplashImage \<Rightarrow> DominantColors \<Rightarrow> ColorSearchResultImage" where
  "unsplashResult img dominantColors =
     \<lparr>r_id = us_id img,
      r_urls = us_urls img,
      r_user = us_user img,
      r_links = (case us_links img of
                   Some l \<Rightarrow> l
                 | None \<Rightarrow> ''https://unsplash.com/photos/'' @ us_id img),
      r_description = us_description img,
      r_alt_description = us_alt_description img,
      r_color = us_color img,
      r_dominantColors = dominantColors,
      r_source = Unsplash\<rparr>"

definition pexelsResult :: "PexelsImage \<Rightarrow> DominantColors \<Rightarrow> ColorSearchResultImage" where
  "pexelsResult img dominantColors =
     \<lparr>r_id = numberToString (px_id img),
      r_urls = \<lparr>raw = original (px_src img), full = large2x (px_src img),
                regular = large (px_src img), small = medium (px_src img),
                thumb = src_small (px_src img)\<rparr>,
      r_user = \<lparr>name = px_photographer img,
                username = replaceSpaces (toLowerCase (px_photographer img)),
                profile_image =
                  Some (''https://ui-avatars.com/api/?name=''
                        @ encodeURIComponent (px_photographer img) @ ''&size=32'')\<rparr>,
      r_links = ''https://www.pexels.com/photo/'' @ numberToString (px_id img) @ ''/'',
      r_description = None,
      r_alt_description = Some (''Photo by '' @ px_photographer img),
      r_color = px_avg_color img,
      r_dominantColors = dominantColors,
      r_source = Pexels\<rparr>"

definition pixabayResult :: "PixabayImage \<Rightarrow> DominantColors \<Rightarrow> ColorSearchResultImage" where
  "pixabayResult img dominantColors =
     \<lparr>r_id = numberToString (pb_id img),
      r_urls = \<lparr>raw = pb_largeImageURL img, full = pb_largeImageURL img,
                regular = pb_webformatURL img, small = pb_webformatURL img,
                thumb = pb_previewURL img\<rparr>,
      r_user = \<lparr>name = pb_user img,
                username = replaceSpaces (toLowerCase (pb_user img)),
                profile_image =
                  (if pb_userImageURL img \<noteq> [] then Some (pb_userImageURL img) else None)\<rparr>,
      r_links = pb_pageURL img,
      r_description = Some (pb_tags img),
      r_alt_description = Some (pb_tags img),
      r_color = vibrant dominantColors,
      r_dominantColors = dominantColors,
      r_source = Pixabay\<rparr>"

text \<open>
  The three \<open>for\<close> loops over the provider lists. Each takes the list \<open>matchedImages\<close>
  built so far and returns it with the matching images of its provider pushed at the
  end; an image whose palette builder returns \<open>null\<close> is skipped (\<open>continue\<close>).
\<close>

definition processUnsplash ::
  "ColorRGB list \<Rightarrow> real \<Rightarrow> UnsplashImage list \<Rightarrow> ColorSearchResultImage list
     \<Rightarrow> ColorSearchResultImage list" where
  "processUnsplash targetRgbColors thr unsplashImages matchedImages =
     foldl (\<lambda>matched img.
              case buildDominantColorsFromUnsplash img of
                None \<Rightarrow> matched
              | Some dominantColors \<Rightarrow>
                  if hasMatch targetRgbColors thr dominantColors
                  then matched @ [unsplashResult img dominantColors]
                  else matched)
           matchedImages unsplashImages"

definition processPexels ::
  "ColorRGB list \<Rightarrow> real \<Rightarrow> PexelsImage list \<Rightarrow> ColorSearchResultImage list
     \<Rightarrow> ColorSearchResultImage list" where
  "processPexels targetRgbColors thr pexelsImages matchedImages =
     foldl (\<lambda>matched img.
              case buildDominantColorsFromPexels img of
                None \<Rightarrow> matched
              | Some dominantColors \<Rightarrow>
                  if hasMatch targetRgbColors thr dominantColors
                  then matched @ [pexelsResult img dominantColors]
                  else matched)
           matchedImages pexelsImages"

definition processPixabay ::
  "ColorRGB list \<Rightarrow> real \<Rightarrow> PixabayImage list \<Rightarrow> ColorSearchResultImage list
     \<Rightarrow> ColorSearchResultImage list" where
  "processPixabay targetRgbColors thr pixabayImages matchedImages =
     foldl (\<lambda>matched img.
              case buildDominantColorsFromPixabay img of
                None \<Rightarrow> matched
              | Some dominantColors \<Rightarrow>
                  if hasMatch targetRgbColors thr dominantColors
                  then matched @ [pixabayResult img dominantColors]
                  else matched)
           matchedImages pixabayImages"

text \<open>
  The score of the route: the least distance between the image's \<open>color\<close> field and a
  target colour, \<open>reduce\<close>d from \<open>Infinity\<close>.
\<close>

datatype jsnum = Num real | Infinity

fun num_min :: "jsnum \<Rightarrow> jsnum \<Rightarrow> jsnum" where
  "num_min Infinity y = y"
| "num_min (Num x) Infinity = Num x"
| "num_min (Num x) (Num y) = Num (min x y)"

definition imageDist :: "ColorRGB list \<Rightarrow> ColorSearchResultImage \<Rightarrow> jsnum" where
  "imageDist targetRgbColors img =
     (let imgRgb = hexToRgb (r_color img)
      in foldl (\<lambda>mn target.
                  let d = Math_sqrt (real_of_int ((cr target - cr imgRgb) ^ 2)
                                     + real_of_int ((cg target - cg imgRgb) ^ 2)
                                     + real_of_int ((cb target - cb imgRgb) ^ 2))
                  in num_min mn (Num d))
               Infinity targetRgbColors)"

text \<open>
  \<open>scoredImages.sort((a, b) => a.dist - b.dist)\<close>. The sort of an array is stable, and
  the comparator orders by the key \<open>dist\<close>, so the result is the stable arrangement by
  that key. \<open>dist_le a b\<close> says that the comparator does not put \<open>b\<close> before \<open>a\<close>
  (\<open>a - b\<close> is not positive; \<open>Infinity - Infinity\<close> is NaN, which sorts as equal).
\<close>

fun dist_le :: "jsnum \<Rightarrow> jsnum \<Rightarrow> bool" where
  "dist_le (Num x) (Num y) = (x \<le> y)"
| "dist_le (Num x) Infinity = True"
| "dist_le Infinity (Num y) = False"
| "dist_le Infinity Infinity = True"

fun insertByDist ::
  "ColorSearchResultImage \<times> jsnum \<Rightarrow> (ColorSearchResultImage \<times> jsnum) list
     \<Rightarrow> (ColorSearchResultImage \<times> jsnum) list" where
  "insertByDist a [] = [a]"
| "insertByDist a (b # bs) =
     (if dist_le (snd a) (snd b) then a # b # bs else b # insertByDist a bs)"

definition sortByDist ::
  "(ColorSearchResultImage \<times> jsnum) list \<Rightarrow> (ColorSearchResultImage \<times> jsnum) list" where
  "sortByDist scoredImages = foldr insertByDist scoredImages []"

text \<open>
  The destructuring defaults of the request body (\<open>page = 1\<close>, \<open>threshold = 80\<close>).
\<close>

definition pageOf :: "SearchImagesRequestBody \<Rightarrow> int" where
  "pageOf body = (case page body of None \<Rightarrow> 1 | Some p \<Rightarrow> p)"

definition thresholdOf :: "SearchImagesRequestBody \<Rightarrow> real" where
  "thresholdOf body = (case threshold body of None \<Rightarrow> 80 | Some t \<Rightarrow> t)"

text \<open>
  The fan-out (\<open>Promise.all\<close>) for the primary swatch: the three adapter calls and what
  each returned.
\<close>

definition fetchAll ::
  "Providers \<Rightarrow> string \<Rightarrow> int
     \<Rightarrow> AdapterCall list \<times> UnsplashImage list option \<times> PexelsImage list option
        \<times> PixabayImage list option" where
  "fetchAll env primaryHex pg =
     (let colorName = getColorName primaryHex;
          unsplashColor = getUnsplashColorParam primaryHex;
          searchQuery = colorName @ '' nature abstract''
      in ([Call_searchUnsplash searchQuery pg 20 unsplashColor,
           Call_searchPexels (colorName @ '' color'') pg 20,
           Call_searchPixabay colorName pg 30],
          searchUnsplash env searchQuery pg 20 unsplashColor,
          searchPexels env (colorName @ '' color'') pg 20,
          searchPixabay env colorName pg 30))"

text \<open>The response body built from \<open>matchedImages\<close>: scoring, sorting and the counts.\<close>

definition buildResponse ::
  "ColorRGB list \<Rightarrow> int \<Rightarrow> ColorSearchResultImage list \<Rightarrow> SearchImagesResponseBody" where
  "buildResponse targetRgbColors pg matchedImages =
     (let scoredImages = map (\<lambda>img. (img, imageDist targetRgbColors img)) matchedImages;
          sorted' = map fst (sortByDist scoredImages)
      in \<lparr>images = sorted',
          resp_page = pg,
          total = length sorted',
          sources =
            \<lparr>unsplash_count = length (filter (\<lambda>img. r_source img = Unsplash) matchedImages),
             pexels_count = length (filter (\<lambda>img. r_source img = Pexels) matchedImages),
             pixabay_count = length (filter (\<lambda>img. r_source img = Pixabay) matchedImages)\<rparr>\<rparr>)"

text \<open>
  The handler. Its result is the HTTP answer, an error (status and message) or the
  response body, together with the adapter calls it made. Iterating over a provider list
  that is \<open>undefined\<close> throws, and the outer \<open>catch\<close> answers 500.
\<close>

definition POST ::
  "Providers \<Rightarrow> SearchImagesRequestBody
     \<Rightarrow> ((nat \<times> string) + SearchImagesResponseBody) \<times> AdapterCall list" where
  "POST env body =
     (let parsedColors = parseHexColors (hexColors body)
      in if length parsedColors = 0
         then (Inl (400, ''No valid HEX colors provided''), [])
         else
           (case fetchAll env (parsedColors ! 0) (pageOf body) of
              (calls, unsplashImages, pexelsImages, pixabayImages) \<Rightarrow>
                (let targetRgbColors = map hexToRgb parsedColors
                 in case unsplashImages of
                      None \<Rightarrow> (Inl (500, ''Internal server error''), calls)
                    | Some us \<Rightarrow>
                        (case pexelsImages of
                           None \<Rightarrow> (Inl (500, ''Internal server error''), calls)
                         | Some ps \<Rightarrow>
                             (case pixabayImages of
                                None \<Rightarrow> (Inl (500, ''Internal server error''), calls)
                              | Some pbs \<Rightarrow>
                                  (Inr (buildResponse targetRgbColors (pageOf body)
                                          (processPixabay targetRgbColors (thresholdOf body) pbs
                                             (processPexels targetRgbColors (thresholdOf body) ps
                                                (processUnsplash targetRgbColors (thresholdOf body) us [])))),
                                   calls))))))"

text \<open>
  One step of the correction loop of \<open>ensureContrast\<close>: one lightness unit up when the
  background is dark, one down otherwise.
\<close>

definition contrastStep :: "bool \<Rightarrow> tc \<Rightarrow> tc" where
  "contrastStep isBgDark c = (if isBgDark then lighten c 1 else darken c 1)"

section \<open>Role assignment (applyFromBase of the palette page, with its helpers of color-utils)\<close>

datatype Vibe = Minimal | Vibrant | Playful | Serious | Editorial | Retro

datatype Brightness = Light | Dark | Mixed

record PaletteSlots =
  base :: string
  background :: string
  illustration :: string
  accent :: string
  textHeading :: string
  textBody :: string

text \<open>The \<open>switch\<close> of \<open>applyVibeToPalette\<close>: saturation shift and brightness shift.\<close>

fun vibeShifts :: "Vibe \<Rightarrow> real \<times> real" where
  "vibeShifts Minimal = (- 20, 10)"
| "vibeShifts Vibrant = (30, 5)"
| "vibeShifts Playful = (15, 10)"
| "vibeShifts Serious = (- 10, - 10)"
| "vibeShifts Editorial = (- 5, 0)"
| "vibeShifts Retro = (- 10, - 5)"

text \<open>\<open>applyVibeToPalette(hex, vibe).base\<close>.\<close>

definition applyVibeToPalette :: "string \<Rightarrow> Vibe \<Rightarrow> string" where
  "applyVibeToPalette hex vibe =
     (case vibeShifts vibe of (saturationShift, brightnessShift) \<Rightarrow>
        let color = tinycolor hex;
            adjusted1 = (if saturationShift > 0 then saturate color saturationShift
                         else desaturate color \<bar>saturationShift\<bar>);
            adjusted2 = (if brightnessShift > 0 then lighten adjusted1 brightnessShift
                         else darken adjusted1 \<bar>brightnessShift\<bar>)
        in toHexString adjusted2)"

text \<open>\<open>generateShades\<close> and \<open>generateTints\<close>: steps of 12 lightness units from the base.\<close>

definition generateShades :: "string \<Rightarrow> nat \<Rightarrow> string list" where
  "generateShades baseHex count =
     map (\<lambda>i. toHexString (darken (tinycolor baseHex) (real i * 12))) [1 ..< count + 1]"

definition generateTints :: "string \<Rightarrow> nat \<Rightarrow> string list" where
  "generateTints baseHex count =
     map (\<lambda>i. toHexString (lighten (tinycolor baseHex) (real i * 12))) [1 ..< count + 1]"

text \<open>
  Modelled from the spec: the hue rotations of tinycolor2 that \<open>generateHarmony\<close> calls
  (section 4.1, \<open>harmony\<close>): the complement turns the hue by 180 degrees, the triad by
  120 and 240. Of the five fields of \<open>generateHarmony\<close> the role assignment reads
  \<open>complementary\<close> and \<open>triadic\<close> only.
\<close>

definition rotateHue :: "tc \<Rightarrow> real \<Rightarrow> tc" where
  "rotateHue c degrees =
     (case toHsl c of (h, s, l) \<Rightarrow>
        tinycolor_hsl (if h + degrees < 360 then h + degrees else h + degrees - 360) s l)"

definition harmonyComplementary :: "string \<Rightarrow> string" where
  "harmonyComplementary baseHex = toHexString (rotateHue (tinycolor baseHex) 180)"

definition harmonyTriadic :: "string \<Rightarrow> string list" where
  "harmonyTriadic baseHex =
     [toHexString (tinycolor baseHex),
      toHexString (rotateHue (tinycolor baseHex) 120),
      toHexString (rotateHue (tinycolor baseHex) 240)]"

text \<open>
  \<open>applyFromBase(hex, vibe, brightness, threshold)\<close>: the slots it saves. The lists of
  tints and shades have eight entries and every entry is a non-empty string, so the
  fallbacks after \<open>||\<close> are never taken.
\<close>

definition chooseBackground :: "string \<Rightarrow> Vibe \<Rightarrow> Brightness \<Rightarrow> string" where
  "chooseBackground vibeBase vibe prefBrightness =
     (case toHsl (tinycolor vibeBase) of (h, s, l) \<Rightarrow>
        (case prefBrightness of
           Dark \<Rightarrow> toHexString (tinycolor_hsl h (min s 0.2) 0.08)
         | Mixed \<Rightarrow> (if vibe = Retro then ''#FDF8F1''
                      else if vibe = Minimal then ''#F3F4F6''
                      else ''#F9FAFB'')
         | Light \<Rightarrow> toHexString (tinycolor_hsl h (min s 0.1) 0.98)))"

definition applyFromBase :: "string \<Rightarrow> Vibe \<Rightarrow> Brightness \<Rightarrow> real \<Rightarrow> PaletteSlots" where
  "applyFromBase hex vibe brightness thr =
     (let vibeBase = applyVibeToPalette hex vibe;
          shades = generateShades vibeBase 8;
          tints = generateTints vibeBase 8;
          background' = chooseBackground vibeBase vibe brightness;
          isBgDark = isDark (tinycolor background');
          illustration' = (if isBgDark then tints ! 2 else vibeBase);
          accentCandidate = (if vibe = Playful then harmonyTriadic vibeBase ! 1
                             else harmonyComplementary vibeBase);
          accent' = ensureContrast accentCandidate background' (max thr 3.0);
          targetHeadingCandidate = (if isBgDark then tints ! 7 else shades ! 7);
          targetBodyCandidate = (if isBgDark then tints ! 5 else shades ! 5)
      in \<lparr>base = hex,
          background = background',
          illustration = illustration',
          accent = accent',
          textHeading = ensureContrast targetHeadingCandidate background' thr,
          textBody = ensureContrast targetBodyCandidate background' thr\<rparr>)"

text \<open>
  The ramp candidate of a text slot (index 7 for the heading, 5 for the body), and the
  colour the correction loop has reached after \<open>k\<close> steps from it, in print.
\<close>

definition rampCandidate :: "string \<Rightarrow> Vibe \<Rightarrow> Brightness \<Rightarrow> nat \<Rightarrow> string" where
  "rampCandidate hex vibe brightness idx =
     (let vibeBase = applyVibeToPalette hex vibe;
          background' = chooseBackground vibeBase vibe brightness
      in if isDark (tinycolor background') then generateTints vibeBase 8 ! idx
         else generateShades vibeBase 8 ! idx)"

definition stepped :: "string \<Rightarrow> string \<Rightarrow> nat \<Rightarrow> string" where
  "stepped candidate bg k =
     toHexString ((contrastStep (isDark (tinycolor bg)) ^^ k) (tinycolor candidate))"

section \<open>The claims' own notions\<close>

text \<open>
  A palette is within the threshold of a swatch set when one of its nine colours lies at
  Euclidean RGB distance at most \<open>t\<close> from one of the swatches.
\<close>

definition withinThreshold :: "string list \<Rightarrow> real \<Rightarrow> DominantColors \<Rightarrow> bool" where
  "withinThreshold swatches t palette \<longleftrightarrow>
     (\<exists>c \<in> set (paletteValues palette). \<exists>s \<in> set swatches.
        colorDistance (hexToRgb s) (hexToRgb c) \<le> t)"

text \<open>
  The least distance between an image's own colour (its \<open>color\<close> field) and a swatch.
\<close>

definition primaryScore :: "string list \<Rightarrow> ColorSearchResultImage \<Rightarrow> real" where
  "primaryScore swatches img =
     Min ((\<lambda>s. colorDistance (hexToRgb s) (hexToRgb (r_color img))) ` set swatches)"

section \<open>Sample data for the closed instances\<close>

definition demoUnsplash :: "string \<Rightarrow> string \<Rightarrow> UnsplashImage" where
  "demoUnsplash i c =
     \<lparr>us_id = i,
      us_urls = \<lparr>raw = ''u/raw'', full = ''u/full'', regular = ''u/regular'',
                 small = ''u/small'', thumb = ''u/thumb''\<rparr>,
      us_user = \<lparr>name = ''Ann Lee'', username = ''annlee'', profile_image = None\<rparr>,
      us_links = None,
      us_description = None,
      us_alt_description = None,
      us_color = c\<rparr>"

definition demoPexels :: "int \<Rightarrow> string \<Rightarrow> PexelsImage" where
  "demoPexels i c =
     \<lparr>px_id = i,
      px_src = \<lparr>original = ''p/original'', large2x = ''p/large2x'', large = ''p/large'',
                medium = ''p/medium'', src_small = ''p/small''\<rparr>,
      px_photographer = ''Bo Chen'',
      px_avg_color = c\<rparr>"

definition demoPixabay :: "int \<Rightarrow> PixabayImage" where
  "demoPixabay i =
     \<lparr>pb_id = i, pb_pageURL = ''b/page'', pb_type = ''photo'', pb_tags = ''sky'',
      pb_previewURL = ''b/preview'', pb_webformatURL = ''b/web'',
      pb_largeImageURL = ''b/large'', pb_user = ''Cy'', pb_userImageURL = []\<rparr>"

text \<open>Providers that answer every request the same way; the Pixabay key is set.\<close>

definition demoProviders ::
  "UnsplashImage http_result \<Rightarrow> PexelsImage http_result \<Rightarrow> PixabayImage http_result
     \<Rightarrow> Providers" where
  "demoProviders u p b =
     \<lparr>unsplash_api = (\<lambda>query pg perPage color. u),
      pexels_api = (\<lambda>query pg perPage. p),
      pixabay_api = (\<lambda>query pg perPage. b),
      PIXABAY_API_KEY = Some ''key''\<rparr>"

definition demoBody :: "string \<Rightarrow> SearchImagesRequestBody" where
  "demoBody text' = \<lparr>hexColors = text', page = None, threshold = None\<rparr>"

text \<open>The images of an answer, none when the answer is an error.\<close>

definition imagesOf ::
  "((nat \<times> string) + SearchImagesResponseBody) \<times> AdapterCall list
     \<Rightarrow> ColorSearchResultImage list" where
  "imagesOf answer = (case fst answer of Inl e \<Rightarrow> [] | Inr resp \<Rightarrow> images resp)"

text \<open>
  The match score as the spec words it: the least distance between any of the nine
  palette colours of an image and any swatch.
\<close>

definition paletteScore :: "string list \<Rightarrow> ColorSearchResultImage \<Rightarrow> real" where
  "paletteScore swatches img =
     Min ((\<lambda>(c, s). colorDistance (hexToRgb s) (hexToRgb c))
            ` (set (paletteValues (r_dominantColors img)) \<times> set swatches))"

text \<open>
  A request for one gray swatch, answered by three Unsplash images, one Pexels image and
  one Pixabay image, and what the handler returns for it.
\<close>

definition demoEnv :: Providers where
  "demoEnv =
     demoProviders
       (Http_ok (Some [demoUnsplash ''A'' ''#646464'', demoUnsplash ''B'' ''#808080'',
                       demoUnsplash ''W'' ''#ffffff'']))
       (Http_ok (Some [demoPexels 7 ''#828282'']))
       (Http_ok (Some [demoPixabay 9]))"

definition demoCalls :: "AdapterCall list" where
  "demoCalls =
     [Call_searchUnsplash ''gray nature abstract'' 1 20 None,
      Call_searchPexels ''gray color'' 1 20,
      Call_searchPixabay ''gray'' 1 30]"

definition demoResponse :: SearchImagesResponseBody where
  "demoResponse =
     \<lparr>images = [pexelsResult (demoPexels 7 ''#828282'') (buildDerivedPalette ''#828282''),
                unsplashResult (demoUnsplash ''B'' ''#808080'') (buildDerivedPalette ''#808080''),
                unsplashResult (demoUnsplash ''A'' ''#646464'') (buildDerivedPalette ''#646464'')],
      resp_page = 1,
      total = 3,
      sources = \<lparr>unsplash_count = 2, pexels_count = 1, pixabay_count = 0\<rparr>\<rparr>"

text \<open>
  The same request with a threshold of the caller's, and what the handler returns for it
  at threshold 1.
\<close>

definition demoBodyAt :: "string \<Rightarrow> real \<Rightarrow> SearchImagesRequestBody" where
  "demoBodyAt text' t = \<lparr>hexColors = text', page = None, threshold = Some t\<rparr>"

definition nearResponse :: SearchImagesResponseBody where
  "nearResponse =
     \<lparr>images = [pexelsResult (demoPexels 7 ''#828282'') (buildDerivedPalette ''#828282''),
                unsplashResult (demoUnsplash ''A'' ''#646464'') (buildDerivedPalette ''#646464'')],
      resp_page = 1,
      total = 2,
      sources = \<lparr>unsplash_count = 1, pexels_count = 1, pixabay_count = 0\<rparr>\<rparr>"

text \<open>
  A request for black, answered by one Unsplash image whose \<open>color\<close> is empty; the other
  two providers fail.
\<close>

definition noColorEnv :: Providers where
  "noColorEnv = demoProviders (Http_ok (Some [demoUnsplash ''Z'' []])) Http_error Http_error"

definition noColorCalls :: "AdapterCall list" where
  "noColorCalls =
     [Call_searchUnsplash ''black nature abstract'' 1 20 (Some ''black''),
      Call_searchPexels ''black color'' 1 20,
      Call_searchPixabay ''black'' 1 30]"

definition noColorResponse :: SearchImagesResponseBody where
  "noColorResponse =
     \<lparr>images = [unsplashResult (demoUnsplash ''Z'' []) (buildDerivedPalette ''#000000'')],
      resp_page = 1,
      total = 1,
      sources = \<lparr>unsplash_count = 1, pexels_count = 0, pixabay_count = 0\<rparr>\<rparr>"

text \<open>
  A request for gray where Unsplash answers with a body that has no \<open>results\<close> field,
  Pexels answers with one image and the Pixabay request throws.
\<close>

definition malformedEnv :: Providers where
  "malformedEnv =
     demoProviders (Http_ok None) (Http_ok (Some [demoPexels 7 ''#828282''])) Http_error"

text \<open>The gray whose lightness is \<open>k\<close> hundredths, as a colour object.\<close>

definition grayChannel :: "nat \<Rightarrow> real" where
  "grayChannel k = real k / 100 * 255"

definition grayLevel :: "nat \<Rightarrow> tc" where
  "grayLevel k = \<lparr>tc_r = grayChannel k, tc_g = grayChannel k, tc_b = grayChannel k\<rparr>"

text \<open>The channels of a colour object lie in 0..255.\<close>

definition inRange :: "tc \<Rightarrow> bool" where
  "inRange c \<longleftrightarrow> 0 \<le> tc_r c \<and> tc_r c \<le> 255 \<and> 0 \<le> tc_g c \<and> tc_g c \<le> 255
                 \<and> 0 \<le> tc_b c \<and> tc_b c \<le> 255"

text \<open>The lightness of a colour object, as \<open>toHsl\<close> gives it.\<close>

definition lightnessOf :: "tc \<Rightarrow> real" where
  "lightnessOf c = (case toHsl c of (h, s, l) \<Rightarrow> l)"

definition whiteTc :: tc where
  "whiteTc = \<lparr>tc_r = 255, tc_g = 255, tc_b = 255\<rparr>"

definition blackTc :: tc where
  "blackTc = \<lparr>tc_r = 0, tc_g = 0, tc_b = 0\<rparr>"

text \<open>
  What the role assignment is held to for a text slot: the target is \<open>reachable\<close> from a
  candidate when one of the colours of steps 0 to 100 of the correction, printed, has
  at least the target ratio against the background; \<open>maxAchieved\<close> is the largest of
  these 101 ratios.
\<close>

definition reachable :: "string \<Rightarrow> string \<Rightarrow> real \<Rightarrow> bool" where
  "reachable candidate bg thr \<longleftrightarrow> (\<exists>k \<in> {..100}. thr \<le> readability (stepped candidate bg k) bg)"

definition maxAchieved :: "string \<Rightarrow> string \<Rightarrow> real" where
  "maxAchieved candidate bg = Max ((\<lambda>k. readability (stepped candidate bg k) bg) ` {..100})"
section \<open>Rounding to a double\<close>

lemma round_even_le: "y \<le> of_int k \<Longrightarrow> round_even y \<le> k"
  unfolding round_even_def Let_def by (auto simp: floor_le_iff)

lemma round_even_lower: "y - 1 / 2 \<le> of_int (round_even y)"
  unfolding round_even_def Let_def by (auto; linarith)

lemma round_even_upper: "of_int (round_even y) \<le> y + 1 / 2"
  unfolding round_even_def Let_def by (auto; linarith)

lemma round_even_near:
  "of_int m - 1 / 2 < y \<Longrightarrow> y < of_int m + 1 / 2 \<Longrightarrow> round_even y = m"
  using round_even_lower [of y] round_even_upper [of y] by linarith

lemma to_double_0: "to_double 0 = 0"
  by (simp add: to_double_def)

lemma Math_sqrt_0: "Math_sqrt 0 = 0"
  by (simp add: Math_sqrt_def to_double_0)

lemma to_double_scale:
  assumes "0 < x"
  shows "\<exists>e u. to_double x = u * of_int (round_even (x / u)) \<and> u = 2 powr (of_int e - 52)
           \<and> 2 powr of_int e \<le> x \<and> x < 2 powr (of_int e + 1) \<and> 0 < u"
proof -
  define e where "e = \<lfloor>log 2 x\<rfloor>"
  define u :: real where "u = 2 powr (of_int e - 52)"
  have "of_int e \<le> log 2 x" "log 2 x < of_int e + 1" unfolding e_def by linarith+
  then have "2 powr of_int e \<le> x" "x < 2 powr (of_int e + 1)"
    using assms by (simp_all add: le_log_iff log_less_iff)
  moreover have "to_double x = u * of_int (round_even (x / u))"
    using assms by (simp add: to_double_def Let_def e_def u_def)
  moreover have "0 < u" by (simp add: u_def)
  ultimately show ?thesis using u_def by blast
qed

lemma to_double_lower:
  assumes "0 < x"
  shows "x * (1 - 1 / 2 ^ 53) \<le> to_double x"
proof -
  obtain e u where s: "to_double x = u * of_int (round_even (x / u))"
    "u = 2 powr (of_int e - 52)" "2 powr of_int e \<le> x" "0 < u"
    using to_double_scale [OF assms] by blast
  have "u = 2 powr of_int e / 2 ^ 52" unfolding s(2) by (simp add: powr_diff)
  then have u: "u \<le> x / 2 ^ 52" using s(3) by (simp add: divide_right_mono)
  have "x / u - 1 / 2 \<le> of_int (round_even (x / u))" by (rule round_even_lower)
  then have "u * (x / u - 1 / 2) \<le> u * of_int (round_even (x / u))"
    using s(4) by (intro mult_left_mono) simp_all
  then have "x - u / 2 \<le> to_double x" using s(4) by (simp add: s(1) algebra_simps)
  moreover have "x * (1 - 1 / 2 ^ 53) \<le> x - u / 2" using u by (simp add: algebra_simps)
  ultimately show ?thesis by linarith
qed

lemma to_double_le_nat:
  assumes "0 < x" "x \<le> real T" "T < 2 ^ 53"
  shows "to_double x \<le> real T"
proof -
  obtain e u where s: "to_double x = u * of_int (round_even (x / u))"
    "u = 2 powr (of_int e - 52)" "2 powr of_int e \<le> x" "0 < u"
    using to_double_scale [OF assms(1)] by blast
  have "(2 :: real) powr of_int e < 2 powr 53"
  proof -
    have "2 powr of_int e \<le> real T" using s(3) assms(2) by simp
    also have "real T < 2 ^ 53" using assms(3) by (metis of_nat_less_iff of_nat_numeral of_nat_power)
    also have "(2 :: real) ^ 53 = 2 powr 53" by simp
    finally show ?thesis .
  qed
  then have "of_int e < (53 :: real)" by (rule powr_less_cancel) simp
  then have e: "e \<le> 52" by linarith
  define j where "j = nat (52 - e)"
  have "of_int e - 52 = - real j" using e by (simp add: j_def)
  then have u: "u = 1 / 2 ^ j" by (simp add: s(2) powr_minus powr_realpow divide_simps)
  have "x / u \<le> real T / u" using assms(2) s(4) by (simp add: divide_right_mono)
  also have "real T / u = of_int (int (T * 2 ^ j))" by (simp add: u)
  finally have "round_even (x / u) \<le> int (T * 2 ^ j)" by (rule round_even_le)
  then have "of_int (round_even (x / u)) \<le> (of_int (int (T * 2 ^ j)) :: real)" by linarith
  then have "u * of_int (round_even (x / u)) \<le> u * of_int (int (T * 2 ^ j))"
    using s(4) by (intro mult_left_mono) simp_all
  also have "\<dots> = real T" by (simp add: u)
  finally show ?thesis by (simp add: s(1))
qed

lemma Math_sqrt_le_nat:
  assumes "0 \<le> n" "n \<le> int (T\<^sup>2)" "T < 2 ^ 53"
  shows "Math_sqrt (real_of_int n) \<le> real T"
proof (cases "n = 0")
  case True
  then show ?thesis by (simp add: Math_sqrt_0)
next
  case False
  with assms(1) have pos: "0 < sqrt (real_of_int n)" by simp
  have "real_of_int n \<le> (real T)\<^sup>2" using assms(2) by (metis of_int_le_iff of_int_of_nat_eq of_nat_power)
  then have "sqrt (real_of_int n) \<le> real T" by (simp add: real_le_lsqrt)
  then show ?thesis unfolding Math_sqrt_def by (rule to_double_le_nat [OF pos _ assms(3)])
qed

lemma Math_sqrt_gt_nat:
  assumes "int (T\<^sup>2) < n" "T \<le> 2 ^ 20"
  shows "real T < Math_sqrt (real_of_int n)"
proof -
  define x where "x = sqrt (real_of_int n)"
  have n: "(real T)\<^sup>2 + 1 \<le> real_of_int n"
  proof -
    have "int (T\<^sup>2) + 1 \<le> n" using assms(1) by simp
    then have "real_of_int (int (T\<^sup>2) + 1) \<le> real_of_int n" by (simp only: of_int_le_iff)
    then show ?thesis by simp
  qed
  then have npos: "0 < real_of_int n" by (smt (verit) zero_le_power2)
  then have pos: "0 < x" by (simp add: x_def)
  have x2: "x\<^sup>2 = real_of_int n" using npos by (simp add: x_def)
  have T: "real T \<le> 2 ^ 20" using assms(2) by (metis of_nat_le_iff of_nat_numeral of_nat_power)
  then have T2: "(real T)\<^sup>2 \<le> (2 ^ 20)\<^sup>2" by (intro power_mono) simp_all
  define c :: real where "c = 1 - 1 / 2 ^ 53"
  have c: "0 < c" "1 - 1 / 2 ^ 52 \<le> c\<^sup>2" by (simp_all add: c_def power2_eq_square)
  have "(real T)\<^sup>2 < ((real T)\<^sup>2 + 1) * (1 - 1 / 2 ^ 52)"
    using T2 by (simp add: algebra_simps)
  also have "\<dots> \<le> real_of_int n * (1 - 1 / 2 ^ 52)" using n by (intro mult_right_mono) simp_all
  also have "\<dots> \<le> x\<^sup>2 * c\<^sup>2" using c(2) npos by (simp add: x2 mult_left_mono)
  also have "\<dots> = (x * c)\<^sup>2" by (simp add: power_mult_distrib)
  finally have "real T < x * c" using pos c(1) by (simp add: power2_less_imp_less)
  also have "x * c \<le> to_double x" unfolding c_def by (rule to_double_lower [OF pos])
  finally show ?thesis by (simp add: Math_sqrt_def x_def)
qed

lemma to_double_unit_binade:
  assumes "1 \<le> x" "x < 2" "of_int m - 1 / 2 < x * 2 ^ 52" "x * 2 ^ 52 < of_int m + 1 / 2"
  shows "to_double x = of_int m / 2 ^ 52"
proof -
  have "0 \<le> log 2 x" "log 2 x < 1" using assms(1,2) by (simp_all add: log_less_iff)
  then have e: "\<lfloor>log 2 x\<rfloor> = 0" by linarith
  have u: "(2 :: real) powr (- 52) = 1 / 2 ^ 52" by (simp add: powr_minus divide_simps)
  have "round_even (x * 2 ^ 52) = m" using assms(3,4) by (rule round_even_near)
  then show ?thesis using assms(1) by (simp add: to_double_def e u Let_def)
qed

lemma Math_sqrt_3: "Math_sqrt 3 = 7800463371553962 / 2 ^ 52"
proof -
  have a: "1 \<le> sqrt 3" by simp
  have b: "sqrt 3 < 2" by (simp add: real_less_lsqrt)
  have l: "(7800463371553962 - 1 / 2) / 2 ^ 52 < sqrt 3"
    by (rule real_less_rsqrt) (simp add: power2_eq_square)
  have r: "sqrt 3 < (7800463371553962 + 1 / 2) / 2 ^ 52"
    by (rule real_less_lsqrt) (simp_all add: power2_eq_square)
  have "to_double (sqrt 3) = of_int 7800463371553962 / 2 ^ 52"
    using l r by (intro to_double_unit_binade [OF a b]) (simp_all add: field_simps)
  then show ?thesis by (simp add: Math_sqrt_def)
qed

text \<open>
  The rounding can be seen at an inclusive bound: the double nearest to the root of 3 lies
  below the root, so a colour at distance \<open>sqrt 3\<close> from the swatch is matched at that
  threshold, which is the double written \<open>1.7320508075688772\<close>.
\<close>

lemma isColorMatch_rounded_root:
  "isColorMatch \<lparr>cr = 0, cg = 0, cb = 0\<rparr> \<lparr>cr = 1, cg = 1, cb = 1\<rparr> (7800463371553962 / 2 ^ 52)
   \<and> 7800463371553962 / 2 ^ 52 < sqrt 3
   \<and> isColorMatch \<lparr>cr = 0, cg = 0, cb = 0\<rparr> \<lparr>cr = 1, cg = 1, cb = 1\<rparr> 1.7320508075688772"
proof -
  have "7800463371553962 / 2 ^ 52 < sqrt 3"
    by (rule real_less_rsqrt) (simp add: power2_eq_square)
  then show ?thesis by (simp add: isColorMatch_def colorDistance_def Math_sqrt_3)
qed

lemma Math_sqrt_nonneg: "0 \<le> x \<Longrightarrow> 0 \<le> Math_sqrt x"
proof (cases "x = 0")
  case True
  then show ?thesis by (simp add: Math_sqrt_0)
next
  case False
  assume "0 \<le> x"
  with False have pos: "0 < sqrt x" by simp
  have "0 \<le> sqrt x * (1 - 1 / 2 ^ 53)" using pos by simp
  also have "\<dots> \<le> to_double (sqrt x)" by (rule to_double_lower [OF pos])
  finally show ?thesis by (simp add: Math_sqrt_def)
qed

lemma isColorMatch_nat:
  assumes "T \<le> 2 ^ 20"
  shows "isColorMatch a b (real T) \<longleftrightarrow>
           (cr a - cr b)\<^sup>2 + (cg a - cg b)\<^sup>2 + (cb a - cb b)\<^sup>2 \<le> int (T\<^sup>2)"
proof -
  define n where "n = (cr a - cr b)\<^sup>2 + (cg a - cg b)\<^sup>2 + (cb a - cb b)\<^sup>2"
  have d: "colorDistance a b = Math_sqrt (real_of_int n)"
    by (simp add: colorDistance_def Let_def n_def power2_eq_square)
  have n0: "0 \<le> n" by (simp add: n_def)
  have T: "T < 2 ^ 53" using assms by (rule le_less_trans) simp
  show ?thesis
  proof (cases "n \<le> int (T\<^sup>2)")
    case True
    then show ?thesis
      using Math_sqrt_le_nat [OF n0 True T] by (simp add: isColorMatch_def d n_def [symmetric])
  next
    case False
    then have "int (T\<^sup>2) < n" by simp
    from Math_sqrt_gt_nat [OF this assms] False show ?thesis
      by (simp add: isColorMatch_def d n_def [symmetric])
  qed
qed

lemma isColorMatch_80:
  "isColorMatch a b 80 \<longleftrightarrow> (cr a - cr b)\<^sup>2 + (cg a - cg b)\<^sup>2 + (cb a - cb b)\<^sup>2 \<le> 6400"
  using isColorMatch_nat [of 80 a b] by simp

lemma isColorMatch_1:
  "isColorMatch a b 1 \<longleftrightarrow> (cr a - cr b)\<^sup>2 + (cg a - cg b)\<^sup>2 + (cb a - cb b)\<^sup>2 \<le> 1"
  using isColorMatch_nat [of 1 a b] by simp

section \<open>The search route: what is retained\<close>

lemma processUnsplash_eq:
  "processUnsplash T t us acc =
     acc @ map (\<lambda>u. unsplashResult u (the (buildDominantColorsFromUnsplash u)))
             (filter (\<lambda>u. hasMatch T t (the (buildDominantColorsFromUnsplash u))) us)"
  unfolding processUnsplash_def
  by (induction us arbitrary: acc) (simp_all add: buildDominantColorsFromUnsplash_def)

lemma processPexels_eq:
  "processPexels T t ps acc =
     acc @ map (\<lambda>p. pexelsResult p (the (buildDominantColorsFromPexels p)))
             (filter (\<lambda>p. hasMatch T t (the (buildDominantColorsFromPexels p))) ps)"
  unfolding processPexels_def
  by (induction ps arbitrary: acc) (simp_all add: buildDominantColorsFromPexels_def)

lemma processPixabay_eq: "processPixabay T t pbs acc = acc"
  unfolding processPixabay_def
  by (induction pbs arbitrary: acc) (simp_all add: buildDominantColorsFromPixabay_def)

lemma set_insertByDist: "set (insertByDist a bs) = insert a (set bs)"
  by (induction bs) auto

lemma set_sortByDist: "set (sortByDist xs) = set xs"
  unfolding sortByDist_def by (induction xs) (simp_all add: set_insertByDist)

lemma set_images_buildResponse: "set (images (buildResponse T pg ms)) = set ms"
  by (simp add: buildResponse_def Let_def set_sortByDist image_image)

lemma POST_success:
  assumes "POST env body = (Inr resp, calls)"
  shows "parseHexColors (hexColors body) \<noteq> [] \<and>
         (\<exists>us ps pbs.
            fetchAll env (parseHexColors (hexColors body) ! 0) (pageOf body)
              = (calls, Some us, Some ps, Some pbs) \<and>
            resp = buildResponse (map hexToRgb (parseHexColors (hexColors body))) (pageOf body)
                     (processPixabay (map hexToRgb (parseHexColors (hexColors body))) (thresholdOf body) pbs
                        (processPexels (map hexToRgb (parseHexColors (hexColors body))) (thresholdOf body) ps
                           (processUnsplash (map hexToRgb (parseHexColors (hexColors body))) (thresholdOf body) us []))))"
  using assms unfolding POST_def Let_def
  by (auto split: if_splits prod.splits option.splits)

lemma hasMatch_iff:
  "hasMatch (map hexToRgb S) t pal \<longleftrightarrow> withinThreshold S t pal"
  by (auto simp: hasMatch_def withinThreshold_def list_ex_iff isColorMatch_def Let_def)

lemma matched_set:
  "set (processPixabay T t pbs (processPexels T t ps (processUnsplash T t us []))) =
     {unsplashResult u (the (buildDominantColorsFromUnsplash u)) | u.
        u \<in> set us \<and> hasMatch T t (the (buildDominantColorsFromUnsplash u))}
     \<union> {pexelsResult p (the (buildDominantColorsFromPexels p)) | p.
        p \<in> set ps \<and> hasMatch T t (the (buildDominantColorsFromPexels p))}"
  by (auto simp: processPixabay_eq processPexels_eq processUnsplash_eq)

lemma retained_at_thresholdOf:
  assumes ok: "POST env body = (Inr resp, calls)"
    and fetched: "fetchAll env (parseHexColors (hexColors body) ! 0) (pageOf body)
                    = (calls, Some us, Some ps, Some pbs)"
  shows "(\<forall>u \<in> set us. \<forall>pal. buildDominantColorsFromUnsplash u = Some pal \<longrightarrow>
            (unsplashResult u pal \<in> set (images resp) \<longleftrightarrow>
             withinThreshold (parseHexColors (hexColors body)) (thresholdOf body) pal))
       \<and> (\<forall>p \<in> set ps. \<forall>pal. buildDominantColorsFromPexels p = Some pal \<longrightarrow>
            (pexelsResult p pal \<in> set (images resp) \<longleftrightarrow>
             withinThreshold (parseHexColors (hexColors body)) (thresholdOf body) pal))
       \<and> (\<forall>r \<in> set (images resp).
            withinThreshold (parseHexColors (hexColors body)) (thresholdOf body) (r_dominantColors r))"
proof -
  let ?S = "parseHexColors (hexColors body)"
  let ?T = "map hexToRgb ?S"
  let ?t = "thresholdOf body"
  from POST_success [OF ok] fetched
  have r: "resp = buildResponse ?T (pageOf body)
                    (processPixabay ?T ?t pbs (processPexels ?T ?t ps (processUnsplash ?T ?t us [])))"
    by auto
  have imgs: "set (images resp) =
     {unsplashResult u (the (buildDominantColorsFromUnsplash u)) | u.
        u \<in> set us \<and> hasMatch ?T ?t (the (buildDominantColorsFromUnsplash u))}
     \<union> {pexelsResult p (the (buildDominantColorsFromPexels p)) | p.
        p \<in> set ps \<and> hasMatch ?T ?t (the (buildDominantColorsFromPexels p))}"
    unfolding r set_images_buildResponse matched_set ..
  have a: "\<forall>u \<in> set us. \<forall>pal. buildDominantColorsFromUnsplash u = Some pal \<longrightarrow>
            (unsplashResult u pal \<in> set (images resp) \<longleftrightarrow> withinThreshold ?S ?t pal)"
  proof (intro ballI allI impI)
    fix u pal assume u: "u \<in> set us" and b: "buildDominantColorsFromUnsplash u = Some pal"
    show "unsplashResult u pal \<in> set (images resp) \<longleftrightarrow> withinThreshold ?S ?t pal"
    proof
      assume "unsplashResult u pal \<in> set (images resp)"
      then consider u' where "u' \<in> set us" "hasMatch ?T ?t (the (buildDominantColorsFromUnsplash u'))"
          "unsplashResult u pal = unsplashResult u' (the (buildDominantColorsFromUnsplash u'))"
        | p where "unsplashResult u pal = pexelsResult p (the (buildDominantColorsFromPexels p))"
        unfolding imgs by blast
      then show "withinThreshold ?S ?t pal"
      proof cases
        case 1
        from 1(3) have "pal = the (buildDominantColorsFromUnsplash u')"
          by (simp add: unsplashResult_def)
        with 1(2) show ?thesis by (simp add: hasMatch_iff)
      next
        case 2
        then have "r_source (unsplashResult u pal) = r_source (pexelsResult p (the (buildDominantColorsFromPexels p)))"
          by simp
        then show ?thesis by (simp add: unsplashResult_def pexelsResult_def)
      qed
    next
      assume "withinThreshold ?S ?t pal"
      with u b have "u \<in> set us \<and> hasMatch ?T ?t (the (buildDominantColorsFromUnsplash u))
          \<and> unsplashResult u pal = unsplashResult u (the (buildDominantColorsFromUnsplash u))"
        by (simp add: hasMatch_iff)
      then show "unsplashResult u pal \<in> set (images resp)"
        unfolding imgs by blast
    qed
  qed
  have b: "\<forall>p \<in> set ps. \<forall>pal. buildDominantColorsFromPexels p = Some pal \<longrightarrow>
            (pexelsResult p pal \<in> set (images resp) \<longleftrightarrow> withinThreshold ?S ?t pal)"
  proof (intro ballI allI impI)
    fix p pal assume p: "p \<in> set ps" and b: "buildDominantColorsFromPexels p = Some pal"
    show "pexelsResult p pal \<in> set (images resp) \<longleftrightarrow> withinThreshold ?S ?t pal"
    proof
      assume "pexelsResult p pal \<in> set (images resp)"
      then consider p' where "p' \<in> set ps" "hasMatch ?T ?t (the (buildDominantColorsFromPexels p'))"
          "pexelsResult p pal = pexelsResult p' (the (buildDominantColorsFromPexels p'))"
        | u where "pexelsResult p pal = unsplashResult u (the (buildDominantColorsFromUnsplash u))"
        unfolding imgs by blast
      then show "withinThreshold ?S ?t pal"
      proof cases
        case 1
        from 1(3) have "pal = the (buildDominantColorsFromPexels p')"
          by (simp add: pexelsResult_def)
        with 1(2) show ?thesis by (simp add: hasMatch_iff)
      next
        case 2
        then have "r_source (pexelsResult p pal) = r_source (unsplashResult u (the (buildDominantColorsFromUnsplash u)))"
          by simp
        then show ?thesis by (simp add: unsplashResult_def pexelsResult_def)
      qed
    next
      assume "withinThreshold ?S ?t pal"
      with p b have "p \<in> set ps \<and> hasMatch ?T ?t (the (buildDominantColorsFromPexels p))
          \<and> pexelsResult p pal = pexelsResult p (the (buildDominantColorsFromPexels p))"
        by (simp add: hasMatch_iff)
      then show "pexelsResult p pal \<in> set (images resp)"
        unfolding imgs by blast
    qed
  qed
  have c: "\<forall>r \<in> set (images resp). withinThreshold ?S ?t (r_dominantColors r)"
    unfolding imgs by (auto simp: hasMatch_iff unsplashResult_def pexelsResult_def)
  from a b c show ?thesis by blast
qed

text \<open>
  Claim C4. For a request with swatch set \<open>S\<close> that is answered with a response, let
  \<open>t\<close> be the threshold the request carries, or 80 when it carries none. An Unsplash or
  Pexels image of the fetched lists is among the returned images if and only if one of
  the nine colours of its derived palette lies within Euclidean RGB distance \<open>t\<close>
  (inclusive) of one of the swatches; and every returned image has such a palette colour.
  The distance is the one \<open>colorDistance\<close> computes, the root rounded to a double.
\<close>

theorem retained_iff_within_threshold:
  assumes ok: "POST env body = (Inr resp, calls)"
    and fetched: "fetchAll env (parseHexColors (hexColors body) ! 0) (pageOf body)
                    = (calls, Some us, Some ps, Some pbs)"
    and thr: "threshold body = Some t \<or> (threshold body = None \<and> t = 80)"
  shows "(\<forall>u \<in> set us. \<forall>pal. buildDominantColorsFromUnsplash u = Some pal \<longrightarrow>
            (unsplashResult u pal \<in> set (images resp) \<longleftrightarrow>
             withinThreshold (parseHexColors (hexColors body)) t pal))
       \<and> (\<forall>p \<in> set ps. \<forall>pal. buildDominantColorsFromPexels p = Some pal \<longrightarrow>
            (pexelsResult p pal \<in> set (images resp) \<longleftrightarrow>
             withinThreshold (parseHexColors (hexColors body)) t pal))
       \<and> (\<forall>r \<in> set (images resp).
            withinThreshold (parseHexColors (hexColors body)) t (r_dominantColors r))"
proof -
  from thr have "thresholdOf body = t" by (auto simp: thresholdOf_def)
  with retained_at_thresholdOf [OF ok fetched] show ?thesis by simp
qed

section \<open>The search route: score and order\<close>

lemma num_min_Num: "num_min (num_min acc (Num a)) (Num b) = num_min acc (Num (min a b))"
  by (cases acc) (simp_all add: min.assoc)

lemma foldl_num_min:
  "T \<noteq> [] \<Longrightarrow>
   foldl (\<lambda>mn t. num_min mn (Num (f t))) acc T = num_min acc (Num (Min (f ` set T)))"
proof (induction T arbitrary: acc)
  case Nil
  then show ?case by simp
next
  case (Cons t T)
  show ?case
  proof (cases "T = []")
    case True
    then show ?thesis by simp
  next
    case False
    then have "foldl (\<lambda>mn t. num_min mn (Num (f t))) (num_min acc (Num (f t))) T
                 = num_min (num_min acc (Num (f t))) (Num (Min (f ` set T)))"
      by (rule Cons.IH)
    also have "\<dots> = num_min acc (Num (min (f t) (Min (f ` set T))))"
      by (rule num_min_Num)
    also have "min (f t) (Min (f ` set T)) = Min (f ` set (t # T))"
      using False by simp
    finally show ?thesis by simp
  qed
qed

lemma imageDist_primaryScore:
  assumes "S \<noteq> []"
  shows "imageDist (map hexToRgb S) img = Num (primaryScore S img)"
proof -
  have "imageDist (map hexToRgb S) img =
          foldl (\<lambda>mn t. num_min mn (Num (colorDistance t (hexToRgb (r_color img))))) Infinity (map hexToRgb S)"
    by (simp add: imageDist_def colorDistance_def Let_def power2_eq_square)
  also have "\<dots> = num_min Infinity
        (Num (Min ((\<lambda>t. colorDistance t (hexToRgb (r_color img))) ` set (map hexToRgb S))))"
    using assms by (intro foldl_num_min) simp
  finally show ?thesis by (simp add: primaryScore_def image_image)
qed

lemma dist_le_total: "dist_le a b \<or> dist_le b a"
  by (cases a; cases b) auto

lemma dist_le_trans: "dist_le a b \<Longrightarrow> dist_le b c \<Longrightarrow> dist_le a c"
  by (cases a; cases b; cases c) auto

lemma sorted_insertByDist:
  "sorted_wrt (\<lambda>a b. dist_le (snd a) (snd b)) bs \<Longrightarrow>
   sorted_wrt (\<lambda>a b. dist_le (snd a) (snd b)) (insertByDist a bs)"
proof (induction bs)
  case Nil
  then show ?case by simp
next
  case (Cons b bs)
  show ?case
  proof (cases "dist_le (snd a) (snd b)")
    case True
    with Cons.prems show ?thesis by (auto intro: dist_le_trans)
  next
    case False
    then have ba: "dist_le (snd b) (snd a)" using dist_le_total by blast
    from Cons have "sorted_wrt (\<lambda>a b. dist_le (snd a) (snd b)) (insertByDist a bs)" by simp
    with False ba Cons.prems show ?thesis by (auto simp: set_insertByDist)
  qed
qed

lemma sorted_sortByDist: "sorted_wrt (\<lambda>a b. dist_le (snd a) (snd b)) (sortByDist xs)"
  unfolding sortByDist_def by (induction xs) (simp_all add: sorted_insertByDist)

lemma sorted_images_buildResponse:
  assumes "S \<noteq> []"
  shows "sorted (map (primaryScore S) (images (buildResponse (map hexToRgb S) pg ms)))"
proof -
  let ?xs = "sortByDist (map (\<lambda>img. (img, imageDist (map hexToRgb S) img)) ms)"
  have key: "\<forall>x \<in> set ?xs. snd x = Num (primaryScore S (fst x))"
    using assms by (auto simp: set_sortByDist imageDist_primaryScore)
  have "sorted_wrt (\<lambda>a b. dist_le (snd a) (snd b)) ?xs" by (rule sorted_sortByDist)
  then have "sorted_wrt (\<lambda>a b. primaryScore S (fst a) \<le> primaryScore S (fst b)) ?xs"
    by (rule sorted_wrt_mono_rel [rotated]) (use key in auto)
  then have "sorted (map (primaryScore S) (map fst ?xs))"
    by (simp add: sorted_map sorted_wrt_map)
  then show ?thesis by (simp add: buildResponse_def Let_def)
qed

text \<open>
  Claim C1, as amended. In every response the returned list is sorted ascending by the
  score the route computes, and that score is the least Euclidean RGB distance between
  the image's own colour (its \<open>color\<close> field) and the requested swatches; the other
  eight palette colours play no part in it.
\<close>

theorem sorted_by_primary_score:
  assumes "POST env body = (Inr resp, calls)"
  shows "sorted (map (primaryScore (parseHexColors (hexColors body))) (images resp))
         \<and> (\<forall>img \<in> set (images resp).
               imageDist (map hexToRgb (parseHexColors (hexColors body))) img
                 = Num (primaryScore (parseHexColors (hexColors body)) img))"
proof -
  from POST_success [OF assms] obtain ms where
    ne: "parseHexColors (hexColors body) \<noteq> []" and
    r: "resp = buildResponse (map hexToRgb (parseHexColors (hexColors body))) (pageOf body) ms"
    by blast
  show ?thesis
    using ne by (simp add: r sorted_images_buildResponse imageDist_primaryScore)
qed

text \<open>
  Claim C3, as amended. Every returned image comes from Unsplash or Pexels and carries
  the palette derived from its provider colour, or from \<open>#000000\<close> when that colour is
  empty; no image is returned without a palette.
\<close>

theorem included_images_have_palette:
  assumes "POST env body = (Inr resp, calls)"
  shows "\<forall>r \<in> set (images resp).
           (r_source r = Unsplash \<or> r_source r = Pexels) \<and>
           r_dominantColors r =
             buildDerivedPalette (if r_color r \<noteq> [] then r_color r else ''#000000'')"
proof -
  from POST_success [OF assms] obtain us ps pbs where
    r: "resp = buildResponse (map hexToRgb (parseHexColors (hexColors body))) (pageOf body)
                     (processPixabay (map hexToRgb (parseHexColors (hexColors body))) (thresholdOf body) pbs
                        (processPexels (map hexToRgb (parseHexColors (hexColors body))) (thresholdOf body) ps
                           (processUnsplash (map hexToRgb (parseHexColors (hexColors body))) (thresholdOf body) us [])))"
    by blast
  show ?thesis
    unfolding r set_images_buildResponse matched_set
    by (auto simp: unsplashResult_def pexelsResult_def
        buildDominantColorsFromUnsplash_def buildDominantColorsFromPexels_def)
qed

section \<open>Evaluation on the sample data\<close>

lemma toString16_numeral [simp]:
  "toString16 (numeral k) =
     (if (numeral k :: nat) < 16 then [hexDigitChar (numeral k)]
      else toString16 (numeral k div 16) @ [hexDigitChar (numeral k mod 16)])"
  by (rule toString16.simps)

lemma toString16_0 [simp]: "toString16 0 = ''0''"
  by (simp add: toString16.simps hexDigitChar_def)

lemma toString16_1 [simp]: "toString16 (Suc 0) = ''1''"
  by (simp add: toString16.simps hexDigitChar_def)

lemma toString10_numeral [simp]:
  "toString10 (numeral k) =
     (if (numeral k :: nat) < 10 then [''0123456789'' ! numeral k]
      else toString10 (numeral k div 10) @ [''0123456789'' ! (numeral k mod 10)])"
  by (rule toString10.simps)

lemmas hex_eval = isHexDigit_def parseIntHex_def hexDigitVal_def hexDigitChar_def
lemmas tc_eval = tinycolor_def trim_def isSpace_def toLowerChar_def mk_tc_def tc_channel_def
  js_round_def toRgb_def hexToRgb_def
lemmas palette_eval = buildDerivedPalette_def getComplementaryColor_def getAnalogousColors_def
  adjustSaturation_def adjustBrightness_def hexToRgb_api_def rgbToHex_def js_round_def Let_def
lemmas parse_eval = parseHexColors_def normalizeHex_def hexRun_def List.map_filter_simps trim_def
  isSpace_def
lemmas name_eval = getColorName_def getUnsplashColorParam_def toHsl_def rgbToHsl_def bound01_def
  tinycolor_def trim_def isSpace_def toLowerChar_def mk_tc_def tc_channel_def Let_def

lemma parse_828282: "parseHexColors ''#828282'' = [''#828282'']"
  by (simp add: parse_eval hex_eval)

lemma rgb_828282: "hexToRgb ''#828282'' = \<lparr>cr = 130, cg = 130, cb = 130\<rparr>"
  by (simp add: tc_eval hex_eval)

lemma name_828282:
  "getColorName ''#828282'' = ''gray''"
  by (simp add: name_eval hex_eval)

lemma fetch_828282:
  "fetchAll (demoProviders u p b) ''#828282'' 1 =
     ([Call_searchUnsplash ''gray nature abstract'' 1 20 None,
       Call_searchPexels ''gray color'' 1 20,
       Call_searchPixabay ''gray'' 1 30],
      (case u of Http_error \<Rightarrow> Some [] | Http_ok results \<Rightarrow> results),
      (case p of Http_error \<Rightarrow> Some [] | Http_ok photos \<Rightarrow> photos),
      (case b of Http_error \<Rightarrow> Some [] | Http_ok hits \<Rightarrow> (case hits of None \<Rightarrow> Some [] | Some hs \<Rightarrow> Some hs)))"
  by (simp add: fetchAll_def name_828282 getUnsplashColorParam_def Let_def searchUnsplash_def
      searchPexels_def searchPixabay_def demoProviders_def)

lemma palette_646464: "buildDerivedPalette ''#646464'' =
  \<lparr>vibrant = ''#646464'', darkVibrant = ''#464646'', lightVibrant = ''#828282'',
   muted = ''#646464'', darkMuted = ''#464646'', lightMuted = ''#828282'',
   complementary = ''#9b9b9b'', analogous1 = ''#737373'', analogous2 = ''#555555''\<rparr>"
  by (simp add: palette_eval hex_eval)

lemma palette_808080: "buildDerivedPalette ''#808080'' =
  \<lparr>vibrant = ''#808080'', darkVibrant = ''#5a5a5a'', lightVibrant = ''#a6a6a6'',
   muted = ''#808080'', darkMuted = ''#5a5a5a'', lightMuted = ''#a6a6a6'',
   complementary = ''#7f7f7f'', analogous1 = ''#939393'', analogous2 = ''#6d6d6d''\<rparr>"
  by (simp add: palette_eval hex_eval)

lemma palette_ffffff: "buildDerivedPalette ''#ffffff'' =
  \<lparr>vibrant = ''#ffffff'', darkVibrant = ''#b3b3b3'', lightVibrant = ''#ffffff'',
   muted = ''#ffffff'', darkMuted = ''#b3b3b3'', lightMuted = ''#ffffff'',
   complementary = ''#000000'', analogous1 = ''#ffffff'', analogous2 = ''#d9d9d9''\<rparr>"
  by (simp add: palette_eval hex_eval)

lemma palette_828282: "buildDerivedPalette ''#828282'' =
  \<lparr>vibrant = ''#828282'', darkVibrant = ''#5b5b5b'', lightVibrant = ''#a9a9a9'',
   muted = ''#828282'', darkMuted = ''#5b5b5b'', lightMuted = ''#a9a9a9'',
   complementary = ''#7d7d7d'', analogous1 = ''#969696'', analogous2 = ''#6f6f6f''\<rparr>"
  by (simp add: palette_eval hex_eval)


lemma hasMatch_646464:
  "hasMatch [\<lparr>cr = 130, cg = 130, cb = 130\<rparr>] 80 (buildDerivedPalette ''#646464'')"
  by (simp add: palette_646464 hasMatch_def paletteValues_def isColorMatch_80 tc_eval hex_eval)

lemma hasMatch_808080:
  "hasMatch [\<lparr>cr = 130, cg = 130, cb = 130\<rparr>] 80 (buildDerivedPalette ''#808080'')"
  by (simp add: palette_808080 hasMatch_def paletteValues_def isColorMatch_80 tc_eval hex_eval)

lemma hasMatch_ffffff:
  "\<not> hasMatch [\<lparr>cr = 130, cg = 130, cb = 130\<rparr>] 80 (buildDerivedPalette ''#ffffff'')"
  by (simp add: palette_ffffff hasMatch_def paletteValues_def isColorMatch_80 tc_eval hex_eval)

lemma hasMatch_828282:
  "hasMatch [\<lparr>cr = 130, cg = 130, cb = 130\<rparr>] 80 (buildDerivedPalette ''#828282'')"
  by (simp add: palette_828282 hasMatch_def paletteValues_def isColorMatch_80 tc_eval hex_eval)

lemma matched_demo:
  "processPixabay [\<lparr>cr = 130, cg = 130, cb = 130\<rparr>] 80 [demoPixabay 9]
     (processPexels [\<lparr>cr = 130, cg = 130, cb = 130\<rparr>] 80 [demoPexels 7 ''#828282'']
        (processUnsplash [\<lparr>cr = 130, cg = 130, cb = 130\<rparr>] 80
           [demoUnsplash ''A'' ''#646464'', demoUnsplash ''B'' ''#808080'', demoUnsplash ''W'' ''#ffffff''] []))
   = [unsplashResult (demoUnsplash ''A'' ''#646464'') (buildDerivedPalette ''#646464''),
      unsplashResult (demoUnsplash ''B'' ''#808080'') (buildDerivedPalette ''#808080''),
      pexelsResult (demoPexels 7 ''#828282'') (buildDerivedPalette ''#828282'')]"
  by (simp add: processPixabay_eq processPexels_eq processUnsplash_eq
      buildDominantColorsFromUnsplash_def buildDominantColorsFromPexels_def
      demoUnsplash_def demoPexels_def
      hasMatch_646464 hasMatch_808080 hasMatch_ffffff hasMatch_828282)

lemma dist_A: "imageDist [\<lparr>cr = 130, cg = 130, cb = 130\<rparr>]
     (unsplashResult (demoUnsplash ''A'' ''#646464'') pal) = Num (Math_sqrt 2700)"
  by (simp add: imageDist_def unsplashResult_def demoUnsplash_def tc_eval hex_eval)

lemma dist_B: "imageDist [\<lparr>cr = 130, cg = 130, cb = 130\<rparr>]
     (unsplashResult (demoUnsplash ''B'' ''#808080'') pal) = Num (Math_sqrt 12)"
  by (simp add: imageDist_def unsplashResult_def demoUnsplash_def tc_eval hex_eval)

lemma dist_P: "imageDist [\<lparr>cr = 130, cg = 130, cb = 130\<rparr>]
     (pexelsResult (demoPexels 7 ''#828282'') pal) = Num 0"
  by (simp add: imageDist_def pexelsResult_def demoPexels_def tc_eval hex_eval Math_sqrt_0)

lemma roots_demo:
  "\<not> Math_sqrt 12 \<le> 0" "\<not> Math_sqrt 2700 \<le> 0" "\<not> Math_sqrt 2700 \<le> Math_sqrt 12"
  "0 < Math_sqrt 12" "Math_sqrt 12 \<le> Math_sqrt 2700"
proof -
  have a: "3 < Math_sqrt 12" using Math_sqrt_gt_nat [of 3 12] by simp
  have b: "Math_sqrt 12 \<le> 4" using Math_sqrt_le_nat [of 12 4] by simp
  have c: "51 < Math_sqrt 2700" using Math_sqrt_gt_nat [of 51 2700] by simp
  from a show "\<not> Math_sqrt 12 \<le> 0" "0 < Math_sqrt 12" by simp_all
  from c show "\<not> Math_sqrt 2700 \<le> 0" by simp
  from b c show "\<not> Math_sqrt 2700 \<le> Math_sqrt 12" "Math_sqrt 12 \<le> Math_sqrt 2700" by simp_all
qed

lemma source_unsplashResult [simp]: "r_source (unsplashResult u d) = Unsplash"
  by (simp add: unsplashResult_def)

lemma source_pexelsResult [simp]: "r_source (pexelsResult p d) = Pexels"
  by (simp add: pexelsResult_def)

lemma POST_demo: "POST demoEnv (demoBody ''#828282'') = (Inr demoResponse, demoCalls)"
  by (simp add: POST_def demoEnv_def demoResponse_def demoCalls_def demoBody_def parse_828282
      pageOf_def thresholdOf_def fetch_828282 rgb_828282 matched_demo buildResponse_def
      sortByDist_def dist_A dist_B dist_P roots_demo Let_def)

lemma fetch_demo:
  "fetchAll demoEnv (parseHexColors (hexColors (demoBody ''#828282'')) ! 0) (pageOf (demoBody ''#828282''))
     = (demoCalls,
        Some [demoUnsplash ''A'' ''#646464'', demoUnsplash ''B'' ''#808080'', demoUnsplash ''W'' ''#ffffff''],
        Some [demoPexels 7 ''#828282''], Some [demoPixabay 9])"
  by (simp add: demoBody_def parse_828282 pageOf_def demoEnv_def fetch_828282 demoCalls_def)

lemma withinThreshold_demo:
  "withinThreshold [''#828282''] 80 pal \<longleftrightarrow> hasMatch [\<lparr>cr = 130, cg = 130, cb = 130\<rparr>] 80 pal"
  using hasMatch_iff [of "[''#828282'']" 80 pal] by (simp add: rgb_828282)

lemma build_demoUnsplash:
  "buildDominantColorsFromUnsplash (demoUnsplash i c)
     = Some (buildDerivedPalette (if c \<noteq> [] then c else ''#000000''))"
  by (simp add: buildDominantColorsFromUnsplash_def demoUnsplash_def)

lemma hasMatch_near_646464:
  "hasMatch [\<lparr>cr = 130, cg = 130, cb = 130\<rparr>] 1 (buildDerivedPalette ''#646464'')"
  by (simp add: palette_646464 hasMatch_def paletteValues_def isColorMatch_1 tc_eval hex_eval)

lemma hasMatch_near_808080:
  "\<not> hasMatch [\<lparr>cr = 130, cg = 130, cb = 130\<rparr>] 1 (buildDerivedPalette ''#808080'')"
  by (simp add: palette_808080 hasMatch_def paletteValues_def isColorMatch_1 tc_eval hex_eval)

lemma hasMatch_near_ffffff:
  "\<not> hasMatch [\<lparr>cr = 130, cg = 130, cb = 130\<rparr>] 1 (buildDerivedPalette ''#ffffff'')"
  by (simp add: palette_ffffff hasMatch_def paletteValues_def isColorMatch_1 tc_eval hex_eval)

lemma hasMatch_near_828282:
  "hasMatch [\<lparr>cr = 130, cg = 130, cb = 130\<rparr>] 1 (buildDerivedPalette ''#828282'')"
  by (simp add: palette_828282 hasMatch_def paletteValues_def isColorMatch_1 tc_eval hex_eval)

lemma own_colour_646464:
  "\<not> isColorMatch (hexToRgb ''#828282'') (hexToRgb ''#646464'') 1"
  by (simp add: isColorMatch_1 tc_eval hex_eval)

lemma matched_near:
  "processPixabay [\<lparr>cr = 130, cg = 130, cb = 130\<rparr>] 1 [demoPixabay 9]
     (processPexels [\<lparr>cr = 130, cg = 130, cb = 130\<rparr>] 1 [demoPexels 7 ''#828282'']
        (processUnsplash [\<lparr>cr = 130, cg = 130, cb = 130\<rparr>] 1
           [demoUnsplash ''A'' ''#646464'', demoUnsplash ''B'' ''#808080'', demoUnsplash ''W'' ''#ffffff''] []))
   = [unsplashResult (demoUnsplash ''A'' ''#646464'') (buildDerivedPalette ''#646464''),
      pexelsResult (demoPexels 7 ''#828282'') (buildDerivedPalette ''#828282'')]"
  by (simp add: processPixabay_eq processPexels_eq processUnsplash_eq
      buildDominantColorsFromUnsplash_def buildDominantColorsFromPexels_def
      demoUnsplash_def demoPexels_def
      hasMatch_near_646464 hasMatch_near_808080 hasMatch_near_ffffff hasMatch_near_828282)

lemma POST_near: "POST demoEnv (demoBodyAt ''#828282'' 1) = (Inr nearResponse, demoCalls)"
  by (simp add: POST_def demoEnv_def nearResponse_def demoCalls_def demoBodyAt_def parse_828282
      pageOf_def thresholdOf_def fetch_828282 rgb_828282 matched_near buildResponse_def
      sortByDist_def dist_A dist_P roots_demo Let_def)

lemma fetch_near:
  "fetchAll demoEnv (parseHexColors (hexColors (demoBodyAt ''#828282'' 1)) ! 0)
       (pageOf (demoBodyAt ''#828282'' 1))
     = (demoCalls,
        Some [demoUnsplash ''A'' ''#646464'', demoUnsplash ''B'' ''#808080'', demoUnsplash ''W'' ''#ffffff''],
        Some [demoPexels 7 ''#828282''], Some [demoPixabay 9])"
  by (simp add: demoBodyAt_def parse_828282 pageOf_def demoEnv_def fetch_828282 demoCalls_def)

lemma withinThreshold_near:
  "withinThreshold [''#828282''] 1 pal \<longleftrightarrow> hasMatch [\<lparr>cr = 130, cg = 130, cb = 130\<rparr>] 1 pal"
  using hasMatch_iff [of "[''#828282'']" 1 pal] by (simp add: rgb_828282)

theorem retained_iff_within_threshold_witness:
  "POST demoEnv (demoBodyAt ''#828282'' 1) = (Inr nearResponse, demoCalls)
   \<and> threshold (demoBodyAt ''#828282'' 1) = Some 1
   \<and> unsplashResult (demoUnsplash ''A'' ''#646464'') (buildDerivedPalette ''#646464'')
        \<in> set (images nearResponse)
   \<and> withinThreshold [''#828282''] 1 (buildDerivedPalette ''#646464'')
   \<and> \<not> isColorMatch (hexToRgb ''#828282'') (hexToRgb ''#646464'') 1
   \<and> unsplashResult (demoUnsplash ''B'' ''#808080'') (buildDerivedPalette ''#808080'')
        \<notin> set (images nearResponse)
   \<and> \<not> withinThreshold [''#828282''] 1 (buildDerivedPalette ''#808080'')
   \<and> POST demoEnv (demoBody ''#828282'') = (Inr demoResponse, demoCalls)
   \<and> threshold (demoBody ''#828282'') = None
   \<and> unsplashResult (demoUnsplash ''B'' ''#808080'') (buildDerivedPalette ''#808080'')
        \<in> set (images demoResponse)
   \<and> withinThreshold [''#828282''] 80 (buildDerivedPalette ''#808080'')
   \<and> unsplashResult (demoUnsplash ''W'' ''#ffffff'') (buildDerivedPalette ''#ffffff'')
        \<notin> set (images demoResponse)
   \<and> \<not> withinThreshold [''#828282''] 80 (buildDerivedPalette ''#ffffff'')"
proof -
  have S: "parseHexColors (hexColors (demoBody ''#828282'')) = [''#828282'']"
    by (simp add: demoBody_def parse_828282)
  have S1: "parseHexColors (hexColors (demoBodyAt ''#828282'' 1)) = [''#828282'']"
    by (simp add: demoBodyAt_def parse_828282)
  have t: "threshold (demoBody ''#828282'') = Some 80
           \<or> (threshold (demoBody ''#828282'') = None \<and> (80 :: real) = 80)"
    by (simp add: demoBody_def)
  have t1: "threshold (demoBodyAt ''#828282'' 1) = Some 1
            \<or> (threshold (demoBodyAt ''#828282'' 1) = None \<and> (1 :: real) = 80)"
    by (simp add: demoBodyAt_def)
  note T = retained_iff_within_threshold [OF POST_demo fetch_demo t, unfolded S,
      THEN conjunct1, rule_format]
  note T1 = retained_iff_within_threshold [OF POST_near fetch_near t1, unfolded S1,
      THEN conjunct1, rule_format]
  have A1: "unsplashResult (demoUnsplash ''A'' ''#646464'') (buildDerivedPalette ''#646464'')
             \<in> set (images nearResponse)
           \<longleftrightarrow> withinThreshold [''#828282''] 1 (buildDerivedPalette ''#646464'')"
    by (rule T1) (simp_all add: build_demoUnsplash)
  have B1: "unsplashResult (demoUnsplash ''B'' ''#808080'') (buildDerivedPalette ''#808080'')
             \<in> set (images nearResponse)
           \<longleftrightarrow> withinThreshold [''#828282''] 1 (buildDerivedPalette ''#808080'')"
    by (rule T1) (simp_all add: build_demoUnsplash)
  have B: "unsplashResult (demoUnsplash ''B'' ''#808080'') (buildDerivedPalette ''#808080'')
             \<in> set (images demoResponse)
           \<longleftrightarrow> withinThreshold [''#828282''] 80 (buildDerivedPalette ''#808080'')"
    by (rule T) (simp_all add: build_demoUnsplash)
  have W: "unsplashResult (demoUnsplash ''W'' ''#ffffff'') (buildDerivedPalette ''#ffffff'')
             \<in> set (images demoResponse)
           \<longleftrightarrow> withinThreshold [''#828282''] 80 (buildDerivedPalette ''#ffffff'')"
    by (rule T) (simp_all add: build_demoUnsplash)
  have th: "threshold (demoBodyAt ''#828282'' 1) = Some 1" "threshold (demoBody ''#828282'') = None"
    by (simp_all add: demoBodyAt_def demoBody_def)
  show ?thesis
    using A1 B1 B W
    by (simp add: POST_demo POST_near th withinThreshold_demo withinThreshold_near
        hasMatch_808080 hasMatch_ffffff hasMatch_near_646464 hasMatch_near_808080
        own_colour_646464)
qed

theorem sorted_by_primary_score_witness:
  "POST demoEnv (demoBody ''#828282'') = (Inr demoResponse, demoCalls)
   \<and> sorted (map (primaryScore [''#828282'']) (images demoResponse))
   \<and> imageDist [hexToRgb ''#828282''] (images demoResponse ! 2)
        = Num (primaryScore [''#828282''] (images demoResponse ! 2))"
proof -
  have S: "parseHexColors (hexColors (demoBody ''#828282'')) = [''#828282'']"
    by (simp add: demoBody_def parse_828282)
  have "images demoResponse ! 2 \<in> set (images demoResponse)"
    by (simp add: demoResponse_def)
  with sorted_by_primary_score [OF POST_demo] show ?thesis
    unfolding S by (simp add: POST_demo)
qed

lemma primaryScore_demo:
  "map (primaryScore [''#828282'']) (images demoResponse) = [0, Math_sqrt 12, Math_sqrt 2700]"
  using dist_A dist_B dist_P imageDist_primaryScore [of "[''#828282'']"]
  by (simp add: demoResponse_def rgb_828282)

lemma paletteScore_single:
  "paletteScore [s] img =
     Min (set (map (\<lambda>c. colorDistance (hexToRgb s) c) (map hexToRgb (paletteValues (r_dominantColors img)))))"
proof -
  have "(\<lambda>(c, s). colorDistance (hexToRgb s) (hexToRgb c)) ` (A \<times> {s})
          = (\<lambda>c. colorDistance (hexToRgb s) (hexToRgb c)) ` A" for A
    by force
  then show ?thesis by (simp add: paletteScore_def image_image)
qed

lemma rgbs_646464:
  "map hexToRgb (paletteValues (buildDerivedPalette ''#646464'')) =
     [\<lparr>cr = 100, cg = 100, cb = 100\<rparr>, \<lparr>cr = 70, cg = 70, cb = 70\<rparr>,
      \<lparr>cr = 130, cg = 130, cb = 130\<rparr>, \<lparr>cr = 100, cg = 100, cb = 100\<rparr>,
      \<lparr>cr = 70, cg = 70, cb = 70\<rparr>, \<lparr>cr = 130, cg = 130, cb = 130\<rparr>,
      \<lparr>cr = 155, cg = 155, cb = 155\<rparr>, \<lparr>cr = 115, cg = 115, cb = 115\<rparr>,
      \<lparr>cr = 85, cg = 85, cb = 85\<rparr>]"
  by (simp add: palette_646464 paletteValues_def tc_eval hex_eval)

lemma rgbs_808080:
  "map hexToRgb (paletteValues (buildDerivedPalette ''#808080'')) =
     [\<lparr>cr = 128, cg = 128, cb = 128\<rparr>, \<lparr>cr = 90, cg = 90, cb = 90\<rparr>,
      \<lparr>cr = 166, cg = 166, cb = 166\<rparr>, \<lparr>cr = 128, cg = 128, cb = 128\<rparr>,
      \<lparr>cr = 90, cg = 90, cb = 90\<rparr>, \<lparr>cr = 166, cg = 166, cb = 166\<rparr>,
      \<lparr>cr = 127, cg = 127, cb = 127\<rparr>, \<lparr>cr = 147, cg = 147, cb = 147\<rparr>,
      \<lparr>cr = 109, cg = 109, cb = 109\<rparr>]"
  by (simp add: palette_808080 paletteValues_def tc_eval hex_eval)

lemma rgbs_828282:
  "map hexToRgb (paletteValues (buildDerivedPalette ''#828282'')) =
     [\<lparr>cr = 130, cg = 130, cb = 130\<rparr>, \<lparr>cr = 91, cg = 91, cb = 91\<rparr>,
      \<lparr>cr = 169, cg = 169, cb = 169\<rparr>, \<lparr>cr = 130, cg = 130, cb = 130\<rparr>,
      \<lparr>cr = 91, cg = 91, cb = 91\<rparr>, \<lparr>cr = 169, cg = 169, cb = 169\<rparr>,
      \<lparr>cr = 125, cg = 125, cb = 125\<rparr>, \<lparr>cr = 150, cg = 150, cb = 150\<rparr>,
      \<lparr>cr = 111, cg = 111, cb = 111\<rparr>]"
  by (simp add: palette_828282 paletteValues_def tc_eval hex_eval)


lemma paletteScore_A:
  "paletteScore [''#828282''] (unsplashResult u (buildDerivedPalette ''#646464'')) = 0"
  unfolding paletteScore_single
  by (rule Min_eqI)
     (auto simp: unsplashResult_def rgbs_646464 rgb_828282 colorDistance_def Math_sqrt_0
        Math_sqrt_nonneg)

lemma paletteScore_B:
  "paletteScore [''#828282''] (unsplashResult u (buildDerivedPalette ''#808080'')) = Math_sqrt 12"
proof -
  have le: "Math_sqrt 12 \<le> 4" using Math_sqrt_le_nat [of 12 4] by simp
  have gt: "4 < Math_sqrt (real_of_int n)" if "16 < n" for n
    using Math_sqrt_gt_nat [of 4 n] that by simp
  note g = gt [of 4800, simplified] gt [of 3888, simplified] gt [of 27, simplified]
    gt [of 867, simplified] gt [of 1323, simplified]
  show ?thesis
    unfolding paletteScore_single
    by (rule Min_eqI)
       (use le g in \<open>auto simp: unsplashResult_def rgbs_808080 rgb_828282 colorDistance_def\<close>)
qed

lemma paletteScore_P:
  "paletteScore [''#828282''] (pexelsResult p (buildDerivedPalette ''#828282'')) = 0"
  unfolding paletteScore_single
  by (rule Min_eqI)
     (auto simp: pexelsResult_def rgbs_828282 rgb_828282 colorDistance_def Math_sqrt_0
        Math_sqrt_nonneg)

lemma paletteScore_demo:
  "map (paletteScore [''#828282'']) (images demoResponse) = [0, Math_sqrt 12, 0]"
  by (simp add: demoResponse_def paletteScore_A paletteScore_B paletteScore_P)

text \<open>
  Claim C1 as stated fails: on the sample request the returned order is the Pexels image,
  then B, then A, whose least palette distances are \<open>0\<close>, the root of 12, \<open>0\<close>: not
  ascending. The route ordered them by the distances of their own colours.
\<close>

theorem score_is_palette_minimum_counterexample:
  "imagesOf (POST demoEnv (demoBody ''#828282'')) = images demoResponse
   \<and> map (paletteScore [''#828282'']) (images demoResponse) = [0, Math_sqrt 12, 0]
   \<and> \<not> sorted (map (paletteScore [''#828282'']) (images demoResponse))
   \<and> map (primaryScore [''#828282'']) (images demoResponse) = [0, Math_sqrt 12, Math_sqrt 2700]"
  by (simp add: POST_demo imagesOf_def paletteScore_demo primaryScore_demo roots_demo)


section \<open>The search route: errors, Pixabay and images without a colour\<close>

text \<open>
  Claim C5. A request whose text holds no valid hex token is answered with the input
  error (status 400, no results), and no adapter is called.
\<close>

theorem no_swatch_is_input_error:
  "parseHexColors (hexColors body) = [] \<Longrightarrow>
     POST env body = (Inl (400, ''No valid HEX colors provided''), [])"
  by (simp add: POST_def)

theorem no_swatch_is_input_error_witness:
  "parseHexColors (hexColors (demoBody ''#12 #xyz'')) = []
   \<and> POST demoEnv (demoBody ''#12 #xyz'') = (Inl (400, ''No valid HEX colors provided''), [])"
proof -
  have "parseHexColors (hexColors (demoBody ''#12 #xyz'')) = []"
    by (simp add: demoBody_def parse_eval hex_eval)
  with no_swatch_is_input_error [of "demoBody ''#12 #xyz''" demoEnv] show ?thesis by simp
qed

text \<open>
  Claim C9. In every response no returned image carries the Pixabay tag and the Pixabay
  count is 0, whatever Pixabay answered.
\<close>

theorem pixabay_never_returned:
  assumes "POST env body = (Inr resp, calls)"
  shows "pixabay_count (sources resp) = 0 \<and> (\<forall>img \<in> set (images resp). r_source img \<noteq> Pixabay)"
proof -
  from POST_success [OF assms] obtain us ps pbs where
    r: "resp = buildResponse (map hexToRgb (parseHexColors (hexColors body))) (pageOf body)
                     (processPixabay (map hexToRgb (parseHexColors (hexColors body))) (thresholdOf body) pbs
                        (processPexels (map hexToRgb (parseHexColors (hexColors body))) (thresholdOf body) ps
                           (processUnsplash (map hexToRgb (parseHexColors (hexColors body))) (thresholdOf body) us [])))"
    by blast
  define ms where "ms = processPixabay (map hexToRgb (parseHexColors (hexColors body))) (thresholdOf body) pbs
                        (processPexels (map hexToRgb (parseHexColors (hexColors body))) (thresholdOf body) ps
                           (processUnsplash (map hexToRgb (parseHexColors (hexColors body))) (thresholdOf body) us []))"
  have src: "\<forall>img \<in> set ms. r_source img \<noteq> Pixabay"
    by (auto simp: ms_def processPixabay_eq processPexels_eq processUnsplash_eq)
  have "filter (\<lambda>img. r_source img = Pixabay) ms = []"
    using src by (simp add: filter_empty_conv)
  then have "pixabay_count (sources resp) = 0"
    by (simp add: r ms_def [symmetric] buildResponse_def Let_def)
  moreover have "set (images resp) = set ms"
    by (simp add: r ms_def [symmetric] set_images_buildResponse)
  ultimately show ?thesis using src by simp
qed

theorem pixabay_never_returned_witness:
  "POST demoEnv (demoBody ''#828282'') = (Inr demoResponse, demoCalls)
   \<and> pixabay_api demoEnv ''gray'' 1 30 = Http_ok (Some [demoPixabay 9])
   \<and> pixabay_count (sources demoResponse) = 0
   \<and> list_all (\<lambda>img. r_source img \<noteq> Pixabay) (images demoResponse)"
proof -
  have "pixabay_api demoEnv ''gray'' 1 30 = Http_ok (Some [demoPixabay 9])"
    by (simp add: demoEnv_def demoProviders_def)
  with pixabay_never_returned [OF POST_demo] show ?thesis
    by (simp add: POST_demo list_all_iff)
qed

lemma parse_000000: "parseHexColors ''#000000'' = [''#000000'']"
  by (simp add: parse_eval hex_eval)

lemma rgb_000000: "hexToRgb ''#000000'' = \<lparr>cr = 0, cg = 0, cb = 0\<rparr>"
  by (simp add: tc_eval hex_eval)

lemma rgb_empty: "hexToRgb [] = \<lparr>cr = 0, cg = 0, cb = 0\<rparr>"
  by (simp add: tc_eval hex_eval)

lemma name_000000: "getColorName ''#000000'' = ''black''"
  by (simp add: name_eval hex_eval js_round_def)

lemma fetch_000000:
  "fetchAll (demoProviders u p b) ''#000000'' 1 =
     ([Call_searchUnsplash ''black nature abstract'' 1 20 (Some ''black''),
       Call_searchPexels ''black color'' 1 20,
       Call_searchPixabay ''black'' 1 30],
      (case u of Http_error \<Rightarrow> Some [] | Http_ok results \<Rightarrow> results),
      (case p of Http_error \<Rightarrow> Some [] | Http_ok photos \<Rightarrow> photos),
      (case b of Http_error \<Rightarrow> Some [] | Http_ok hits \<Rightarrow> (case hits of None \<Rightarrow> Some [] | Some hs \<Rightarrow> Some hs)))"
  by (simp add: fetchAll_def name_000000 getUnsplashColorParam_def Let_def searchUnsplash_def
      searchPexels_def searchPixabay_def demoProviders_def)

lemma palette_000000: "buildDerivedPalette ''#000000'' =
  \<lparr>vibrant = ''#000000'', darkVibrant = ''#000000'', lightVibrant = ''#000000'',
   muted = ''#000000'', darkMuted = ''#000000'', lightMuted = ''#000000'',
   complementary = ''#ffffff'', analogous1 = ''#000000'', analogous2 = ''#000000''\<rparr>"
  by (simp add: palette_eval hex_eval)

lemma hasMatch_000000:
  "hasMatch [\<lparr>cr = 0, cg = 0, cb = 0\<rparr>] 80 (buildDerivedPalette ''#000000'')"
  by (simp add: palette_000000 hasMatch_def paletteValues_def isColorMatch_80 rgb_000000)

lemma dist_Z: "imageDist [\<lparr>cr = 0, cg = 0, cb = 0\<rparr>]
     (unsplashResult (demoUnsplash ''Z'' []) pal) = Num 0"
  by (simp add: imageDist_def unsplashResult_def demoUnsplash_def rgb_empty Math_sqrt_0)

lemma POST_noColor: "POST noColorEnv (demoBody ''#000000'') = (Inr noColorResponse, noColorCalls)"
  by (simp add: POST_def noColorEnv_def noColorResponse_def noColorCalls_def demoBody_def
      parse_000000 pageOf_def thresholdOf_def fetch_000000 rgb_000000 buildResponse_def
      processPixabay_eq processPexels_eq processUnsplash_eq build_demoUnsplash hasMatch_000000
      sortByDist_def dist_Z Let_def)

text \<open>
  Claim C3 as stated fails: an Unsplash image whose \<open>color\<close> is empty is returned, with
  the palette of black.
\<close>

theorem image_without_color_is_returned_counterexample:
  "us_color (demoUnsplash ''Z'' []) = []
   \<and> unsplash_api noColorEnv ''black nature abstract'' 1 20 (Some ''black'')
        = Http_ok (Some [demoUnsplash ''Z'' []])
   \<and> imagesOf (POST noColorEnv (demoBody ''#000000''))
        = [unsplashResult (demoUnsplash ''Z'' []) (buildDerivedPalette ''#000000'')]"
proof -
  have "us_color (demoUnsplash ''Z'' []) = []"
    by (simp add: demoUnsplash_def)
  moreover have "unsplash_api noColorEnv ''black nature abstract'' 1 20 (Some ''black'')
                   = Http_ok (Some [demoUnsplash ''Z'' []])"
    by (simp add: noColorEnv_def demoProviders_def)
  moreover have "imagesOf (POST noColorEnv (demoBody ''#000000''))
                   = [unsplashResult (demoUnsplash ''Z'' []) (buildDerivedPalette ''#000000'')]"
    by (simp add: POST_noColor imagesOf_def noColorResponse_def)
  ultimately show ?thesis by blast
qed

theorem included_images_have_palette_witness:
  "POST noColorEnv (demoBody ''#000000'') = (Inr noColorResponse, noColorCalls)
   \<and> r_source (hd (images noColorResponse)) = Unsplash
   \<and> r_color (hd (images noColorResponse)) = []
   \<and> r_dominantColors (hd (images noColorResponse)) = buildDerivedPalette ''#000000''"
proof -
  have "hd (images noColorResponse) \<in> set (images noColorResponse)"
    by (simp add: noColorResponse_def)
  with included_images_have_palette [OF POST_noColor]
  have "r_dominantColors (hd (images noColorResponse)) =
          buildDerivedPalette (if r_color (hd (images noColorResponse)) \<noteq> []
                               then r_color (hd (images noColorResponse)) else ''#000000'')"
    by blast
  moreover have "r_color (hd (images noColorResponse)) = []"
    by (simp add: noColorResponse_def unsplashResult_def demoUnsplash_def)
  ultimately show ?thesis
    by (simp add: POST_noColor) (simp add: noColorResponse_def)
qed

text \<open>
  Claim C6, at the failing input. Unsplash answers with a body that has no \<open>results\<close>
  field: the whole request is answered 500, although Pexels returned an image.
\<close>

theorem malformed_unsplash_body_fails_request:
  "unsplash_api malformedEnv ''gray nature abstract'' 1 20 (Some ''gray nature abstract'') = Http_ok None
   \<and> POST malformedEnv (demoBody ''#828282'') = (Inl (500, ''Internal server error''), demoCalls)"
proof -
  have "unsplash_api malformedEnv ''gray nature abstract'' 1 20 (Some ''gray nature abstract'')
          = Http_ok None"
    by (simp add: malformedEnv_def demoProviders_def)
  moreover have "POST malformedEnv (demoBody ''#828282'')
                   = (Inl (500, ''Internal server error''), demoCalls)"
    by (simp add: POST_def malformedEnv_def demoBody_def parse_828282 pageOf_def fetch_828282
        demoCalls_def)
  ultimately show ?thesis by blast
qed


section \<open>The swatch parser\<close>

lemma hex_not_hash: "isHexDigit c \<Longrightarrow> c \<noteq> CHR ''#''"
  by (auto simp: isHexDigit_def)

lemma hex_not_space: "isHexDigit c \<Longrightarrow> \<not> isSpace c"
  by (auto simp: isHexDigit_def isSpace_def)

lemma hexRun_append_prefix:
  assumes "cs \<noteq> []" "\<not> isHexDigit (last cs)"
  shows "hexRun (cs @ rest) = hexRun cs"
proof (cases "6 \<le> length cs")
  case True
  then show ?thesis by (simp add: hexRun_def)
next
  case False
  have "last cs \<in> set cs" using assms(1) by simp
  then have "takeWhile isHexDigit (cs @ take (6 - length cs) rest) = takeWhile isHexDigit cs"
    using assms(2) by (rule takeWhile_append1)
  with False show ?thesis by (simp add: hexRun_def)
qed

lemma length_hexRun_le: "length (hexRun cs) \<le> length cs"
  unfolding hexRun_def by (rule le_trans [OF length_takeWhile_le]) simp

lemma hexRun_run:
  assumes hex: "list_all isHexDigit run" and len: "length run \<le> 6"
    and post: "post = [] \<or> \<not> isHexDigit (hd post)"
  shows "hexRun (run @ post) = run"
proof -
  have "takeWhile isHexDigit (take (6 - length run) post) = []"
    using post by (cases post; cases "6 - length run") auto
  then show ?thesis
    using hex len by (simp add: hexRun_def list_all_iff takeWhile_append2)
qed

lemma hexTokens_append:
  assumes "pre = [] \<or> (\<not> isHexDigit (last pre) \<and> last pre \<noteq> CHR ''#'')"
  shows "hexTokens (pre @ rest) = hexTokens pre @ hexTokens rest"
  using assms
proof (induction pre rule: hexTokens.induct)
  case 1
  then show ?case by simp
next
  case (2 c cs)
  then have lst: "\<not> isHexDigit (last (c # cs))" "last (c # cs) \<noteq> CHR ''#''" by auto
  show ?case
  proof (cases "cs = []")
    case True
    with lst have "\<not> isHexDigit c" "c \<noteq> CHR ''#''" by auto
    with True show ?thesis by (simp add: hexRun_def)
  next
    case False
    with lst have l: "\<not> isHexDigit (last cs)" "last cs \<noteq> CHR ''#''" by auto
    have tw: "hexRun (cs @ rest) = hexRun cs"
      using False l(1) by (rule hexRun_append_prefix)
    have tw': "hexRun (c # cs @ rest) = hexRun (c # cs)"
      using hexRun_append_prefix [of "c # cs" rest] lst(1) by simp
    have suffix: "drop n cs = [] \<or> (\<not> isHexDigit (last (drop n cs)) \<and> last (drop n cs) \<noteq> CHR ''#'')" for n
      using l by (cases "n < length cs") auto
    have suffix': "drop n (c # cs) = [] \<or> (\<not> isHexDigit (last (drop n (c # cs))) \<and> last (drop n (c # cs)) \<noteq> CHR ''#'')" for n
      using lst by (cases "n < length (c # cs)") (auto simp del: last.simps drop_Suc_Cons)
    have csok: "cs = [] \<or> (\<not> isHexDigit (last cs) \<and> last cs \<noteq> CHR ''#'')" using l by simp
    show ?thesis
    proof (cases "c = CHR ''#''")
      case True
      show ?thesis
      proof (cases "3 \<le> length (hexRun cs)")
        case r: True
        have len: "length (hexRun cs) \<le> length cs" by (rule length_hexRun_le)
        have "hexTokens (drop (length (hexRun cs)) cs @ rest)
                = hexTokens (drop (length (hexRun cs)) cs) @ hexTokens rest"
          using "2.IH"(1) [OF True r suffix] .
        with True r len show ?thesis by (simp add: tw)
      next
        case r: False
        have "hexTokens (cs @ rest) = hexTokens cs @ hexTokens rest"
          using "2.IH"(2) [OF True r csok] .
        with True r show ?thesis by (simp add: tw)
      qed
    next
      case nh: False
      show ?thesis
      proof (cases "3 \<le> length (hexRun (c # cs))")
        case r: True
        have len: "length (hexRun (c # cs)) \<le> length (c # cs)" by (rule length_hexRun_le)
        have "hexTokens (drop (length (hexRun (c # cs))) (c # cs) @ rest)
                = hexTokens (drop (length (hexRun (c # cs))) (c # cs)) @ hexTokens rest"
          using "2.IH"(3) [OF nh r suffix'] .
        moreover have "drop (length (hexRun (c # cs))) (c # cs @ rest)
                         = drop (length (hexRun (c # cs))) (c # cs) @ rest"
          using len by (metis append_Cons drop_append diff_is_0_eq drop0)
        ultimately show ?thesis using nh r by (simp add: tw' del: drop_Suc_Cons)
      next
        case r: False
        have "hexTokens (cs @ rest) = hexTokens cs @ hexTokens rest"
          using "2.IH"(4) [OF nh r csok] .
        with nh r show ?thesis by (simp add: tw')
      qed
    qed
  qed
qed

lemma hexTokens_run:
  assumes hex: "list_all isHexDigit run" and len: "3 \<le> length run" "length run \<le> 6"
    and post: "post = [] \<or> \<not> isHexDigit (hd post)"
  shows "hexTokens (run @ post) = run # hexTokens post"
proof -
  from len obtain c cs where run: "run = c # cs" by (cases run) auto
  have c: "c \<noteq> CHR ''#''" using hex run by (auto dest: hex_not_hash)
  have tw: "hexRun (c # cs @ post) = c # cs"
    using hexRun_run [OF hex len(2) post] by (simp add: run)
  show ?thesis
    using c len unfolding run by (simp add: tw)
qed

lemma trim_hex: "list_all isHexDigit s \<Longrightarrow> trim s = s"
proof -
  assume a: "list_all isHexDigit s"
  then have 1: "dropWhile isSpace s = s"
    by (cases s) (auto dest: hex_not_space)
  from a have "list_all isHexDigit (rev s)" by (simp add: list_all_iff)
  then have 2: "dropWhile isSpace (rev s) = rev s"
    by (cases "rev s") (auto dest: hex_not_space)
  show ?thesis by (simp add: trim_def 1 2)
qed

lemma stripHash_hex: "list_all isHexDigit s \<Longrightarrow> stripHash s = s"
  by (cases s) (auto dest: hex_not_hash)

lemma normalizeHex_run:
  assumes "list_all isHexDigit run"
  shows "normalizeHex run =
     (if length run = 3 then Some (CHR ''#'' # concat (map (\<lambda>c. [c, c]) run))
      else if length run = 6 then Some (CHR ''#'' # run) else None)"
  using assms by (simp add: normalizeHex_def trim_hex stripHash_hex)

lemma map_filter_app: "List.map_filter f (xs @ ys) = List.map_filter f xs @ List.map_filter f ys"
  by (simp add: List.map_filter_def)

text \<open>
  Claim C10. The parser needs no \<open>#\<close>: the word \<open>facade\<close> is read as the swatch
  \<open>#facade\<close>. A run of exactly four or five hex digits (delimited in the text) is
  matched as one token, rejected by \<open>normalizeHex\<close> and dropped; a delimited run of
  three or six hex digits becomes a swatch.
\<close>

theorem bare_hex_runs_are_tokens:
  "parseHexColors ''facade'' = [''#facade'']
   \<and> (\<forall>pre run post.
        list_all isHexDigit run \<and> (length run = 4 \<or> length run = 5)
        \<and> (pre = [] \<or> (\<not> isHexDigit (last pre) \<and> last pre \<noteq> CHR ''#''))
        \<and> (post = [] \<or> \<not> isHexDigit (hd post))
        \<longrightarrow> hexTokens (pre @ run @ post) = hexTokens pre @ [run] @ hexTokens post
            \<and> normalizeHex run = None
            \<and> parseHexColors (pre @ run @ post) = parseHexColors pre @ parseHexColors post)
   \<and> (\<forall>pre run post.
        list_all isHexDigit run \<and> (length run = 3 \<or> length run = 6)
        \<and> (pre = [] \<or> (\<not> isHexDigit (last pre) \<and> last pre \<noteq> CHR ''#''))
        \<and> (post = [] \<or> \<not> isHexDigit (hd post))
        \<longrightarrow> parseHexColors (pre @ run @ post)
              = parseHexColors pre
                @ [if length run = 3 then CHR ''#'' # concat (map (\<lambda>c. [c, c]) run) else CHR ''#'' # run]
                @ parseHexColors post)"
proof (intro conjI allI impI)
  show "parseHexColors ''facade'' = [''#facade'']"
    by (simp add: parse_eval hex_eval)
next
  fix pre run post
  assume a: "list_all isHexDigit run \<and> (length run = 4 \<or> length run = 5)
        \<and> (pre = [] \<or> (\<not> isHexDigit (last pre) \<and> last pre \<noteq> CHR ''#''))
        \<and> (post = [] \<or> \<not> isHexDigit (hd post))"
  have "hexTokens (pre @ (run @ post)) = hexTokens pre @ hexTokens (run @ post)"
    using a by (intro hexTokens_append) simp
  moreover have "hexTokens (run @ post) = run # hexTokens post"
    using a by (intro hexTokens_run) auto
  ultimately have t: "hexTokens (pre @ run @ post) = hexTokens pre @ [run] @ hexTokens post"
    by simp
  from a have n: "normalizeHex run = None" by (auto simp: normalizeHex_run)
  show "hexTokens (pre @ run @ post) = hexTokens pre @ [run] @ hexTokens post" by (rule t)
  show "normalizeHex run = None" by (rule n)
  show "parseHexColors (pre @ run @ post) = parseHexColors pre @ parseHexColors post"
    by (simp add: parseHexColors_def t n map_filter_app List.map_filter_simps)
next
  fix pre run post
  assume a: "list_all isHexDigit run \<and> (length run = 3 \<or> length run = 6)
        \<and> (pre = [] \<or> (\<not> isHexDigit (last pre) \<and> last pre \<noteq> CHR ''#''))
        \<and> (post = [] \<or> \<not> isHexDigit (hd post))"
  have "hexTokens (pre @ (run @ post)) = hexTokens pre @ hexTokens (run @ post)"
    using a by (intro hexTokens_append) simp
  moreover have "hexTokens (run @ post) = run # hexTokens post"
    using a by (intro hexTokens_run) auto
  ultimately have t: "hexTokens (pre @ run @ post) = hexTokens pre @ [run] @ hexTokens post"
    by simp
  from a have n: "normalizeHex run =
      Some (if length run = 3 then CHR ''#'' # concat (map (\<lambda>c. [c, c]) run) else CHR ''#'' # run)"
    by (auto simp: normalizeHex_run)
  show "parseHexColors (pre @ run @ post)
              = parseHexColors pre
                @ [if length run = 3 then CHR ''#'' # concat (map (\<lambda>c. [c, c]) run) else CHR ''#'' # run]
                @ parseHexColors post"
    by (simp add: parseHexColors_def t n map_filter_app List.map_filter_simps del: concat.simps)
qed

theorem bare_hex_runs_are_tokens_witness:
  "parseHexColors ''facade'' = [''#facade'']
   \<and> hexTokens ''a cafe, #FF5733'' = [''cafe'', ''#FF5733'']
   \<and> normalizeHex ''cafe'' = None
   \<and> parseHexColors ''a cafe, #FF5733'' = [''#FF5733'']
   \<and> parseHexColors ''a fed, #FF5733'' = [''#ffeedd'', ''#FF5733'']"
proof -
  note T = bare_hex_runs_are_tokens
  have 1: "parseHexColors ''facade'' = [''#facade'']" using T by blast
  have h: "list_all isHexDigit ''cafe'' \<and> (length ''cafe'' = 4 \<or> length ''cafe'' = 5)
        \<and> (''a '' = [] \<or> (\<not> isHexDigit (last ''a '') \<and> last ''a '' \<noteq> CHR ''#''))
        \<and> ('', #FF5733'' = [] \<or> \<not> isHexDigit (hd '', #FF5733''))"
    by (simp add: hex_eval)
  from T have "hexTokens (''a '' @ ''cafe'' @ '', #FF5733'') = hexTokens ''a '' @ [''cafe''] @ hexTokens '', #FF5733''
            \<and> normalizeHex ''cafe'' = None
            \<and> parseHexColors (''a '' @ ''cafe'' @ '', #FF5733'') = parseHexColors ''a '' @ parseHexColors '', #FF5733''"
    using h by blast
  then have 2: "hexTokens ''a cafe, #FF5733'' = [''cafe'', ''#FF5733'']"
    "normalizeHex ''cafe'' = None" "parseHexColors ''a cafe, #FF5733'' = [''#FF5733'']"
    by (simp_all add: parse_eval hex_eval)
  have h3: "list_all isHexDigit ''fed'' \<and> (length ''fed'' = 3 \<or> length ''fed'' = 6)
        \<and> (''a '' = [] \<or> (\<not> isHexDigit (last ''a '') \<and> last ''a '' \<noteq> CHR ''#''))
        \<and> ('', #FF5733'' = [] \<or> \<not> isHexDigit (hd '', #FF5733''))"
    by (simp add: hex_eval)
  from T have "parseHexColors (''a '' @ ''fed'' @ '', #FF5733'')
              = parseHexColors ''a ''
                @ [if length ''fed'' = 3 then CHR ''#'' # concat (map (\<lambda>c. [c, c]) ''fed'') else CHR ''#'' # ''fed'']
                @ parseHexColors '', #FF5733''"
    using h3 by blast
  then have 3: "parseHexColors ''a fed, #FF5733'' = [''#ffeedd'', ''#FF5733'']"
    by (simp add: parse_eval hex_eval)
  from 1 2 3 show ?thesis by blast
qed


section \<open>The contrast correction loop\<close>

lemma loop_iterations_le:
  "snd (ensureContrast_loop bg t d x i) \<le> max i 100"
proof (induction bg t d x i rule: ensureContrast_loop.induct)
  case (1 bg t d x i)
  show ?case
  proof (cases "readability (toHexString x) bg < t \<and> i < 100")
    case True
    with 1 have "snd (ensureContrast_loop bg t d (if d then lighten x 1 else darken x 1) (i + 1))
                   \<le> max (i + 1) 100"
      by simp
    with True show ?thesis by (subst ensureContrast_loop.simps) simp
  next
    case False
    then show ?thesis by (subst ensureContrast_loop.simps) auto
  qed
qed

lemma loop_result:
  assumes "i \<le> 100"
  shows "\<exists>k. i + k \<le> 100
           \<and> ensureContrast_loop bg t d x i = ((contrastStep d ^^ k) x, i + k)
           \<and> (\<forall>j < k. readability (toHexString ((contrastStep d ^^ j) x)) bg < t)
           \<and> (i + k < 100 \<longrightarrow> \<not> readability (toHexString ((contrastStep d ^^ k) x)) bg < t)"
  using assms
proof (induction bg t d x i rule: ensureContrast_loop.induct)
  case (1 bg t d x i)
  show ?case
  proof (cases "readability (toHexString x) bg < t \<and> i < 100")
    case True
    then have "i + 1 \<le> 100" by simp
    with 1 True obtain k where k: "i + 1 + k \<le> 100"
      "ensureContrast_loop bg t d (contrastStep d x) (i + 1) = ((contrastStep d ^^ k) (contrastStep d x), i + 1 + k)"
      "\<forall>j < k. readability (toHexString ((contrastStep d ^^ j) (contrastStep d x))) bg < t"
      "i + 1 + k < 100 \<longrightarrow> \<not> readability (toHexString ((contrastStep d ^^ k) (contrastStep d x))) bg < t"
      unfolding contrastStep_def by blast
    have all: "\<forall>j < Suc k. readability (toHexString ((contrastStep d ^^ j) x)) bg < t"
    proof (intro allI impI)
      fix j assume "j < Suc k"
      show "readability (toHexString ((contrastStep d ^^ j) x)) bg < t"
      proof (cases j)
        case 0
        with True show ?thesis by simp
      next
        case (Suc j')
        with \<open>j < Suc k\<close> k(3) show ?thesis by (simp add: funpow_swap1)
      qed
    qed
    have "ensureContrast_loop bg t d x i = ((contrastStep d ^^ Suc k) x, i + Suc k)"
      using True k(2) by (subst ensureContrast_loop.simps) (simp add: funpow_swap1 contrastStep_def)
    with k(1,4) all show ?thesis
      by (intro exI [of _ "Suc k"]) (simp add: funpow_swap1)
  next
    case False
    then have "ensureContrast_loop bg t d x i = (x, i)"
      by (subst ensureContrast_loop.simps) auto
    with False 1(2) show ?thesis by (intro exI [of _ 0]) auto
  qed
qed


section \<open>Luminance and contrast\<close>

lemma tc_channel_range: "0 \<le> tc_channel x \<and> tc_channel x \<le> 255"
  by (auto simp: tc_channel_def js_round_def Let_def min_def max_def)

lemma js_round_range: "0 \<le> x \<Longrightarrow> x \<le> 255 \<Longrightarrow> 0 \<le> js_round x \<and> js_round x \<le> 255"
  unfolding js_round_def by (auto simp: floor_le_iff le_floor_iff) 

lemma linearize_range:
  assumes "0 \<le> x" "x \<le> 1"
  shows "0 \<le> linearize x \<and> linearize x \<le> 1"
proof (cases "x \<le> 0.03928")
  case True
  with assms show ?thesis by (simp add: linearize_def)
next
  case False
  have "0 \<le> (x + 0.055) / 1.055" "(x + 0.055) / 1.055 \<le> 1" using assms by simp_all
  then have "((x + 0.055) / 1.055) powr 2.4 \<le> 1" by (intro powr_le1) simp_all
  with False show ?thesis by (simp add: linearize_def)
qed

lemma inRange_mk_tc: "inRange (mk_tc r g b)"
  using tc_channel_range by (simp add: inRange_def mk_tc_def)

lemma inRange_tinycolor: "inRange (tinycolor s)"
  by (simp add: tinycolor_def Let_def inRange_mk_tc)

lemma luminance_range:
  assumes "inRange c"
  shows "0 \<le> getLuminance c \<and> getLuminance c \<le> 1"
proof -
  have r: "0 \<le> real_of_int (js_round x) / 255 \<and> real_of_int (js_round x) / 255 \<le> 1"
    if "0 \<le> x" "x \<le> 255" for x
    using js_round_range [OF that] by simp
  from assms have
    "0 \<le> linearize (real_of_int (js_round (tc_r c)) / 255) \<and> linearize (real_of_int (js_round (tc_r c)) / 255) \<le> 1"
    "0 \<le> linearize (real_of_int (js_round (tc_g c)) / 255) \<and> linearize (real_of_int (js_round (tc_g c)) / 255) \<le> 1"
    "0 \<le> linearize (real_of_int (js_round (tc_b c)) / 255) \<and> linearize (real_of_int (js_round (tc_b c)) / 255) \<le> 1"
    by (auto simp: inRange_def intro!: linearize_range dest: r)
  then show ?thesis
    by (simp add: getLuminance_def toRgb_def Let_def)
qed

lemma readability_eq:
  "readability a b =
     (max (getLuminance (tinycolor a)) (getLuminance (tinycolor b)) + 0.05)
       / (min (getLuminance (tinycolor a)) (getLuminance (tinycolor b)) + 0.05)"
  by (simp add: readability_def Let_def)

lemma linearize_0: "linearize 0 = 0"
  by (simp add: linearize_def)

lemma linearize_1: "linearize 1 = 1"
  by (simp add: linearize_def)

lemma tinycolor_red: "tinycolor ''#ff0000'' = \<lparr>tc_r = 255, tc_g = 0, tc_b = 0\<rparr>"
  by (simp add: tc_eval hex_eval)

lemma tinycolor_black: "tinycolor ''#000000'' = \<lparr>tc_r = 0, tc_g = 0, tc_b = 0\<rparr>"
  by (simp add: tc_eval hex_eval)

lemma tinycolor_white: "tinycolor ''#ffffff'' = \<lparr>tc_r = 255, tc_g = 255, tc_b = 255\<rparr>"
  by (simp add: tc_eval hex_eval)

lemma luminance_red: "getLuminance (tinycolor ''#ff0000'') = 0.2126"
  by (simp add: tinycolor_red getLuminance_def toRgb_def js_round_def linearize_0 linearize_1)

lemma luminance_black: "getLuminance (tinycolor ''#000000'') = 0"
  by (simp add: tinycolor_black getLuminance_def toRgb_def js_round_def linearize_0)

lemma luminance_white: "getLuminance (tinycolor ''#ffffff'') = 1"
  by (simp add: tinycolor_white getLuminance_def toRgb_def js_round_def linearize_1)

lemma readability_black_red: "readability ''#000000'' ''#ff0000'' = 5.252"
  by (simp add: readability_eq luminance_black luminance_red)

lemma readability_white_red: "readability ''#ffffff'' ''#ff0000'' = 1.05 / 0.2626"
  by (simp add: readability_eq luminance_white luminance_red)

lemma readability_red_below_7: "readability s ''#ff0000'' < 7"
proof -
  define L where "L = getLuminance (tinycolor s)"
  have L: "0 \<le> L" "L \<le> 1"
    using luminance_range [OF inRange_tinycolor, of s] by (simp_all add: L_def)
  have "(max L 0.2126 + 0.05) / (min L 0.2126 + 0.05) < 7"
  proof (cases "L \<le> 0.2126")
    case True
    then have "(max L 0.2126 + 0.05) / (min L 0.2126 + 0.05) = 0.2626 / (L + 0.05)"
      by (simp add: max_def min_def)
    also have "\<dots> < 7" using L by (simp add: divide_less_eq)
    finally show ?thesis .
  next
    case False
    then have "(max L 0.2126 + 0.05) / (min L 0.2126 + 0.05) = (L + 0.05) / 0.2626"
      by (simp add: max_def min_def)
    also have "\<dots> < 7" using L by simp
    finally show ?thesis .
  qed
  then show ?thesis by (simp add: readability_eq luminance_red L_def)
qed


section \<open>Lightening black against red\<close>

lemma bound01_grayChannel:
  assumes "k < 100"
  shows "bound01 (grayChannel k) 255 = real k / 100"
proof -
  have "real k \<le> 99" using assms by simp
  then show ?thesis
    unfolding bound01_def grayChannel_def Let_def
    by (simp add: min_def max_def abs_if)
qed

lemma toHsl_gray:
  assumes "k < 100"
  shows "toHsl (grayLevel k) = (0, 0, real k / 100)"
  unfolding toHsl_def rgbToHsl_def grayLevel_def tc.simps bound01_grayChannel [OF assms] Let_def
  by simp

lemma bound01_unit_level:
  assumes "k \<le> 100"
  shows "bound01_unit (real k / 100) 100 = real k / 100"
proof -
  have f: "\<lfloor>real k * 100\<rfloor> = int k * 100"
    by (metis floor_of_int of_int_of_nat_eq of_int_mult of_int_numeral)
  have "real k \<le> 100" using assms by simp
  then show ?thesis
    using assms by (auto simp: bound01_unit_def bound01_percent_def Let_def min_def max_def f abs_if)
qed

lemma tc_channel_gray:
  assumes "1 \<le> k" "k \<le> 100"
  shows "tc_channel (real k / 100 * 255) = grayChannel k"
proof -
  have "1 \<le> real k" "real k \<le> 100" using assms by simp_all
  then show ?thesis
    unfolding tc_channel_def grayChannel_def Let_def by (simp add: min_def max_def)
qed

lemma lighten_gray:
  assumes "k < 100"
  shows "lighten (grayLevel k) 1 = grayLevel (Suc k)"
proof -
  have c: "clamp01 (real k / 100 + 1 / 100) = real (Suc k) / 100"
    using assms by (simp add: clamp01_def min_def max_def add_divide_distrib)
  have z: "bound01_unit 0 100 = 0"
    using bound01_unit_level [of 0] by simp
  have h: "bound01 0 360 = 0"
    by (simp add: bound01_def)
  have l: "bound01_unit (real (Suc k) / 100) 100 = real (Suc k) / 100"
    using assms by (intro bound01_unit_level) simp
  have ch: "tc_channel (real (Suc k) / 100 * 255) = grayChannel (Suc k)"
    using assms by (intro tc_channel_gray) simp_all
  have "lighten (grayLevel k) 1 = tinycolor_hsl 0 0 (real (Suc k) / 100)"
    unfolding lighten_def toHsl_gray [OF assms] prod.case c ..
  also have "\<dots> = mk_tc (real (Suc k) / 100 * 255) (real (Suc k) / 100 * 255) (real (Suc k) / 100 * 255)"
    unfolding tinycolor_hsl_def h z l hslToRgb_def by (simp only: refl if_True prod.case)
  also have "\<dots> = grayLevel (Suc k)"
    unfolding mk_tc_def ch grayLevel_def ..
  finally show ?thesis .
qed

lemma lighten_gray_funpow:
  "k \<le> 100 \<Longrightarrow> (contrastStep True ^^ k) (grayLevel 0) = grayLevel k"
  by (induction k) (simp_all add: lighten_gray contrastStep_def)

lemma grayLevel_0: "grayLevel 0 = tinycolor ''#000000''"
  by (simp add: grayLevel_def grayChannel_def tinycolor_black)

lemma toHexString_gray100: "toHexString (grayLevel 100) = ''#ffffff''"
  by (simp add: grayLevel_def grayChannel_def toHexString_def js_round_def pad2_def hexDigitChar_def)

lemma isDark_red: "isDark (tinycolor ''#ff0000'')"
  by (simp add: isDark_def getBrightness_def tinycolor_red toRgb_def js_round_def)

lemma ensureContrast_black_red: "ensureContrast ''#000000'' ''#ff0000'' 7 = ''#ffffff''"
proof -
  obtain k where k: "0 + k \<le> 100"
    "ensureContrast_loop ''#ff0000'' 7 True (grayLevel 0) 0 = ((contrastStep True ^^ k) (grayLevel 0), 0 + k)"
    "0 + k < 100 \<longrightarrow> \<not> readability (toHexString ((contrastStep True ^^ k) (grayLevel 0))) ''#ff0000'' < 7"
    using loop_result [of 0 "''#ff0000''" 7 True "grayLevel 0"] by auto
  from k(3) readability_red_below_7 have "k = 100" using k(1) by (cases "k < 100") auto
  with k(2) have "fst (ensureContrast_loop ''#ff0000'' 7 True (grayLevel 0) 0) = grayLevel 100"
    by (simp add: lighten_gray_funpow)
  then show ?thesis
    by (simp add: ensureContrast_def readability_black_red isDark_red grayLevel_0 [symmetric]
        toHexString_gray100)
qed


section \<open>ensureContrast: the iteration cap and what is returned\<close>

text \<open>
  Claim C8. Whatever the colours and the target ratio, the correction loop of
  \<open>ensureContrast\<close> takes at most 100 steps. (The loop function is total: its
  termination is proved with its definition, by the measure \<open>100 - iterations\<close>.)
\<close>

theorem correction_loop_at_most_100_iterations:
  "snd (ensureContrast_loop bg targetRatio isBgDark result 0) \<le> 100"
  using loop_iterations_le [of bg targetRatio isBgDark result 0] by simp

text \<open>
  Claim C2, as amended. \<open>ensureContrast fg bg r\<close> returns \<open>fg\<close> unchanged when the ratio
  already meets \<open>r\<close>. Otherwise it returns the colour reached after \<open>k \<le> 100\<close> unit
  lightness steps in the direction fixed by the background (up when it is dark, down
  otherwise), where no earlier step met \<open>r\<close> and, when \<open>k < 100\<close>, step \<open>k\<close> meets it.
  A result that meets \<open>r\<close> has a contrast no lower than the initial one; nothing is
  promised of a result that does not.
\<close>

theorem ensureContrast_first_step_meeting_target:
  "(targetRatio \<le> readability fg bg \<longrightarrow> ensureContrast fg bg targetRatio = fg)
   \<and> (readability fg bg < targetRatio \<longrightarrow>
        (\<exists>k \<le> 100.
           ensureContrast fg bg targetRatio
             = toHexString ((contrastStep (isDark (tinycolor bg)) ^^ k) (tinycolor fg))
           \<and> (\<forall>j < k. readability (toHexString ((contrastStep (isDark (tinycolor bg)) ^^ j) (tinycolor fg))) bg
                         < targetRatio)
           \<and> (k < 100 \<longrightarrow> targetRatio \<le> readability (ensureContrast fg bg targetRatio) bg)))
   \<and> (targetRatio \<le> readability (ensureContrast fg bg targetRatio) bg \<longrightarrow>
        readability fg bg \<le> readability (ensureContrast fg bg targetRatio) bg)"
proof (intro conjI impI)
  assume "targetRatio \<le> readability fg bg"
  then show "ensureContrast fg bg targetRatio = fg" by (simp add: ensureContrast_def)
next
  assume lt: "readability fg bg < targetRatio"
  obtain k where k: "0 + k \<le> 100"
    "ensureContrast_loop bg targetRatio (isDark (tinycolor bg)) (tinycolor fg) 0
       = ((contrastStep (isDark (tinycolor bg)) ^^ k) (tinycolor fg), 0 + k)"
    "\<forall>j < k. readability (toHexString ((contrastStep (isDark (tinycolor bg)) ^^ j) (tinycolor fg))) bg
               < targetRatio"
    "0 + k < 100 \<longrightarrow>
       \<not> readability (toHexString ((contrastStep (isDark (tinycolor bg)) ^^ k) (tinycolor fg))) bg < targetRatio"
    using loop_result [of 0 bg targetRatio "isDark (tinycolor bg)" "tinycolor fg"] by auto
  have e: "ensureContrast fg bg targetRatio
             = toHexString ((contrastStep (isDark (tinycolor bg)) ^^ k) (tinycolor fg))"
    using lt k(2) by (simp add: ensureContrast_def)
  show "\<exists>k \<le> 100.
           ensureContrast fg bg targetRatio
             = toHexString ((contrastStep (isDark (tinycolor bg)) ^^ k) (tinycolor fg))
           \<and> (\<forall>j < k. readability (toHexString ((contrastStep (isDark (tinycolor bg)) ^^ j) (tinycolor fg))) bg
                         < targetRatio)
           \<and> (k < 100 \<longrightarrow> targetRatio \<le> readability (ensureContrast fg bg targetRatio) bg)"
    using k(1,3,4) e by (intro exI [of _ k]) auto
next
  assume "targetRatio \<le> readability (ensureContrast fg bg targetRatio) bg"
  then show "readability fg bg \<le> readability (ensureContrast fg bg targetRatio) bg"
    by (cases "targetRatio \<le> readability fg bg") (simp_all add: ensureContrast_def)
qed

lemma toString16_small: "n < 16 \<Longrightarrow> toString16 n = [hexDigitChar n]"
  by (simp add: toString16.simps)

lemma toHexString_gray_low:
  "toHexString (grayLevel 0) = ''#000000''"
  "toHexString (grayLevel (Suc 0)) = ''#030303''"
  "toHexString (grayLevel 2) = ''#050505''"
  "toHexString (grayLevel 3) = ''#080808''"
  "toHexString (grayLevel 4) = ''#0a0a0a''"
  by (simp_all add: grayLevel_def grayChannel_def toHexString_def js_round_def pad2_def
      toString16_small hexDigitChar_def)

lemma luminance_gray_low:
  "getLuminance (tinycolor ''#030303'') = 3 / 255 / 12.92"
  "getLuminance (tinycolor ''#050505'') = 5 / 255 / 12.92"
  "getLuminance (tinycolor ''#080808'') = 8 / 255 / 12.92"
  "getLuminance (tinycolor ''#0a0a0a'') = 10 / 255 / 12.92"
  by (simp_all add: tc_eval hex_eval getLuminance_def linearize_def)

lemma isDark_black: "isDark (tinycolor ''#000000'')"
  by (simp add: isDark_def getBrightness_def tinycolor_black toRgb_def js_round_def)

lemma loop_gray_run:
  assumes below: "\<forall>j < k. readability (toHexString (grayLevel j)) bg < t"
    and meets: "\<not> readability (toHexString (grayLevel k)) bg < t"
    and k: "k \<le> 100"
  shows "ensureContrast_loop bg t True (grayLevel 0) 0 = (grayLevel k, k)"
proof -
  obtain k' where k': "0 + k' \<le> 100"
    "ensureContrast_loop bg t True (grayLevel 0) 0 = ((contrastStep True ^^ k') (grayLevel 0), 0 + k')"
    "\<forall>j < k'. readability (toHexString ((contrastStep True ^^ j) (grayLevel 0))) bg < t"
    "0 + k' < 100 \<longrightarrow> \<not> readability (toHexString ((contrastStep True ^^ k') (grayLevel 0))) bg < t"
    using loop_result [of 0 bg t True "grayLevel 0"] by auto
  have g: "(contrastStep True ^^ j) (grayLevel 0) = grayLevel j" if "j \<le> 100" for j
    using that by (rule lighten_gray_funpow)
  have "\<not> k' < k"
  proof
    assume lt: "k' < k"
    then have "k' < 100" using k by simp
    with k'(4) g [of k'] have "\<not> readability (toHexString (grayLevel k')) bg < t" by simp
    with below lt show False by blast
  qed
  moreover have "\<not> k < k'"
  proof
    assume lt: "k < k'"
    with k'(3) g [of k] k have "readability (toHexString (grayLevel k)) bg < t" by auto
    with meets show False by blast
  qed
  ultimately have "k' = k" by simp
  with k'(2) g [of k] k show ?thesis by simp
qed

lemma ensureContrast_black_black: "ensureContrast ''#000000'' ''#000000'' 1.05 = ''#0a0a0a''"
proof -
  have r: "readability (toHexString (grayLevel 0)) ''#000000'' < 1.05"
    "readability (toHexString (grayLevel (Suc 0))) ''#000000'' < 1.05"
    "readability (toHexString (grayLevel 2)) ''#000000'' < 1.05"
    "readability (toHexString (grayLevel 3)) ''#000000'' < 1.05"
    "\<not> readability (toHexString (grayLevel 4)) ''#000000'' < 1.05"
    by (simp_all add: toHexString_gray_low readability_eq luminance_black luminance_gray_low)
  have below: "\<forall>j < 4. readability (toHexString (grayLevel j)) ''#000000'' < 1.05"
  proof (intro allI impI)
    fix j :: nat assume "j < 4"
    then consider "j = 0" | "j = Suc 0" | "j = 2" | "j = 3" by linarith
    then show "readability (toHexString (grayLevel j)) ''#000000'' < 1.05"
      using r by cases simp_all
  qed
  have "ensureContrast_loop ''#000000'' 1.05 True (grayLevel 0) 0 = (grayLevel 4, 4)"
    using below r(5) by (rule loop_gray_run) simp
  then have "fst (ensureContrast_loop ''#000000'' 1.05 (isDark (tinycolor ''#000000'')) (tinycolor ''#000000'') 0)
               = grayLevel 4"
    using isDark_black by (simp add: grayLevel_0 [symmetric])
  moreover have "\<not> 1.05 \<le> readability ''#000000'' ''#000000''"
    by (simp add: readability_eq luminance_black)
  ultimately show ?thesis
    unfolding ensureContrast_def by (simp only: if_False toHexString_gray_low)
qed

theorem ensureContrast_first_step_meeting_target_witness:
  "4.5 \<le> readability ''#000000'' ''#ff0000''
   \<and> ensureContrast ''#000000'' ''#ff0000'' 4.5 = ''#000000''
   \<and> readability ''#000000'' ''#000000'' < 1.05
   \<and> ensureContrast ''#000000'' ''#000000'' 1.05
        = toHexString ((contrastStep (isDark (tinycolor ''#000000'')) ^^ 4) (tinycolor ''#000000''))
   \<and> 1.05 \<le> readability (ensureContrast ''#000000'' ''#000000'' 1.05) ''#000000''
   \<and> readability ''#000000'' ''#000000''
        \<le> readability (ensureContrast ''#000000'' ''#000000'' 1.05) ''#000000''"
proof -
  note T = ensureContrast_first_step_meeting_target
  have a: "4.5 \<le> readability ''#000000'' ''#ff0000''"
    by (simp add: readability_black_red)
  with T [of "4.5" "''#000000''" "''#ff0000''"]
  have b: "ensureContrast ''#000000'' ''#ff0000'' 4.5 = ''#000000''" by blast
  have c: "readability ''#000000'' ''#000000'' < 1.05"
    by (simp add: readability_eq luminance_black)
  have d: "ensureContrast ''#000000'' ''#000000'' 1.05
        = toHexString ((contrastStep (isDark (tinycolor ''#000000'')) ^^ 4) (tinycolor ''#000000''))"
    unfolding ensureContrast_black_black
    using lighten_gray_funpow [of 4] isDark_black
    by (simp add: grayLevel_0 [symmetric] toHexString_gray_low)
  have e: "1.05 \<le> readability (ensureContrast ''#000000'' ''#000000'' 1.05) ''#000000''"
    unfolding ensureContrast_black_black
    by (simp add: readability_eq luminance_black luminance_gray_low)
  with T [of "1.05" "''#000000''" "''#000000''"]
  have f: "readability ''#000000'' ''#000000''
        \<le> readability (ensureContrast ''#000000'' ''#000000'' 1.05) ''#000000''" by blast
  from a b c d e f show ?thesis by blast
qed

text \<open>
  Claim C2 as stated fails: no colour reaches ratio 7 against pure red; black (ratio
  5.252) is lightened for the full 100 steps, and the colour returned has a lower
  ratio against red than black had.
\<close>

theorem ensureContrast_lowers_contrast_counterexample:
  "readability ''#000000'' ''#ff0000'' < 7
   \<and> readability (ensureContrast ''#000000'' ''#ff0000'' 7) ''#ff0000''
       < readability ''#000000'' ''#ff0000''"
  by (simp add: ensureContrast_black_red readability_black_red readability_white_red)

theorem correction_loop_at_most_100_iterations_witness:
  "snd (ensureContrast_loop ''#ff0000'' 7 True (tinycolor ''#000000'') 0) = 100"
proof -
  obtain k where k: "0 + k \<le> 100"
    "ensureContrast_loop ''#ff0000'' 7 True (tinycolor ''#000000'') 0
       = ((contrastStep True ^^ k) (tinycolor ''#000000''), 0 + k)"
    "0 + k < 100 \<longrightarrow> \<not> readability (toHexString ((contrastStep True ^^ k) (tinycolor ''#000000''))) ''#ff0000'' < 7"
    using loop_result [of 0 "''#ff0000''" 7 True "tinycolor ''#000000''"] by auto
  from k(3) readability_red_below_7 have "k = 100" using k(1) by (cases "k < 100") auto
  with k(2) show ?thesis
    using correction_loop_at_most_100_iterations [of "''#ff0000''" 7 True "tinycolor ''#000000''"]
    by simp
qed

section \<open>Hue, saturation and lightness\<close>

lemma bound01_range: "0 < mx \<Longrightarrow> 0 \<le> bound01 n mx \<and> bound01 n mx \<le> 1"
  by (auto simp: bound01_def Let_def min_def max_def)

lemma bound01_percent_range: "0 \<le> bound01_percent p 100 \<and> bound01_percent p 100 \<le> 1"
proof -
  define n' where "n' = min 100 (max 0 p)"
  have n': "0 \<le> n'" "n' \<le> 100" by (simp_all add: n'_def)
  have 1: "0 \<le> real_of_int \<lfloor>n' * 100\<rfloor>" using n' by simp
  have "real_of_int \<lfloor>n' * 100\<rfloor> \<le> n' * 100" by (rule of_int_floor_le)
  with n' have 2: "real_of_int \<lfloor>n' * 100\<rfloor> \<le> 10000" by linarith
  show ?thesis
    unfolding bound01_percent_def Let_def n'_def [symmetric] using 1 2 by auto
qed

lemma bound01_unit_range: "0 \<le> bound01_unit n 100 \<and> bound01_unit n 100 \<le> 1"
  using bound01_percent_range [of "n * 100"] bound01_range [of 100 n]
  by (simp add: bound01_unit_def)

lemma bound01_unit_floor:
  assumes "0 \<le> l" "l \<le> 1"
  shows "bound01_unit l 100 = real_of_int \<lfloor>l * 10000\<rfloor> / 10000"
proof -
  define k where "k = \<lfloor>l * 10000\<rfloor>"
  have n': "min 100 (max 0 (l * 100)) = l * 100" using assms by (simp add: min_def max_def)
  have fl: "\<lfloor>l * 100 * 100\<rfloor> = k" by (simp add: k_def mult.assoc)
  have "real_of_int k \<le> l * 10000" unfolding k_def by (rule of_int_floor_le)
  then have le: "real_of_int k \<le> 10000" using assms by linarith
  have u: "bound01_unit l 100
             = (if \<bar>real_of_int k / 100 - 100\<bar> < 0.000001 then 1 else real_of_int k / 100 / 100)"
    using assms(2) unfolding bound01_unit_def bound01_percent_def Let_def n' fl by simp
  show ?thesis
  proof (cases "k = 10000")
    case True
    then show ?thesis unfolding u k_def [symmetric] by simp
  next
    case False
    with le have "k \<le> 9999" by simp
    then have "real_of_int k \<le> 9999" by linarith
    then have "\<not> \<bar>real_of_int k / 100 - 100\<bar> < 0.000001" by (simp add: abs_if)
    then show ?thesis unfolding u k_def [symmetric] by simp
  qed
qed

lemma bound01_unit_bounds:
  assumes "0 \<le> l" "l \<le> 1"
  shows "l - 0.0001 < bound01_unit l 100" "bound01_unit l 100 \<le> l"
proof -
  have "l * 10000 - 1 < real_of_int \<lfloor>l * 10000\<rfloor>" by linarith
  then show "l - 0.0001 < bound01_unit l 100"
    unfolding bound01_unit_floor [OF assms] by (simp add: field_simps)
  have "real_of_int \<lfloor>l * 10000\<rfloor> \<le> l * 10000" by (rule of_int_floor_le)
  then show "bound01_unit l 100 \<le> l"
    unfolding bound01_unit_floor [OF assms] by (simp add: field_simps)
qed

lemma bound01_unit_1: "bound01_unit 1 100 = 1"
  using bound01_unit_floor [of 1] by simp

lemma bound01_unit_0: "bound01_unit 0 100 = 0"
  using bound01_unit_floor [of 0] by simp

lemma bound01_unit_le_0:
  assumes "l \<le> 0" shows "bound01_unit l 100 = 0"
proof -
  have "min 100 (max 0 (l * 100)) = 0" using assms by (simp add: min_def max_def mult_le_0_iff)
  then show ?thesis using assms by (simp add: bound01_unit_def bound01_percent_def Let_def)
qed

lemma bound01_255_lower: "0 \<le> x \<Longrightarrow> x \<le> 255 \<Longrightarrow> x / 255 \<le> bound01 x 255"
  by (auto simp: bound01_def Let_def min_def max_def)

lemma bound01_255_upper: "0 \<le> x \<Longrightarrow> x \<le> 255 \<Longrightarrow> bound01 x 255 \<le> x / 255 + 0.00000001"
  by (auto simp: bound01_def Let_def min_def max_def abs_if)

lemma interpolate_range:
  fixes p q w :: real
  assumes "p \<le> q" "0 \<le> w" "w \<le> 1"
  shows "p \<le> p + (q - p) * w" "p + (q - p) * w \<le> q"
proof -
  have d: "0 \<le> q - p" using assms(1) by simp
  from d assms(2) have "0 \<le> (q - p) * w" by (rule mult_nonneg_nonneg)
  then show "p \<le> p + (q - p) * w" by simp
  from assms(3) d have "(q - p) * w \<le> (q - p) * 1" by (rule mult_left_mono)
  then show "p + (q - p) * w \<le> q" by simp
qed

lemma hue2rgb_range:
  assumes "p \<le> q" "- 1 / 3 \<le> t" "t \<le> 4 / 3"
  shows "p \<le> hue2rgb p q t \<and> hue2rgb p q t \<le> q"
proof -
  define t1 where "t1 = (if t < 0 then t + 1 else t)"
  define t2 where "t2 = (if t1 > 1 then t1 - 1 else t1)"
  have r: "0 \<le> t2" "t2 \<le> 1" using assms by (auto simp: t1_def t2_def)
  have d: "0 \<le> q - p" using assms by simp
  have a: "p \<le> p + (q - p) * 6 * t2" using d r by simp
  have b: "p + (q - p) * 6 * t2 \<le> q" if "t2 < 1 / 6"
  proof -
    have "p + (q - p) * 6 * t2 = p + (q - p) * (6 * t2)" by simp
    also have "\<dots> \<le> q" by (rule interpolate_range) (use assms(1) r that in simp_all)
    finally show ?thesis .
  qed
  have c: "p \<le> p + (q - p) * (2 / 3 - t2) * 6" if "t2 < 2 / 3"
    using d that by simp
  have e: "p + (q - p) * (2 / 3 - t2) * 6 \<le> q" if "\<not> t2 < 1 / 2" "t2 < 2 / 3"
  proof -
    have "p + (q - p) * (2 / 3 - t2) * 6 = p + (q - p) * ((2 / 3 - t2) * 6)" by simp
    also have "\<dots> \<le> q" by (rule interpolate_range) (use assms(1) r that in simp_all)
    finally show ?thesis .
  qed
  show ?thesis
    unfolding hue2rgb_def Let_def t1_def [symmetric] t2_def [symmetric]
    using a b c e assms(1) by auto
qed

lemma hue2rgb_some_q:
  assumes "0 \<le> h" "h \<le> 1"
  shows "hue2rgb p q (h + 1 / 3) = q \<or> hue2rgb p q h = q \<or> hue2rgb p q (h - 1 / 3) = q"
proof -
  consider "h < 1 / 6" | "1 / 6 \<le> h" "h < 1 / 2" | "h = 1 / 2" | "1 / 2 < h" "h < 5 / 6"
    | "h = 5 / 6" | "5 / 6 < h"
    by linarith
  then show ?thesis
  proof cases
    case 1
    then have "hue2rgb p q (h + 1 / 3) = q" using assms by (simp add: hue2rgb_def Let_def)
    then show ?thesis by simp
  next
    case 2
    then have "hue2rgb p q h = q" using assms by (simp add: hue2rgb_def Let_def)
    then show ?thesis by simp
  next
    case 3
    have "hue2rgb p q (1 / 2) = q" by (simp add: hue2rgb_def Let_def field_simps)
    then show ?thesis unfolding 3 by simp
  next
    case 4
    then have "hue2rgb p q (h - 1 / 3) = q" using assms by (auto simp: hue2rgb_def Let_def algebra_simps)
    then show ?thesis by simp
  next
    case 5
    have "hue2rgb p q (5 / 6 - 1 / 3) = q" by (simp add: hue2rgb_def Let_def field_simps)
    then show ?thesis unfolding 5 by simp
  next
    case 6
    then have "hue2rgb p q (h + 1 / 3) = q" using assms by (auto simp: hue2rgb_def Let_def)
    then show ?thesis by simp
  qed
qed

lemma hue2rgb_some_p:
  assumes "0 \<le> h" "h \<le> 1"
  shows "hue2rgb p q (h + 1 / 3) = p \<or> hue2rgb p q h = p \<or> hue2rgb p q (h - 1 / 3) = p"
proof -
  consider "h < 1 / 3" | "h = 1 / 3" | "1 / 3 < h" "h < 2 / 3" | "2 / 3 \<le> h"
    by linarith
  then show ?thesis
  proof cases
    case 1
    then have "hue2rgb p q (h - 1 / 3) = p" using assms by (auto simp: hue2rgb_def Let_def)
    then show ?thesis by simp
  next
    case 2
    then have "hue2rgb p q (h - 1 / 3) = p" by (simp add: hue2rgb_def Let_def)
    then show ?thesis by simp
  next
    case 3
    then have "hue2rgb p q (h + 1 / 3) = p" using assms by (auto simp: hue2rgb_def Let_def)
    then show ?thesis by simp
  next
    case 4
    then have "hue2rgb p q h = p" using assms by (auto simp: hue2rgb_def Let_def)
    then show ?thesis by simp
  qed
qed

lemma hslToRgb_channels:
  assumes h: "0 \<le> h" "h \<le> 1" and s: "0 \<le> s" "s \<le> 1" and l: "0 \<le> l" "l \<le> 1"
  shows "\<exists>p q r g b.
           hslToRgb h s l = (r * 255, g * 255, b * 255)
           \<and> 0 \<le> p \<and> p \<le> q \<and> q \<le> 1 \<and> p + q = 2 * l
           \<and> q \<le> l + s * l \<and> q \<le> l + s * (1 - l)
           \<and> p \<le> r \<and> r \<le> q \<and> p \<le> g \<and> g \<le> q \<and> p \<le> b \<and> b \<le> q
           \<and> (r = q \<or> g = q \<or> b = q) \<and> (r = p \<or> g = p \<or> b = p)"
proof (cases "s = 0")
  case True
  then have "hslToRgb h s l = (l * 255, l * 255, l * 255)" by (simp add: hslToRgb_def)
  then show ?thesis using l True
    by (intro exI [of _ l]) simp
next
  case False
  define q where "q = (if l < 1 / 2 then l * (1 + s) else l + s - l * s)"
  define p where "p = 2 * l - q"
  have sl: "0 \<le> s * l" "s * l \<le> l" "0 \<le> s * (1 - l)" "s * (1 - l) \<le> 1 - l"
    using s l by (simp_all add: mult_left_le_one_le)
  have q1: "q = l + s * l" if "l < 1 / 2" using that by (simp add: q_def algebra_simps)
  have q2: "q = l + s * (1 - l)" if "\<not> l < 1 / 2" using that by (simp add: q_def algebra_simps)
  have sll: "s * l \<le> s * (1 - l)" if "l < 1 / 2"
    using that s by (intro mult_left_mono) simp_all
  have sll': "s * (1 - l) \<le> s * l" if "\<not> l < 1 / 2"
    using that s by (intro mult_left_mono) simp_all
  have qa: "q \<le> l + s * l" using q1 q2 sll' by (cases "l < 1 / 2") auto
  have qb: "q \<le> l + s * (1 - l)" using q1 q2 sll by (cases "l < 1 / 2") auto
  have ql: "l \<le> q" using q1 q2 sl by (cases "l < 1 / 2") auto
  have pq: "p \<le> q" using ql by (simp add: p_def)
  have p0: "0 \<le> p" using qa qb sl by (simp add: p_def)
  have q1': "q \<le> 1" using qb sl by simp
  have rng: "p \<le> hue2rgb p q t \<and> hue2rgb p q t \<le> q" if "- 1 / 3 \<le> t" "t \<le> 4 / 3" for t
    using pq that by (rule hue2rgb_range)
  have eq: "hslToRgb h s l = (hue2rgb p q (h + 1 / 3) * 255, hue2rgb p q h * 255, hue2rgb p q (h - 1 / 3) * 255)"
    using False by (simp add: hslToRgb_def Let_def p_def q_def)
  show ?thesis
    apply (rule exI [of _ p], rule exI [of _ q])
    apply (rule exI [of _ "hue2rgb p q (h + 1 / 3)"], rule exI [of _ "hue2rgb p q h"],
        rule exI [of _ "hue2rgb p q (h - 1 / 3)"])
    using eq p0 pq q1' qa qb rng [of "h + 1 / 3"] rng [of h] rng [of "h - 1 / 3"] h
      hue2rgb_some_q [OF h, of p q] hue2rgb_some_p [OF h, of p q]
    by (simp add: p_def)
qed

lemma lightnessOf_eq:
  "lightnessOf c =
     (max (bound01 (tc_r c) 255) (max (bound01 (tc_g c) 255) (bound01 (tc_b c) 255))
      + min (bound01 (tc_r c) 255) (min (bound01 (tc_g c) 255) (bound01 (tc_b c) 255))) / 2"
  by (simp add: lightnessOf_def toHsl_def rgbToHsl_def Let_def)

lemma lightnessOf_range: "0 \<le> lightnessOf c \<and> lightnessOf c \<le> 1"
proof -
  have b: "0 \<le> bound01 x 255 \<and> bound01 x 255 \<le> 1" for x
    by (rule bound01_range) simp
  show ?thesis
    unfolding lightnessOf_eq using b [of "tc_r c"] b [of "tc_g c"] b [of "tc_b c"]
    by (auto simp: max_def min_def)
qed

lemma lightnessOf_white: "lightnessOf whiteTc = 1"
  by (simp add: lightnessOf_eq whiteTc_def bound01_def)

lemma lightnessOf_black: "lightnessOf blackTc = 0"
  by (simp add: lightnessOf_eq blackTc_def bound01_def)

lemma tc_channel_id: "1 \<le> x \<Longrightarrow> x \<le> 255 \<Longrightarrow> tc_channel x = x"
  by (simp add: tc_channel_def Let_def min_def max_def)

lemma tc_channel_upper: "0 \<le> x \<Longrightarrow> x \<le> 254 \<Longrightarrow> tc_channel x \<le> x + 1 / 2 \<and> 0 \<le> tc_channel x"
  by (auto simp: tc_channel_def js_round_def Let_def min_def max_def)

lemma lightness_lower:
  assumes raw: "p \<le> r" "r \<le> q" "p \<le> g" "g \<le> q" "p \<le> b" "b \<le> q"
    and top: "r = q \<or> g = q \<or> b = q"
    and p: "1 \<le> p * 255" and q: "q \<le> 1"
  shows "(p + q) / 2 \<le> lightnessOf (mk_tc (r * 255) (g * 255) (b * 255))"
proof -
  have ch: "tc_channel (x * 255) = x * 255 \<and> x \<le> bound01 (x * 255) 255" if "p \<le> x" "x \<le> q" for x
  proof -
    have "1 \<le> x * 255" "x * 255 \<le> 255" using that p q by simp_all
    then show ?thesis
      using bound01_255_lower [of "x * 255"] by (simp add: tc_channel_id)
  qed
  note c = ch [OF raw(1,2)] ch [OF raw(3,4)] ch [OF raw(5,6)]
  define MX where "MX = max (bound01 (r * 255) 255) (max (bound01 (g * 255) 255) (bound01 (b * 255) 255))"
  define MN where "MN = min (bound01 (r * 255) 255) (min (bound01 (g * 255) 255) (bound01 (b * 255) 255))"
  have mn: "p \<le> MN" unfolding MN_def using c raw by simp
  have mx: "q \<le> MX" unfolding MX_def using c top by (auto simp: le_max_iff_disj)
  have "lightnessOf (mk_tc (r * 255) (g * 255) (b * 255)) = (MX + MN) / 2"
    unfolding lightnessOf_eq mk_tc_def tc.simps MX_def MN_def using c by simp
  with mn mx show ?thesis by simp
qed

lemma lightness_upper:
  assumes raw: "p \<le> r" "r \<le> q" "p \<le> g" "g \<le> q" "p \<le> b" "b \<le> q"
    and bot: "r = p \<or> g = p \<or> b = p"
    and p: "0 \<le> p" and q: "q * 255 \<le> 253"
  shows "lightnessOf (mk_tc (r * 255) (g * 255) (b * 255)) \<le> (p + q) / 2 + 1 / 510"
proof -
  have ch: "bound01 (tc_channel (x * 255)) 255 \<le> x + 1 / 510" if "p \<le> x" "x \<le> q" for x
  proof -
    have x: "0 \<le> x * 255" "x * 255 \<le> 253" using that p q by simp_all
    then have t: "tc_channel (x * 255) \<le> x * 255 + 1 / 2" "0 \<le> tc_channel (x * 255)"
      using tc_channel_upper [of "x * 255"] by simp_all
    then have "tc_channel (x * 255) \<le> 253.5" using x by simp
    then have "bound01 (tc_channel (x * 255)) 255 = tc_channel (x * 255) / 255"
      using t(2) by (simp add: bound01_def Let_def min_def max_def abs_if)
    then show ?thesis using t(1) by simp
  qed
  note c = ch [OF raw(1,2)] ch [OF raw(3,4)] ch [OF raw(5,6)]
  define MX where "MX = max (bound01 (tc_channel (r * 255)) 255)
              (max (bound01 (tc_channel (g * 255)) 255) (bound01 (tc_channel (b * 255)) 255))"
  define MN where "MN = min (bound01 (tc_channel (r * 255)) 255)
              (min (bound01 (tc_channel (g * 255)) 255) (bound01 (tc_channel (b * 255)) 255))"
  have mx: "MX \<le> q + 1 / 510" unfolding MX_def using c raw by simp
  have mn: "MN \<le> p + 1 / 510" unfolding MN_def using c bot by (auto simp: min_le_iff_disj)
  have "lightnessOf (mk_tc (r * 255) (g * 255) (b * 255)) = (MX + MN) / 2"
    unfolding lightnessOf_eq mk_tc_def tc.simps MX_def MN_def ..
  with mn mx show ?thesis by argo
qed

section \<open>Printing a colour and reading it back\<close>

lemma hexDigitChar_props_all:
  "\<forall>d < 16. isHexDigit (hexDigitChar d) \<and> \<not> isSpace (hexDigitChar d)
            \<and> toLowerChar (hexDigitChar d) = hexDigitChar d
            \<and> hexDigitVal (hexDigitChar d) = int d"
  by (simp add: eval_nat_numeral All_less_Suc hexDigitChar_def isHexDigit_def isSpace_def
      toLowerChar_def hexDigitVal_def)

lemma hexDigitChar_props:
  assumes "d < 16"
  shows "isHexDigit (hexDigitChar d)" "\<not> isSpace (hexDigitChar d)"
    "toLowerChar (hexDigitChar d) = hexDigitChar d" "hexDigitVal (hexDigitChar d) = int d"
  using assms hexDigitChar_props_all by blast+

lemma pad2_toString16:
  assumes "n < 256"
  shows "pad2 (toString16 n) = [hexDigitChar (n div 16), hexDigitChar (n mod 16)]"
proof (cases "n < 16")
  case True
  then show ?thesis by (simp add: toString16.simps pad2_def hexDigitChar_def)
next
  case False
  then have "n div 16 < 16" using assms by simp
  then have "toString16 (n div 16) = [hexDigitChar (n div 16)]" by (simp add: toString16.simps)
  with False have "toString16 n = [hexDigitChar (n div 16), hexDigitChar (n mod 16)]"
    by (subst toString16.simps) simp
  then show ?thesis by (simp add: pad2_def)
qed

lemma tc_channel_int:
  assumes "0 \<le> n" "n \<le> 255"
  shows "tc_channel (real_of_int n) = real_of_int n"
proof (cases "n = 0")
  case True
  then show ?thesis by (simp add: tc_channel_def js_round_def)
next
  case False
  with assms have "1 \<le> real_of_int n" "real_of_int n \<le> 255" by simp_all
  then show ?thesis by (rule tc_channel_id)
qed

lemma tinycolor_hex6:
  assumes d: "d1 < 16" "d2 < 16" "d3 < 16" "d4 < 16" "d5 < 16" "d6 < 16"
  shows "tinycolor [CHR ''#'', hexDigitChar d1, hexDigitChar d2, hexDigitChar d3,
                    hexDigitChar d4, hexDigitChar d5, hexDigitChar d6]
         = mk_tc (real_of_int (16 * int d1 + int d2)) (real_of_int (16 * int d3 + int d4))
                 (real_of_int (16 * int d5 + int d6))"
proof -
  let ?s = "[CHR ''#'', hexDigitChar d1, hexDigitChar d2, hexDigitChar d3,
             hexDigitChar d4, hexDigitChar d5, hexDigitChar d6]"
  note p = hexDigitChar_props [OF d(1)] hexDigitChar_props [OF d(2)] hexDigitChar_props [OF d(3)]
    hexDigitChar_props [OF d(4)] hexDigitChar_props [OF d(5)] hexDigitChar_props [OF d(6)]
  have sp: "\<not> isSpace CHR ''#''" by (simp add: isSpace_def)
  have lo: "toLowerChar CHR ''#'' = CHR ''#''" by (simp add: toLowerChar_def)
  have t: "trim ?s = ?s"
    using p sp by (simp add: trim_def)
  have m: "stripHash (map toLowerChar (trim ?s))
             = [hexDigitChar d1, hexDigitChar d2, hexDigitChar d3,
                hexDigitChar d4, hexDigitChar d5, hexDigitChar d6]"
    unfolding t using p lo by simp
  show ?thesis
    unfolding tinycolor_def m Let_def using p by (simp add: parseIntHex_def)
qed

lemma tinycolor_toHexString:
  assumes "inRange c"
  shows "tinycolor (toHexString c)
           = \<lparr>tc_r = real_of_int (js_round (tc_r c)), tc_g = real_of_int (js_round (tc_g c)),
              tc_b = real_of_int (js_round (tc_b c))\<rparr>"
proof -
  have r: "0 \<le> js_round x \<and> js_round x \<le> 255 \<and> nat (js_round x) < 256
           \<and> 16 * int (nat (js_round x) div 16) + int (nat (js_round x) mod 16) = js_round x
           \<and> nat (js_round x) div 16 < 16 \<and> nat (js_round x) mod 16 < 16"
    if "0 \<le> x" "x \<le> 255" for x
    using js_round_range [OF that] by (auto simp: zdiv_int zmod_int)
  note rr = r [of "tc_r c"] r [of "tc_g c"] r [of "tc_b c"]
  have rng: "0 \<le> tc_r c" "tc_r c \<le> 255" "0 \<le> tc_g c" "tc_g c \<le> 255" "0 \<le> tc_b c" "tc_b c \<le> 255"
    using assms by (simp_all add: inRange_def)
  note a = rr(1) [OF rng(1,2)] rr(2) [OF rng(3,4)] rr(3) [OF rng(5,6)]
  have s: "toHexString c =
     [CHR ''#'', hexDigitChar (nat (js_round (tc_r c)) div 16), hexDigitChar (nat (js_round (tc_r c)) mod 16),
      hexDigitChar (nat (js_round (tc_g c)) div 16), hexDigitChar (nat (js_round (tc_g c)) mod 16),
      hexDigitChar (nat (js_round (tc_b c)) div 16), hexDigitChar (nat (js_round (tc_b c)) mod 16)]"
    using a by (simp add: toHexString_def pad2_toString16)
  show ?thesis
    unfolding s using a
    by (subst tinycolor_hex6) (simp_all add: mk_tc_def tc_channel_int)
qed

lemma js_round_of_int: "js_round (real_of_int n) = n"
  by (simp add: js_round_def)

lemma js_round_near:
  "x - 1 / 2 < real_of_int (js_round x)" "real_of_int (js_round x) \<le> x + 1 / 2"
  unfolding js_round_def by linarith+

lemma luminance_roundtrip:
  assumes "inRange c"
  shows "getLuminance (tinycolor (toHexString c)) = getLuminance c"
  unfolding tinycolor_toHexString [OF assms]
  by (simp add: getLuminance_def toRgb_def js_round_of_int)

lemma brightness_roundtrip:
  assumes "inRange c"
  shows "isDark (tinycolor (toHexString c)) = isDark c"
  unfolding tinycolor_toHexString [OF assms]
  by (simp add: isDark_def getBrightness_def toRgb_def js_round_of_int)

lemma bound01_round:
  assumes "0 \<le> x" "x \<le> 255"
  shows "bound01 x 255 - 1 / 500 \<le> bound01 (real_of_int (js_round x)) 255"
    "bound01 (real_of_int (js_round x)) 255 \<le> bound01 x 255 + 1 / 500"
proof -
  have r: "0 \<le> real_of_int (js_round x)" "real_of_int (js_round x) \<le> 255"
    using js_round_range [OF assms] by simp_all
  note n = js_round_near [of x]
  have 1: "real_of_int (js_round x) / 255 \<le> bound01 (real_of_int (js_round x)) 255"
    using r by (rule bound01_255_lower)
  have 2: "bound01 x 255 \<le> x / 255 + 1 / 100000000"
    using bound01_255_upper [OF assms] by simp
  have 3: "(x - 1 / 2) / 255 \<le> real_of_int (js_round x) / 255" using n(1) by simp
  show "bound01 x 255 - 1 / 500 \<le> bound01 (real_of_int (js_round x)) 255"
    using 1 2 3 by argo
  have 4: "bound01 (real_of_int (js_round x)) 255 \<le> real_of_int (js_round x) / 255 + 1 / 100000000"
    using bound01_255_upper [OF r] by simp
  have 5: "x / 255 \<le> bound01 x 255" using assms by (rule bound01_255_lower)
  have 6: "real_of_int (js_round x) / 255 \<le> (x + 1 / 2) / 255" using n(2) by simp
  show "bound01 (real_of_int (js_round x)) 255 \<le> bound01 x 255 + 1 / 500"
    using 4 5 6 by argo
qed

lemma max3_mono:
  fixes a b c a' b' c' e :: real
  assumes "a - e \<le> a'" "b - e \<le> b'" "c - e \<le> c'"
  shows "max a (max b c) - e \<le> max a' (max b' c')"
  using assms by (auto simp: max_def)

lemma min3_mono:
  fixes a b c a' b' c' e :: real
  assumes "a - e \<le> a'" "b - e \<le> b'" "c - e \<le> c'"
  shows "min a (min b c) - e \<le> min a' (min b' c')"
  using assms by (auto simp: min_def)

lemma lightness_roundtrip:
  assumes "inRange c"
  shows "lightnessOf c - 1 / 500 \<le> lightnessOf (tinycolor (toHexString c))"
    "lightnessOf (tinycolor (toHexString c)) \<le> lightnessOf c + 1 / 500"
proof -
  have rng: "0 \<le> tc_r c" "tc_r c \<le> 255" "0 \<le> tc_g c" "tc_g c \<le> 255" "0 \<le> tc_b c" "tc_b c \<le> 255"
    using assms by (simp_all add: inRange_def)
  note br = bound01_round [OF rng(1,2)] and bg = bound01_round [OF rng(3,4)]
    and bb = bound01_round [OF rng(5,6)]
  define R G B where "R = bound01 (tc_r c) 255" and "G = bound01 (tc_g c) 255" and "B = bound01 (tc_b c) 255"
  define R' G' B' where "R' = bound01 (real_of_int (js_round (tc_r c))) 255"
    and "G' = bound01 (real_of_int (js_round (tc_g c))) 255"
    and "B' = bound01 (real_of_int (js_round (tc_b c))) 255"
  have l: "lightnessOf c = (max R (max G B) + min R (min G B)) / 2"
    by (simp add: lightnessOf_eq R_def G_def B_def)
  have l': "lightnessOf (tinycolor (toHexString c)) = (max R' (max G' B') + min R' (min G' B')) / 2"
    unfolding tinycolor_toHexString [OF assms] by (simp add: lightnessOf_eq R'_def G'_def B'_def)
  have lo: "R - 1 / 500 \<le> R'" "G - 1 / 500 \<le> G'" "B - 1 / 500 \<le> B'"
    using br(1) bg(1) bb(1) by (simp_all add: R_def G_def B_def R'_def G'_def B'_def)
  have hi: "R' - 1 / 500 \<le> R" "G' - 1 / 500 \<le> G" "B' - 1 / 500 \<le> B"
    using br(2) bg(2) bb(2) by (simp_all add: R_def G_def B_def R'_def G'_def B'_def)
  have "max R (max G B) - 1 / 500 \<le> max R' (max G' B')" "min R (min G B) - 1 / 500 \<le> min R' (min G' B')"
    using lo by (rule max3_mono, rule min3_mono)
  then show "lightnessOf c - 1 / 500 \<le> lightnessOf (tinycolor (toHexString c))"
    unfolding l l' by argo
  have "max R' (max G' B') - 1 / 500 \<le> max R (max G B)" "min R' (min G' B') - 1 / 500 \<le> min R (min G B)"
    using hi by (rule max3_mono, rule min3_mono)
  then show "lightnessOf (tinycolor (toHexString c)) \<le> lightnessOf c + 1 / 500"
    unfolding l l' by argo
qed

section \<open>Lightness steps\<close>

lemma tinycolor_hsl_light:
  assumes l: "0 \<le> l" "l \<le> 1"
  shows "(l = 1 \<longrightarrow> tinycolor_hsl h s l = whiteTc)
       \<and> (l < 1 \<and> 51 / 100 \<le> l \<longrightarrow> l - 1 / 10000 \<le> lightnessOf (tinycolor_hsl h s l))"
proof -
  define H where "H = bound01 h 360"
  define S where "S = bound01_unit s 100"
  define l'' where "l'' = bound01_unit l 100"
  have H: "0 \<le> H" "H \<le> 1" using bound01_range [of 360 h] by (simp_all add: H_def)
  have S: "0 \<le> S" "S \<le> 1" using bound01_unit_range [of s] by (simp_all add: S_def)
  have l'': "l - 1 / 10000 < l''" "l'' \<le> l" "0 \<le> l''" "l'' \<le> 1"
    using bound01_unit_bounds [OF l] bound01_unit_range [of l] by (simp_all add: l''_def)
  obtain p q r g b where ch: "hslToRgb H S l'' = (r * 255, g * 255, b * 255)"
    "0 \<le> p" "p \<le> q" "q \<le> 1" "p + q = 2 * l''"
    "p \<le> r" "r \<le> q" "p \<le> g" "g \<le> q" "p \<le> b" "b \<le> q" "r = q \<or> g = q \<or> b = q"
    using hslToRgb_channels [OF H S l''(3,4)] by blast
  have t: "tinycolor_hsl h s l = mk_tc (r * 255) (g * 255) (b * 255)"
    by (simp add: tinycolor_hsl_def H_def [symmetric] S_def [symmetric] l''_def [symmetric] ch(1))
  have a: "tinycolor_hsl h s l = whiteTc" if "l = 1"
  proof -
    have "l'' = 1" using that bound01_unit_1 by (simp add: l''_def)
    with ch have "p = 1" "q = 1" by simp_all
    with ch have "r = 1" "g = 1" "b = 1" by simp_all
    then show ?thesis
      by (simp add: t mk_tc_def tc_channel_id whiteTc_def)
  qed
  have b: "l - 1 / 10000 \<le> lightnessOf (tinycolor_hsl h s l)" if "l < 1" "51 / 100 \<le> l"
  proof -
    have "2 * l'' - 1 \<le> p" using ch(4,5) by simp
    moreover have "5099 / 10000 \<le> l''" using l''(1) that(2) by simp
    ultimately have "1 / 255 \<le> p" by simp
    then have p1: "1 \<le> p * 255" by simp
    have "(p + q) / 2 \<le> lightnessOf (mk_tc (r * 255) (g * 255) (b * 255))"
      using ch(6-11) ch(12) p1 ch(4) by (rule lightness_lower)
    then show ?thesis using ch(5) l''(1) by (simp add: t)
  qed
  from a b show ?thesis by blast
qed

lemma tinycolor_hsl_dark:
  assumes l: "0 \<le> l" "l \<le> 1"
  shows "(l = 0 \<longrightarrow> tinycolor_hsl h s l = blackTc)
       \<and> (l \<le> 49 / 100 \<longrightarrow> lightnessOf (tinycolor_hsl h s l) \<le> l + 1 / 510)"
proof -
  define H where "H = bound01 h 360"
  define S where "S = bound01_unit s 100"
  define l'' where "l'' = bound01_unit l 100"
  have H: "0 \<le> H" "H \<le> 1" using bound01_range [of 360 h] by (simp_all add: H_def)
  have S: "0 \<le> S" "S \<le> 1" using bound01_unit_range [of s] by (simp_all add: S_def)
  have l'': "l'' \<le> l" "0 \<le> l''" "l'' \<le> 1"
    using bound01_unit_bounds [OF l] bound01_unit_range [of l] by (simp_all add: l''_def)
  obtain p q r g b where ch: "hslToRgb H S l'' = (r * 255, g * 255, b * 255)"
    "0 \<le> p" "p \<le> q" "q \<le> 1" "p + q = 2 * l''" "q \<le> l'' + S * l''"
    "p \<le> r" "r \<le> q" "p \<le> g" "g \<le> q" "p \<le> b" "b \<le> q" "r = p \<or> g = p \<or> b = p"
    using hslToRgb_channels [OF H S l''(2,3)] by blast
  have t: "tinycolor_hsl h s l = mk_tc (r * 255) (g * 255) (b * 255)"
    by (simp add: tinycolor_hsl_def H_def [symmetric] S_def [symmetric] l''_def [symmetric] ch(1))
  have a: "tinycolor_hsl h s l = blackTc" if "l = 0"
  proof -
    have "l'' = 0" using that l'' by simp
    with ch have "p = 0" "q = 0" by simp_all
    with ch have "r = 0" "g = 0" "b = 0" by simp_all
    then show ?thesis
      by (simp add: t mk_tc_def tc_channel_def js_round_def blackTc_def)
  qed
  have b: "lightnessOf (tinycolor_hsl h s l) \<le> l + 1 / 510" if "l \<le> 49 / 100"
  proof -
    have "S * l'' \<le> 1 * l''" using S l''(2) by (intro mult_right_mono) simp_all
    then have "q \<le> 2 * l''" using ch(6) by simp
    then have "q \<le> 98 / 100" using l''(1) that by simp
    then have q: "q * 255 \<le> 253" by simp
    have "lightnessOf (mk_tc (r * 255) (g * 255) (b * 255)) \<le> (p + q) / 2 + 1 / 510"
      using ch(7-12) ch(13) ch(2) q by (rule lightness_upper)
    then show ?thesis using ch(5) l''(1) by (simp add: t)
  qed
  from a b show ?thesis by blast
qed

lemma clamp01_range: "0 \<le> clamp01 x \<and> clamp01 x \<le> 1"
  by (simp add: clamp01_def)

lemma lighten_eq: "lighten c a = tinycolor_hsl (fst (toHsl c)) (fst (snd (toHsl c))) (clamp01 (lightnessOf c + a / 100))"
  by (simp add: lighten_def lightnessOf_def split: prod.splits)

lemma darken_eq: "darken c a = tinycolor_hsl (fst (toHsl c)) (fst (snd (toHsl c))) (clamp01 (lightnessOf c - a / 100))"
  by (simp add: darken_def lightnessOf_def split: prod.splits)

lemma lighten_white:
  assumes "1 \<le> lightnessOf c + a / 100"
  shows "lighten c a = whiteTc"
proof -
  have "clamp01 (lightnessOf c + a / 100) = 1" using assms by (simp add: clamp01_def)
  then show ?thesis
    unfolding lighten_eq using tinycolor_hsl_light [of 1] by simp
qed

lemma lighten_progress:
  assumes "lightnessOf c + a / 100 < 1" "51 / 100 \<le> lightnessOf c + a / 100"
  shows "lightnessOf c + a / 100 - 1 / 10000 \<le> lightnessOf (lighten c a)"
proof -
  have c: "clamp01 (lightnessOf c + a / 100) = lightnessOf c + a / 100"
    using assms by (simp add: clamp01_def)
  show ?thesis
    unfolding lighten_eq c
    using tinycolor_hsl_light [of "lightnessOf c + a / 100"] assms by simp
qed

lemma darken_black:
  assumes "lightnessOf c - a / 100 \<le> 0"
  shows "darken c a = blackTc"
proof -
  have "clamp01 (lightnessOf c - a / 100) = 0" using assms by (simp add: clamp01_def)
  then show ?thesis
    unfolding darken_eq using tinycolor_hsl_dark [of 0] by simp
qed

lemma darken_progress:
  assumes "0 \<le> lightnessOf c - a / 100" "lightnessOf c - a / 100 \<le> 49 / 100"
  shows "lightnessOf (darken c a) \<le> lightnessOf c - a / 100 + 1 / 510"
proof -
  have c: "clamp01 (lightnessOf c - a / 100) = lightnessOf c - a / 100"
    using assms by (simp add: clamp01_def)
  show ?thesis
    unfolding darken_eq c
    using tinycolor_hsl_dark [of "lightnessOf c - a / 100"] assms by simp
qed

lemma step_white: "contrastStep True whiteTc = whiteTc"
  unfolding contrastStep_def using lighten_white [of whiteTc 1] by (simp add: lightnessOf_white)

lemma step_black: "contrastStep False blackTc = blackTc"
  unfolding contrastStep_def using darken_black [of blackTc 1] by (simp add: lightnessOf_black)

lemma funpow_white: "(contrastStep True ^^ k) whiteTc = whiteTc"
  by (induction k) (simp_all add: step_white)

lemma funpow_black: "(contrastStep False ^^ k) blackTc = blackTc"
  by (induction k) (simp_all add: step_black)

lemma lighten_steps_invariant:
  assumes "7 / 10 \<le> lightnessOf c"
  shows "(contrastStep True ^^ k) c = whiteTc
         \<or> 7 / 10 + real k * (99 / 10000) \<le> lightnessOf ((contrastStep True ^^ k) c)"
proof (induction k)
  case 0
  then show ?case using assms by simp
next
  case (Suc k)
  define x where "x = (contrastStep True ^^ k) c"
  have s: "(contrastStep True ^^ Suc k) c = lighten x 1" by (simp add: x_def contrastStep_def)
  from Suc consider "x = whiteTc" | "7 / 10 + real k * (99 / 10000) \<le> lightnessOf x"
    unfolding x_def by blast
  then show ?case
  proof cases
    case 1
    then have "lighten x 1 = whiteTc" using step_white by (simp add: contrastStep_def)
    then show ?thesis by (simp only: s) blast
  next
    case 2
    show ?thesis
    proof (cases "1 \<le> lightnessOf x + 1 / 100")
      case True
      then have "lighten x 1 = whiteTc" by (rule lighten_white)
      then show ?thesis by (simp only: s) blast
    next
      case False
      have k0: "0 \<le> real k * (99 / 10000)" by simp
      have "lightnessOf x + 1 / 100 - 1 / 10000 \<le> lightnessOf (lighten x 1)"
        using False 2 k0 by (intro lighten_progress) simp_all
      moreover have "real (Suc k) * (99 / 10000) = real k * (99 / 10000) + 99 / 10000"
        by (simp add: algebra_simps)
      ultimately have "7 / 10 + real (Suc k) * (99 / 10000) \<le> lightnessOf (lighten x 1)"
        using 2 by argo
      then show ?thesis by (simp only: s) blast
    qed
  qed
qed

lemma lighten_steps_white:
  assumes "7 / 10 \<le> lightnessOf c" "31 \<le> k"
  shows "(contrastStep True ^^ k) c = whiteTc"
proof -
  have "real k * (99 / 10000) \<ge> 31 * (99 / 10000)" using assms(2) by simp
  then have "1 < 7 / 10 + real k * (99 / 10000)" by simp
  moreover have "lightnessOf ((contrastStep True ^^ k) c) \<le> 1" using lightnessOf_range by blast
  ultimately show ?thesis using lighten_steps_invariant [OF assms(1), of k] by linarith
qed

lemma darken_steps_invariant:
  assumes "lightnessOf c \<le> 3 / 10"
  shows "(contrastStep False ^^ k) c = blackTc
         \<or> lightnessOf ((contrastStep False ^^ k) c) \<le> 3 / 10 - real k * (8 / 1000)"
proof (induction k)
  case 0
  then show ?case using assms by simp
next
  case (Suc k)
  define x where "x = (contrastStep False ^^ k) c"
  have s: "(contrastStep False ^^ Suc k) c = darken x 1" by (simp add: x_def contrastStep_def)
  from Suc consider "x = blackTc" | "lightnessOf x \<le> 3 / 10 - real k * (8 / 1000)"
    unfolding x_def by blast
  then show ?case
  proof cases
    case 1
    then have "darken x 1 = blackTc" using step_black by (simp add: contrastStep_def)
    then show ?thesis by (simp only: s) blast
  next
    case 2
    show ?thesis
    proof (cases "lightnessOf x - 1 / 100 \<le> 0")
      case True
      then have "darken x 1 = blackTc" by (rule darken_black)
      then show ?thesis by (simp only: s) blast
    next
      case False
      have k0: "0 \<le> real k * (8 / 1000)" by simp
      have "lightnessOf (darken x 1) \<le> lightnessOf x - 1 / 100 + 1 / 510"
        using False 2 k0 by (intro darken_progress) simp_all
      moreover have "real (Suc k) * (8 / 1000) = real k * (8 / 1000) + 8 / 1000"
        by (simp add: algebra_simps)
      ultimately have "lightnessOf (darken x 1) \<le> 3 / 10 - real (Suc k) * (8 / 1000)"
        using 2 by argo
      then show ?thesis by (simp only: s) blast
    qed
  qed
qed

lemma darken_steps_black:
  assumes "lightnessOf c \<le> 3 / 10" "38 \<le> k"
  shows "(contrastStep False ^^ k) c = blackTc"
proof -
  have "real k * (8 / 1000) \<ge> 38 * (8 / 1000)" using assms(2) by simp
  then have "3 / 10 - real k * (8 / 1000) < 0" by simp
  moreover have "0 \<le> lightnessOf ((contrastStep False ^^ k) c)" using lightnessOf_range by blast
  ultimately show ?thesis using darken_steps_invariant [OF assms(1), of k] by linarith
qed

lemma inRange_lighten: "inRange (lighten c a)"
  by (simp add: lighten_def tinycolor_hsl_def inRange_mk_tc split: prod.splits)

lemma inRange_darken: "inRange (darken c a)"
  by (simp add: darken_def tinycolor_hsl_def inRange_mk_tc split: prod.splits)

lemma tint_lightness:
  assumes "72 \<le> a"
  shows "7 / 10 \<le> lightnessOf (tinycolor (toHexString (lighten c a)))"
proof -
  have l0: "0 \<le> lightnessOf c" using lightnessOf_range by blast
  have "717 / 1000 \<le> lightnessOf (lighten c a)"
  proof (cases "1 \<le> lightnessOf c + a / 100")
    case True
    then have "lighten c a = whiteTc" by (rule lighten_white)
    then show ?thesis by (simp add: lightnessOf_white)
  next
    case False
    have "lightnessOf c + a / 100 - 1 / 10000 \<le> lightnessOf (lighten c a)"
      using False l0 assms by (intro lighten_progress) simp_all
    then show ?thesis using l0 assms by simp
  qed
  then show ?thesis
    using lightness_roundtrip(1) [OF inRange_lighten, of c a] by simp
qed

lemma shade_lightness:
  assumes "72 \<le> a"
  shows "lightnessOf (tinycolor (toHexString (darken c a))) \<le> 3 / 10"
proof -
  have l1: "lightnessOf c \<le> 1" using lightnessOf_range by blast
  have "lightnessOf (darken c a) \<le> 29 / 100"
  proof (cases "lightnessOf c - a / 100 \<le> 0")
    case True
    then have "darken c a = blackTc" by (rule darken_black)
    then show ?thesis by (simp add: lightnessOf_black)
  next
    case False
    have "lightnessOf (darken c a) \<le> lightnessOf c - a / 100 + 1 / 510"
      using False l1 assms by (intro darken_progress) simp_all
    then show ?thesis using l1 assms by simp
  qed
  then show ?thesis
    using lightness_roundtrip(2) [OF inRange_darken, of c a] by simp
qed

section \<open>Backgrounds and the extreme colours\<close>

lemma linearize_small:
  assumes "0 \<le> x" "x \<le> 1 / 4"
  shows "linearize x \<le> 1 / 10"
proof (cases "x \<le> 0.03928")
  case True
  then show ?thesis by (simp add: linearize_def)
next
  case False
  define y where "y = (x + 0.055) / 1.055"
  have y: "0 \<le> y" "y \<le> 3 / 10" using assms by (simp_all add: y_def)
  have "y powr 2.4 \<le> y powr 2" using y by (intro powr_mono') simp_all
  also have "\<dots> = y\<^sup>2" using y by simp
  also have "\<dots> \<le> (3 / 10)\<^sup>2" using y by (intro power_mono) simp_all
  also have "\<dots> \<le> 1 / 10" by (simp add: power2_eq_square)
  finally show ?thesis using False by (simp add: linearize_def y_def)
qed

lemma linearize_large:
  assumes "3 / 4 \<le> x" "x \<le> 1"
  shows "2 / 5 \<le> linearize x"
proof -
  define y where "y = (x + 0.055) / 1.055"
  have y: "3 / 4 \<le> y" "y \<le> 1" using assms by (simp_all add: y_def)
  have "2 / 5 \<le> (3 / 4 :: real) ^ 3" by (simp add: power3_eq_cube)
  also have "\<dots> \<le> y ^ 3" using y by (intro power_mono) simp_all
  also have "\<dots> = y powr 3" using y by simp
  also have "\<dots> \<le> y powr 2.4" using y by (intro powr_mono') simp_all
  finally show ?thesis using assms by (simp add: linearize_def y_def)
qed

lemma dark_channels:
  assumes "inRange c" "tc_r c \<le> 63" "tc_g c \<le> 63" "tc_b c \<le> 63"
  shows "isDark c" "getLuminance c \<le> 1 / 10"
proof -
  have r: "0 \<le> js_round x \<and> js_round x \<le> 63
           \<and> linearize (real_of_int (js_round x) / 255) \<le> 1 / 10" if "0 \<le> x" "x \<le> 63" for x
  proof -
    have a: "0 \<le> js_round x" "js_round x \<le> 63"
      using that unfolding js_round_def by (simp_all add: floor_le_iff le_floor_iff)
    then have "0 \<le> real_of_int (js_round x) / 255" "real_of_int (js_round x) / 255 \<le> 1 / 4"
      by simp_all
    then show ?thesis using a linearize_small by blast
  qed
  note rr = r [of "tc_r c"] and rg = r [of "tc_g c"] and rb = r [of "tc_b c"]
  have rng: "0 \<le> tc_r c" "0 \<le> tc_g c" "0 \<le> tc_b c" using assms(1) by (simp_all add: inRange_def)
  show "isDark c"
    using rr rg rb rng assms(2-4) by (simp add: isDark_def getBrightness_def toRgb_def)
  show "getLuminance c \<le> 1 / 10"
    using rr rg rb rng assms(2-4) by (simp add: getLuminance_def toRgb_def)
qed

lemma light_channels:
  assumes "inRange c" "192 \<le> tc_r c" "192 \<le> tc_g c" "192 \<le> tc_b c"
  shows "\<not> isDark c" "2 / 5 \<le> getLuminance c"
proof -
  have r: "192 \<le> js_round x \<and> js_round x \<le> 255
           \<and> 2 / 5 \<le> linearize (real_of_int (js_round x) / 255)" if "192 \<le> x" "x \<le> 255" for x
  proof -
    have a: "192 \<le> js_round x" "js_round x \<le> 255"
      using that unfolding js_round_def by (simp_all add: floor_le_iff le_floor_iff)
    then have "3 / 4 \<le> real_of_int (js_round x) / 255" "real_of_int (js_round x) / 255 \<le> 1"
      by simp_all
    then show ?thesis using a linearize_large by blast
  qed
  have rng: "tc_r c \<le> 255" "tc_g c \<le> 255" "tc_b c \<le> 255" using assms(1) by (simp_all add: inRange_def)
  note rr = r [OF assms(2) rng(1)] and rg = r [OF assms(3) rng(2)] and rb = r [OF assms(4) rng(3)]
  show "\<not> isDark c"
    using rr rg rb by (simp add: isDark_def getBrightness_def toRgb_def)
  show "2 / 5 \<le> getLuminance c"
    using rr rg rb by (simp add: getLuminance_def toRgb_def)
qed

lemma readability_white_max:
  assumes "getLuminance (tinycolor bg) \<le> 1 / 10"
  shows "readability x bg \<le> readability ''#ffffff'' bg"
proof -
  define a where "a = getLuminance (tinycolor x)"
  define b where "b = getLuminance (tinycolor bg)"
  have a: "0 \<le> a" "a \<le> 1" using luminance_range [OF inRange_tinycolor, of x] by (simp_all add: a_def)
  have b: "0 \<le> b" "b \<le> 1 / 10"
    using luminance_range [OF inRange_tinycolor, of bg] assms by (simp_all add: b_def)
  have w: "readability ''#ffffff'' bg = (1 + 1 / 20) / (b + 1 / 20)"
    using b by (simp add: readability_eq luminance_white b_def max_def min_def)
  have "(max a b + 1 / 20) / (min a b + 1 / 20) \<le> (1 + 1 / 20) / (b + 1 / 20)"
  proof (cases "b \<le> a")
    case True
    have "(a + 1 / 20) / (b + 1 / 20) \<le> (1 + 1 / 20) / (b + 1 / 20)"
      using a b by (intro divide_right_mono) simp_all
    then show ?thesis using True by (simp only: max_absorb1 min_absorb2)
  next
    case False
    have "(b + 1 / 20) / (a + 1 / 20) \<le> 3" using a b by (simp add: field_simps)
    also have "\<dots> \<le> (1 + 1 / 20) / (b + 1 / 20)" using b by (simp add: field_simps)
    finally have "(b + 1 / 20) / (a + 1 / 20) \<le> (1 + 1 / 20) / (b + 1 / 20)" .
    moreover have "a \<le> b" using False by simp
    ultimately show ?thesis by (simp only: max_absorb2 min_absorb1)
  qed
  then show ?thesis unfolding w by (simp add: readability_eq a_def b_def)
qed

lemma readability_black_max:
  assumes "2 / 5 \<le> getLuminance (tinycolor bg)"
  shows "readability x bg \<le> readability ''#000000'' bg"
proof -
  define a where "a = getLuminance (tinycolor x)"
  define b where "b = getLuminance (tinycolor bg)"
  have a: "0 \<le> a" "a \<le> 1" using luminance_range [OF inRange_tinycolor, of x] by (simp_all add: a_def)
  have b: "2 / 5 \<le> b" "b \<le> 1"
    using luminance_range [OF inRange_tinycolor, of bg] assms by (simp_all add: b_def)
  have w: "readability ''#000000'' bg = (b + 1 / 20) / (1 / 20)"
    using b by (simp add: readability_eq luminance_black b_def max_def min_def)
  have "(max a b + 1 / 20) / (min a b + 1 / 20) \<le> (b + 1 / 20) / (1 / 20)"
  proof (cases "a \<le> b")
    case True
    have "(b + 1 / 20) / (a + 1 / 20) \<le> (b + 1 / 20) / (1 / 20)"
      using a b by (intro divide_left_mono) simp_all
    then show ?thesis using True by (simp only: max_absorb2 min_absorb1)
  next
    case False
    have "(a + 1 / 20) / (b + 1 / 20) \<le> 9" using a b by (simp add: field_simps)
    also have "\<dots> \<le> (b + 1 / 20) / (1 / 20)" using b by (simp add: field_simps)
    finally have "(a + 1 / 20) / (b + 1 / 20) \<le> (b + 1 / 20) / (1 / 20)" .
    moreover have "b \<le> a" using False by simp
    ultimately show ?thesis by (simp only: max_absorb1 min_absorb2)
  qed
  then show ?thesis unfolding w by (simp add: readability_eq a_def b_def)
qed

lemma readability_le_21: "readability x y \<le> 21"
proof -
  define a where "a = getLuminance (tinycolor x)"
  define b where "b = getLuminance (tinycolor y)"
  have a: "0 \<le> a" "a \<le> 1" using luminance_range [OF inRange_tinycolor, of x] by (simp_all add: a_def)
  have b: "0 \<le> b" "b \<le> 1" using luminance_range [OF inRange_tinycolor, of y] by (simp_all add: b_def)
  have "(max a b + 1 / 20) / (min a b + 1 / 20) \<le> 21"
    using a b by (simp add: field_simps max_def min_def)
  then show ?thesis by (simp add: readability_eq a_def b_def)
qed

lemma toHexString_white: "toHexString whiteTc = ''#ffffff''"
  by (simp add: whiteTc_def toHexString_def js_round_def pad2_def hexDigitChar_def)

lemma toHexString_black: "toHexString blackTc = ''#000000''"
  by (simp add: blackTc_def toHexString_def js_round_def pad2_def hexDigitChar_def toString16.simps)

section \<open>The text slots of the role assignment\<close>

lemma tinycolor_hsl_low:
  assumes "0 \<le> l" "l \<le> 1 / 10"
  shows "tc_r (tinycolor_hsl h s l) \<le> 63 \<and> tc_g (tinycolor_hsl h s l) \<le> 63
         \<and> tc_b (tinycolor_hsl h s l) \<le> 63"
proof -
  define H where "H = bound01 h 360"
  define S where "S = bound01_unit s 100"
  define L where "L = bound01_unit l 100"
  have H: "0 \<le> H" "H \<le> 1" using bound01_range [of 360 h] by (simp_all add: H_def)
  have S: "0 \<le> S" "S \<le> 1" using bound01_unit_range [of s] by (simp_all add: S_def)
  have L: "0 \<le> L" "L \<le> 1 / 10"
    using bound01_unit_range [of l] bound01_unit_bounds(2) [of l] assms by (simp_all add: L_def)
  then have L1: "L \<le> 1" by simp
  obtain p q r g b where c: "hslToRgb H S L = (r * 255, g * 255, b * 255)"
    "0 \<le> p" "p \<le> q" "q \<le> 1" "p + q = 2 * L"
    "p \<le> r" "r \<le> q" "p \<le> g" "g \<le> q" "p \<le> b" "b \<le> q"
    using hslToRgb_channels [OF H S L(1) L1] by blast
  have q: "q \<le> 1 / 5" using c(2,5) L by simp
  have ch: "tc_channel (x * 255) \<le> 63" if "x \<le> q" for x
  proof -
    have "x * 255 \<le> 51" using that q by simp
    then show ?thesis
      by (auto simp: tc_channel_def js_round_def Let_def min_def max_def floor_le_iff)
  qed
  show ?thesis
    using ch [OF c(7)] ch [OF c(9)] ch [OF c(11)]
    by (simp add: tinycolor_hsl_def H_def [symmetric] S_def [symmetric] L_def [symmetric] c(1) mk_tc_def)
qed

lemma tinycolor_hsl_high:
  assumes "9 / 10 \<le> l" "l \<le> 1"
  shows "192 \<le> tc_r (tinycolor_hsl h s l) \<and> 192 \<le> tc_g (tinycolor_hsl h s l)
         \<and> 192 \<le> tc_b (tinycolor_hsl h s l)"
proof -
  define H where "H = bound01 h 360"
  define S where "S = bound01_unit s 100"
  define L where "L = bound01_unit l 100"
  have H: "0 \<le> H" "H \<le> 1" using bound01_range [of 360 h] by (simp_all add: H_def)
  have S: "0 \<le> S" "S \<le> 1" using bound01_unit_range [of s] by (simp_all add: S_def)
  have L: "0 \<le> L" "L \<le> 1" "8999 / 10000 \<le> L"
    using bound01_unit_range [of l] bound01_unit_bounds(1) [of l] assms by (simp_all add: L_def)
  obtain p q r g b where c: "hslToRgb H S L = (r * 255, g * 255, b * 255)"
    "0 \<le> p" "p \<le> q" "q \<le> 1" "p + q = 2 * L"
    "p \<le> r" "r \<le> q" "p \<le> g" "g \<le> q" "p \<le> b" "b \<le> q"
    using hslToRgb_channels [OF H S L(1,2)] by blast
  have p: "7998 / 10000 \<le> p" using c(4,5) L by simp
  have ch: "192 \<le> tc_channel (x * 255)" if "p \<le> x" "x \<le> q" for x
  proof -
    have "192 \<le> x * 255" "x * 255 \<le> 255" using that p c(4) by simp_all
    then show ?thesis by (simp add: tc_channel_def Let_def min_def max_def)
  qed
  show ?thesis
    using ch [OF c(6,7)] ch [OF c(8,9)] ch [OF c(10,11)]
    by (simp add: tinycolor_hsl_def H_def [symmetric] S_def [symmetric] L_def [symmetric] c(1) mk_tc_def)
qed

lemma inRange_tinycolor_hsl: "inRange (tinycolor_hsl h s l)"
  by (simp add: tinycolor_hsl_def inRange_mk_tc split: prod.splits)

lemma background_dark:
  "isDark (tinycolor (chooseBackground vibeBase vibe Dark))
   \<and> getLuminance (tinycolor (chooseBackground vibeBase vibe Dark)) \<le> 1 / 10"
proof -
  obtain h s l where hsl: "toHsl (tinycolor vibeBase) = (h, s, l)" by (cases "toHsl (tinycolor vibeBase)")
  define c where "c = tinycolor_hsl h (min s 0.2) 0.08"
  have bg: "chooseBackground vibeBase vibe Dark = toHexString c"
    by (simp add: chooseBackground_def hsl c_def)
  have r: "inRange c" by (simp add: c_def inRange_tinycolor_hsl)
  have "tc_r c \<le> 63 \<and> tc_g c \<le> 63 \<and> tc_b c \<le> 63"
    unfolding c_def by (rule tinycolor_hsl_low) simp_all
  then have "isDark c" "getLuminance c \<le> 1 / 10" using dark_channels [OF r] by simp_all
  then show ?thesis
    by (simp add: bg luminance_roundtrip [OF r] brightness_roundtrip [OF r])
qed

lemma background_light:
  "\<not> isDark (tinycolor (chooseBackground vibeBase vibe Light))
   \<and> 2 / 5 \<le> getLuminance (tinycolor (chooseBackground vibeBase vibe Light))"
proof -
  obtain h s l where hsl: "toHsl (tinycolor vibeBase) = (h, s, l)" by (cases "toHsl (tinycolor vibeBase)")
  define c where "c = tinycolor_hsl h (min s 0.1) 0.98"
  have bg: "chooseBackground vibeBase vibe Light = toHexString c"
    by (simp add: chooseBackground_def hsl c_def)
  have r: "inRange c" by (simp add: c_def inRange_tinycolor_hsl)
  have "192 \<le> tc_r c \<and> 192 \<le> tc_g c \<and> 192 \<le> tc_b c"
    unfolding c_def by (rule tinycolor_hsl_high) simp_all
  then have "\<not> isDark c" "2 / 5 \<le> getLuminance c" using light_channels [OF r] by simp_all
  then show ?thesis
    by (simp add: bg luminance_roundtrip [OF r] brightness_roundtrip [OF r])
qed

lemma tinycolor_FDF8F1: "tinycolor ''#FDF8F1'' = \<lparr>tc_r = 253, tc_g = 248, tc_b = 241\<rparr>"
  by (simp add: tc_eval hex_eval)

lemma tinycolor_F3F4F6: "tinycolor ''#F3F4F6'' = \<lparr>tc_r = 243, tc_g = 244, tc_b = 246\<rparr>"
  by (simp add: tc_eval hex_eval)

lemma tinycolor_F9FAFB: "tinycolor ''#F9FAFB'' = \<lparr>tc_r = 249, tc_g = 250, tc_b = 251\<rparr>"
  by (simp add: tc_eval hex_eval)

lemma background_mixed:
  "\<not> isDark (tinycolor (chooseBackground vibeBase vibe Mixed))
   \<and> 2 / 5 \<le> getLuminance (tinycolor (chooseBackground vibeBase vibe Mixed))"
proof -
  have l: "\<not> isDark \<lparr>tc_r = r, tc_g = g, tc_b = b\<rparr> \<and> 2 / 5 \<le> getLuminance \<lparr>tc_r = r, tc_g = g, tc_b = b\<rparr>"
    if "192 \<le> r" "r \<le> 255" "192 \<le> g" "g \<le> 255" "192 \<le> b" "b \<le> 255" for r g b
    using light_channels [of "\<lparr>tc_r = r, tc_g = g, tc_b = b\<rparr>"] that by (simp add: inRange_def)
  obtain h s l where hsl: "toHsl (tinycolor vibeBase) = (h, s, l)" by (cases "toHsl (tinycolor vibeBase)")
  have "chooseBackground vibeBase vibe Mixed = ''#FDF8F1''
        \<or> chooseBackground vibeBase vibe Mixed = ''#F3F4F6''
        \<or> chooseBackground vibeBase vibe Mixed = ''#F9FAFB''"
    unfolding chooseBackground_def hsl by simp
  then consider "chooseBackground vibeBase vibe Mixed = ''#FDF8F1''"
    | "chooseBackground vibeBase vibe Mixed = ''#F3F4F6''"
    | "chooseBackground vibeBase vibe Mixed = ''#F9FAFB''"
    by blast
  then show ?thesis
  proof cases
    case 1
    show ?thesis unfolding 1 tinycolor_FDF8F1 by (rule l) simp_all
  next
    case 2
    show ?thesis unfolding 2 tinycolor_F3F4F6 by (rule l) simp_all
  next
    case 3
    show ?thesis unfolding 3 tinycolor_F9FAFB by (rule l) simp_all
  qed
qed

lemma stepped_0: "readability (stepped fg bg 0) bg = readability fg bg"
  by (simp add: stepped_def readability_eq luminance_roundtrip [OF inRange_tinycolor])

lemma ensureContrast_stepped:
  assumes "readability fg bg < t"
  shows "\<exists>k \<le> 100. ensureContrast fg bg t = stepped fg bg k
           \<and> (\<forall>j < k. readability (stepped fg bg j) bg < t)
           \<and> (k < 100 \<longrightarrow> t \<le> readability (stepped fg bg k) bg)"
proof -
  obtain k where k: "0 + k \<le> 100"
    "ensureContrast_loop bg t (isDark (tinycolor bg)) (tinycolor fg) 0
       = ((contrastStep (isDark (tinycolor bg)) ^^ k) (tinycolor fg), 0 + k)"
    "\<forall>j < k. readability (toHexString ((contrastStep (isDark (tinycolor bg)) ^^ j) (tinycolor fg))) bg < t"
    "0 + k < 100 \<longrightarrow>
       \<not> readability (toHexString ((contrastStep (isDark (tinycolor bg)) ^^ k) (tinycolor fg))) bg < t"
    using loop_result [of 0 bg t "isDark (tinycolor bg)" "tinycolor fg"] by auto
  have "ensureContrast fg bg t = stepped fg bg k"
    using assms k(2) by (simp add: ensureContrast_def stepped_def)
  with k(1,3,4) show ?thesis by (intro exI [of _ k]) (auto simp: stepped_def)
qed

lemma ensureContrast_reaches:
  assumes "reachable fg bg t"
  shows "t \<le> readability (ensureContrast fg bg t) bg"
proof (cases "t \<le> readability fg bg")
  case True
  then show ?thesis by (simp add: ensureContrast_def)
next
  case False
  then obtain k where k: "k \<le> 100" "ensureContrast fg bg t = stepped fg bg k"
    "\<forall>j < k. readability (stepped fg bg j) bg < t"
    "k < 100 \<longrightarrow> t \<le> readability (stepped fg bg k) bg"
    using ensureContrast_stepped [of fg bg t] by auto
  from assms obtain m where m: "m \<le> 100" "t \<le> readability (stepped fg bg m) bg"
    by (auto simp: reachable_def)
  show ?thesis
  proof (cases "k < 100")
    case True
    with k(2,4) show ?thesis by simp
  next
    case False
    with k(1) have "k = 100" by simp
    with k(3) m have "m = 100" by (cases "m < 100") (auto simp: not_less)
    with m(2) k(2) \<open>k = 100\<close> show ?thesis by simp
  qed
qed

lemma ensureContrast_cap:
  assumes "\<not> reachable fg bg t"
  shows "ensureContrast fg bg t = stepped fg bg 100"
proof -
  have all: "readability (stepped fg bg k) bg < t" if "k \<le> 100" for k
    using assms that by (auto simp: reachable_def not_le)
  from all [of 0] have "readability fg bg < t" by (simp add: stepped_0)
  then obtain k where k: "k \<le> 100" "ensureContrast fg bg t = stepped fg bg k"
    "k < 100 \<longrightarrow> t \<le> readability (stepped fg bg k) bg"
    using ensureContrast_stepped [of fg bg t] by auto
  have "k = 100" using k(1,3) all [of k] by (cases "k < 100") auto
  with k(2) show ?thesis by simp
qed

lemma stepped_tint:
  assumes "isDark (tinycolor bg)" "72 \<le> a"
  shows "stepped (toHexString (lighten c a)) bg 100 = ''#ffffff''"
  using lighten_steps_white [OF tint_lightness [OF assms(2), of c], of 100] assms(1)
  by (simp add: stepped_def toHexString_white)

lemma stepped_shade:
  assumes "\<not> isDark (tinycolor bg)" "72 \<le> a"
  shows "stepped (toHexString (darken c a)) bg 100 = ''#000000''"
  using darken_steps_black [OF shade_lightness [OF assms(2), of c], of 100] assms(1)
  by (simp add: stepped_def toHexString_black)

lemma maxAchieved_eq:
  assumes "\<And>x. readability x bg \<le> readability (stepped cand bg 100) bg"
  shows "maxAchieved cand bg = readability (stepped cand bg 100) bg"
  unfolding maxAchieved_def
proof (rule Max_eqI)
  show "finite ((\<lambda>k. readability (stepped cand bg k) bg) ` {..100})" by simp
  show "y \<le> readability (stepped cand bg 100) bg"
    if "y \<in> (\<lambda>k. readability (stepped cand bg k) bg) ` {..100}" for y
    using that assms by auto
  show "readability (stepped cand bg 100) bg \<in> (\<lambda>k. readability (stepped cand bg k) bg) ` {..100}"
    by (rule image_eqI [of _ _ 100]) simp_all
qed

lemma text_slot_tint:
  assumes "isDark (tinycolor bg)" "getLuminance (tinycolor bg) \<le> 1 / 10" "72 \<le> a"
  shows "\<not> reachable (toHexString (lighten c a)) bg t \<Longrightarrow>
           readability (ensureContrast (toHexString (lighten c a)) bg t) bg
             = maxAchieved (toHexString (lighten c a)) bg"
proof -
  assume n: "\<not> reachable (toHexString (lighten c a)) bg t"
  have "maxAchieved (toHexString (lighten c a)) bg
          = readability (stepped (toHexString (lighten c a)) bg 100) bg"
    by (rule maxAchieved_eq) (simp add: stepped_tint [OF assms(1,3)] readability_white_max [OF assms(2)])
  then show ?thesis by (simp add: ensureContrast_cap [OF n])
qed

lemma text_slot_shade:
  assumes "\<not> isDark (tinycolor bg)" "2 / 5 \<le> getLuminance (tinycolor bg)" "72 \<le> a"
  shows "\<not> reachable (toHexString (darken c a)) bg t \<Longrightarrow>
           readability (ensureContrast (toHexString (darken c a)) bg t) bg
             = maxAchieved (toHexString (darken c a)) bg"
proof -
  assume n: "\<not> reachable (toHexString (darken c a)) bg t"
  have "maxAchieved (toHexString (darken c a)) bg
          = readability (stepped (toHexString (darken c a)) bg 100) bg"
    by (rule maxAchieved_eq) (simp add: stepped_shade [OF assms(1,3)] readability_black_max [OF assms(2)])
  then show ?thesis by (simp add: ensureContrast_cap [OF n])
qed

lemma background_cases:
  "(isDark (tinycolor (chooseBackground vibeBase vibe brightness))
      \<and> getLuminance (tinycolor (chooseBackground vibeBase vibe brightness)) \<le> 1 / 10)
   \<or> (\<not> isDark (tinycolor (chooseBackground vibeBase vibe brightness))
        \<and> 2 / 5 \<le> getLuminance (tinycolor (chooseBackground vibeBase vibe brightness)))"
  using background_dark [of vibeBase vibe] background_light [of vibeBase vibe]
    background_mixed [of vibeBase vibe]
  by (cases brightness) simp_all

lemma tints_nth:
  "generateTints b 8 ! 7 = toHexString (lighten (tinycolor b) 96)"
  "generateTints b 8 ! 5 = toHexString (lighten (tinycolor b) 72)"
  by (simp_all add: generateTints_def)

lemma shades_nth:
  "generateShades b 8 ! 7 = toHexString (darken (tinycolor b) 96)"
  "generateShades b 8 ! 5 = toHexString (darken (tinycolor b) 72)"
  by (simp_all add: generateShades_def)

lemma text_slot_maximum:
  assumes "idx = 7 \<or> idx = 5"
    and "\<not> reachable (rampCandidate hex vibe brightness idx)
             (chooseBackground (applyVibeToPalette hex vibe) vibe brightness) t"
  shows "readability (ensureContrast (rampCandidate hex vibe brightness idx)
                        (chooseBackground (applyVibeToPalette hex vibe) vibe brightness) t)
           (chooseBackground (applyVibeToPalette hex vibe) vibe brightness)
         = maxAchieved (rampCandidate hex vibe brightness idx)
             (chooseBackground (applyVibeToPalette hex vibe) vibe brightness)"
proof -
  define vb where "vb = applyVibeToPalette hex vibe"
  define bg where "bg = chooseBackground vb vibe brightness"
  note n = assms(2) [folded vb_def, folded bg_def]
  from background_cases [of vb vibe brightness]
  consider "isDark (tinycolor bg)" "getLuminance (tinycolor bg) \<le> 1 / 10"
    | "\<not> isDark (tinycolor bg)" "2 / 5 \<le> getLuminance (tinycolor bg)"
    unfolding bg_def by blast
  then have "readability (ensureContrast (rampCandidate hex vibe brightness idx) bg t) bg
               = maxAchieved (rampCandidate hex vibe brightness idx) bg"
  proof cases
    case 1
    define a :: real where "a = (if idx = 7 then 96 else 72)"
    have a: "72 \<le> a"
      "rampCandidate hex vibe brightness idx = toHexString (lighten (tinycolor vb) a)"
      using assms(1) 1(1)
      by (auto simp: a_def rampCandidate_def Let_def vb_def [symmetric] bg_def [symmetric] tints_nth)
    show ?thesis using n unfolding a(2) by (rule text_slot_tint [OF 1 a(1)])
  next
    case 2
    define a :: real where "a = (if idx = 7 then 96 else 72)"
    have a: "72 \<le> a"
      "rampCandidate hex vibe brightness idx = toHexString (darken (tinycolor vb) a)"
      using assms(1) 2(1)
      by (auto simp: a_def rampCandidate_def Let_def vb_def [symmetric] bg_def [symmetric] shades_nth)
    show ?thesis using n unfolding a(2) by (rule text_slot_shade [OF 2 a(1)])
  qed
  then show ?thesis by (simp add: bg_def vb_def)
qed

lemma applyFromBase_slots:
  "background (applyFromBase hex vibe brightness t)
     = chooseBackground (applyVibeToPalette hex vibe) vibe brightness"
  "textHeading (applyFromBase hex vibe brightness t)
     = ensureContrast (rampCandidate hex vibe brightness 7)
         (chooseBackground (applyVibeToPalette hex vibe) vibe brightness) t"
  "textBody (applyFromBase hex vibe brightness t)
     = ensureContrast (rampCandidate hex vibe brightness 5)
         (chooseBackground (applyVibeToPalette hex vibe) vibe brightness) t"
  by (simp_all add: applyFromBase_def rampCandidate_def Let_def)

lemma not_reachable_above_21:
  assumes "21 < t"
  shows "\<not> reachable cand bg t"
proof
  assume "reachable cand bg t"
  then obtain k where "t \<le> readability (stepped cand bg k) bg" by (auto simp: reachable_def)
  with assms readability_le_21 [of "stepped cand bg k" bg] show False by simp
qed

text \<open>
  Claim C7. For every base colour, vibe, brightness preference and target ratio, the
  text slots of the role assignment, each corrected from its ramp candidate (index 7
  for the heading, 5 for the body; a tint when the background is dark, a shade
  otherwise): when one of the steps 0 to 100 of the correction has a contrast ratio
  against the background of at least the target, the slot has; otherwise the ratio of
  the slot is the largest ratio of these steps.
\<close>

theorem text_slots_meet_target_or_maximum:
  "(reachable (rampCandidate hex vibe brightness 7)
        (background (applyFromBase hex vibe brightness thr)) thr \<longrightarrow>
      thr \<le> readability (textHeading (applyFromBase hex vibe brightness thr))
              (background (applyFromBase hex vibe brightness thr)))
   \<and> (\<not> reachable (rampCandidate hex vibe brightness 7)
          (background (applyFromBase hex vibe brightness thr)) thr \<longrightarrow>
        readability (textHeading (applyFromBase hex vibe brightness thr))
            (background (applyFromBase hex vibe brightness thr))
          = maxAchieved (rampCandidate hex vibe brightness 7)
              (background (applyFromBase hex vibe brightness thr)))
   \<and> (reachable (rampCandidate hex vibe brightness 5)
          (background (applyFromBase hex vibe brightness thr)) thr \<longrightarrow>
        thr \<le> readability (textBody (applyFromBase hex vibe brightness thr))
                (background (applyFromBase hex vibe brightness thr)))
   \<and> (\<not> reachable (rampCandidate hex vibe brightness 5)
          (background (applyFromBase hex vibe brightness thr)) thr \<longrightarrow>
        readability (textBody (applyFromBase hex vibe brightness thr))
            (background (applyFromBase hex vibe brightness thr))
          = maxAchieved (rampCandidate hex vibe brightness 5)
              (background (applyFromBase hex vibe brightness thr)))"
  unfolding applyFromBase_slots
  using ensureContrast_reaches text_slot_maximum [of 7 hex vibe brightness thr]
    text_slot_maximum [of 5 hex vibe brightness thr]
  by blast

section \<open>A role assignment from black\<close>

lemma tinycolor_hsl_gray:
  assumes "1 \<le> k" "k \<le> 100"
  shows "tinycolor_hsl 0 0 (real k / 100) = grayLevel k"
proof -
  have z: "bound01_unit 0 100 = 0" using bound01_unit_level [of 0] by simp
  have h: "bound01 0 360 = 0" by (simp add: bound01_def)
  have l: "bound01_unit (real k / 100) 100 = real k / 100"
    using assms by (intro bound01_unit_level) simp
  have ch: "tc_channel (real k / 100 * 255) = grayChannel k"
    using assms by (intro tc_channel_gray) simp_all
  have "tinycolor_hsl 0 0 (real k / 100)
          = mk_tc (real k / 100 * 255) (real k / 100 * 255) (real k / 100 * 255)"
    unfolding tinycolor_hsl_def h z l hslToRgb_def by (simp only: refl if_True prod.case)
  also have "\<dots> = grayLevel k"
    unfolding mk_tc_def ch grayLevel_def ..
  finally show ?thesis .
qed

lemma grayLevel_0_black: "grayLevel 0 = blackTc"
  by (simp add: grayLevel_def grayChannel_def blackTc_def)

lemma tinycolor_000000: "tinycolor ''#000000'' = grayLevel 0"
  by (simp add: grayLevel_0)

lemma lighten_black:
  assumes "1 \<le> k" "k \<le> 100"
  shows "lighten (grayLevel 0) (real k) = grayLevel k"
proof -
  have t: "toHsl (grayLevel 0) = (0, 0, 0)" using toHsl_gray [of 0] by simp
  have c: "clamp01 (0 + real k / 100) = real k / 100"
    using assms by (simp add: clamp01_def min_def max_def)
  have "lighten (grayLevel 0) (real k) = tinycolor_hsl 0 0 (real k / 100)"
    unfolding lighten_def t prod.case c ..
  then show ?thesis by (simp add: tinycolor_hsl_gray [OF assms])
qed

lemma vibeBase_black: "applyVibeToPalette ''#000000'' Serious = ''#000000''"
proof -
  have l0: "lightnessOf (grayLevel 0) = 0" by (simp add: grayLevel_0_black lightnessOf_black)
  have d: "desaturate (grayLevel 0) 10 = blackTc"
    using tinycolor_hsl_dark [of 0 0 "clamp01 (0 - 10 / 100)"]
    by (simp add: desaturate_def toHsl_gray [of 0, simplified])
  have k: "darken blackTc 10 = blackTc"
    by (rule darken_black) (simp add: lightnessOf_black)
  show ?thesis
    by (simp add: applyVibeToPalette_def tinycolor_000000 d k toHexString_black)
qed

lemma toHexString_gray8: "toHexString (grayLevel 8) = ''#141414''"
  by (simp add: grayLevel_def grayChannel_def toHexString_def js_round_def pad2_def hexDigitChar_def)

lemma toHexString_gray96: "toHexString (grayLevel 96) = ''#f5f5f5''"
  by (simp add: grayLevel_def grayChannel_def toHexString_def js_round_def pad2_def hexDigitChar_def)

lemma toHexString_gray72: "toHexString (grayLevel 72) = ''#b8b8b8''"
  by (simp add: grayLevel_def grayChannel_def toHexString_def js_round_def pad2_def hexDigitChar_def)

lemma background_black: "chooseBackground ''#000000'' Serious Dark = ''#141414''"
proof -
  have "tinycolor_hsl 0 (min 0 0.2) 0.08 = grayLevel 8"
    using tinycolor_hsl_gray [of 8] by (simp add: min_def)
  then show ?thesis
    by (simp add: chooseBackground_def tinycolor_000000 toHsl_gray [of 0, simplified] toHexString_gray8)
qed

lemma tinycolor_141414: "tinycolor ''#141414'' = \<lparr>tc_r = 20, tc_g = 20, tc_b = 20\<rparr>"
  by (simp add: tc_eval hex_eval)

lemma tinycolor_f5f5f5: "tinycolor ''#f5f5f5'' = \<lparr>tc_r = 245, tc_g = 245, tc_b = 245\<rparr>"
  by (simp add: tc_eval hex_eval)

lemma tinycolor_b8b8b8: "tinycolor ''#b8b8b8'' = \<lparr>tc_r = 184, tc_g = 184, tc_b = 184\<rparr>"
  by (simp add: tc_eval hex_eval)

lemma isDark_141414: "isDark (tinycolor ''#141414'')"
  by (simp add: isDark_def getBrightness_def tinycolor_141414 toRgb_def js_round_def)

lemma candidates_black:
  "rampCandidate ''#000000'' Serious Dark 7 = ''#f5f5f5''"
  "rampCandidate ''#000000'' Serious Dark 5 = ''#b8b8b8''"
  using lighten_black [of 96] lighten_black [of 72]
  by (simp_all add: rampCandidate_def vibeBase_black background_black isDark_141414 tints_nth
      tinycolor_000000 toHexString_gray96 toHexString_gray72)

lemma linearize_le_sq:
  assumes "0.03928 < x" "x \<le> 1"
  shows "linearize x \<le> ((x + 0.055) / 1.055)\<^sup>2"
proof -
  define y where "y = (x + 0.055) / 1.055"
  have y: "0 \<le> y" "y \<le> 1" using assms by (simp_all add: y_def)
  have "y powr 2.4 \<le> y powr 2" using y by (intro powr_mono') simp_all
  also have "\<dots> = y\<^sup>2" using y by simp
  finally show ?thesis using assms(1) by (simp add: linearize_def y_def)
qed

lemma linearize_ge_root:
  assumes "0.03928 < x" "x \<le> 1" "0 \<le> r" "r\<^sup>2 \<le> (x + 0.055) / 1.055"
  shows "((x + 0.055) / 1.055)\<^sup>2 * r \<le> linearize x"
proof -
  define y where "y = (x + 0.055) / 1.055"
  have y: "0 < y" "y \<le> 1" using assms(1,2) by (simp_all add: y_def)
  have r: "r \<le> sqrt y" using assms(3,4) by (simp add: y_def real_le_rsqrt)
  have "y\<^sup>2 * r \<le> y\<^sup>2 * sqrt y" using r by (intro mult_left_mono) simp_all
  also have "\<dots> = y powr 2 * y powr (1 / 2)" using y by (simp add: powr_half_sqrt)
  also have "\<dots> = y powr (2 + 1 / 2)" by (simp only: powr_add)
  also have "\<dots> \<le> y powr 2.4" using y by (intro powr_mono') simp_all
  finally show ?thesis using assms(1) by (simp add: linearize_def y_def)
qed

lemma linearize_le_eighth:
  assumes "0.03928 < x" "x \<le> 1" "0 < c" "(x + 0.055) / 1.055 \<le> c ^ 8"
  shows "linearize x \<le> ((x + 0.055) / 1.055)\<^sup>2 * c ^ 3"
proof -
  define y where "y = (x + 0.055) / 1.055"
  have y: "0 < y" "y \<le> 1" using assms(1,2) by (simp_all add: y_def)
  have c8: "y \<le> c ^ 8" using assms(4) by (simp add: y_def)
  have "y powr 2.4 \<le> y powr (2 + 3 / 8)" using y by (intro powr_mono') simp_all
  also have "\<dots> = y powr 2 * y powr (3 / 8)" by (simp only: powr_add)
  also have "y powr (3 / 8) \<le> (c ^ 8) powr (3 / 8)"
    using y c8 by (intro powr_mono2) simp_all
  also have "(c ^ 8) powr (3 / 8) = c ^ 3"
  proof -
    have "(c ^ 8) powr (3 / 8) = (c powr 8) powr (3 / 8)" using assms(3) by (simp add: powr_realpow)
    also have "\<dots> = c powr 3" by (simp add: powr_powr)
    also have "\<dots> = c ^ 3" using assms(3) by (simp add: powr_realpow)
    finally show ?thesis .
  qed
  finally have "y powr 2.4 \<le> y powr 2 * c ^ 3" using y by simp
  then show ?thesis using assms(1) y by (simp add: linearize_def y_def)
qed

lemma luminance_gray:
  "getLuminance \<lparr>tc_r = real_of_int v, tc_g = real_of_int v, tc_b = real_of_int v\<rparr>
     = linearize (real_of_int v / 255)"
  by (simp add: getLuminance_def toRgb_def js_round_of_int algebra_simps)

lemma luminance_141414:
  "567 / 100000 \<le> getLuminance (tinycolor ''#141414'')"
  "getLuminance (tinycolor ''#141414'') \<le> 1 / 120"
proof -
  have e: "getLuminance (tinycolor ''#141414'') = linearize (20 / 255)"
    using luminance_gray [of 20] by (simp add: tinycolor_141414)
  have "567 / 100000 \<le> ((20 / 255 + 0.055) / 1.055 :: real)\<^sup>2 * (355 / 1000)"
    by (simp add: power2_eq_square)
  also have "\<dots> \<le> linearize (20 / 255)"
    by (rule linearize_ge_root) (simp_all add: power2_eq_square)
  finally show "567 / 100000 \<le> getLuminance (tinycolor ''#141414'')" by (simp only: e)
  have "linearize (20 / 255) \<le> ((20 / 255 + 0.055) / 1.055)\<^sup>2 * (773 / 1000) ^ 3"
    by (rule linearize_le_eighth) (simp_all add: power_divide)
  also have "\<dots> \<le> 1 / 120" by (simp add: power_divide)
  finally show "getLuminance (tinycolor ''#141414'') \<le> 1 / 120" by (simp only: e)
qed

lemma luminance_f5f5f5: "getLuminance (tinycolor ''#f5f5f5'') \<le> 928 / 1000"
proof -
  have e: "getLuminance (tinycolor ''#f5f5f5'') = linearize (245 / 255)"
    using luminance_gray [of 245] by (simp add: tinycolor_f5f5f5)
  have "linearize (245 / 255) \<le> ((245 / 255 + 0.055) / 1.055)\<^sup>2"
    by (rule linearize_le_sq) simp_all
  also have "\<dots> \<le> 928 / 1000" by (simp add: power2_eq_square)
  finally show ?thesis by (simp only: e)
qed

lemma luminance_b8b8b8: "getLuminance (tinycolor ''#b8b8b8'') \<le> 55 / 100"
proof -
  have e: "getLuminance (tinycolor ''#b8b8b8'') = linearize (184 / 255)"
    using luminance_gray [of 184] by (simp add: tinycolor_b8b8b8)
  have "linearize (184 / 255) \<le> ((184 / 255 + 0.055) / 1.055)\<^sup>2"
    by (rule linearize_le_sq) simp_all
  also have "\<dots> \<le> 55 / 100" by (simp add: power2_eq_square)
  finally show ?thesis by (simp only: e)
qed

lemma readability_below:
  assumes fg: "getLuminance (tinycolor x) \<le> A"
    and bg: "lo \<le> getLuminance (tinycolor bg)" "getLuminance (tinycolor bg) \<le> hi"
    and t: "A + 1 / 20 < t * (lo + 1 / 20)" "hi + 1 / 20 < t / 20" and lo: "0 \<le> lo"
  shows "readability x bg < t"
proof -
  define a where "a = getLuminance (tinycolor x)"
  define b where "b = getLuminance (tinycolor bg)"
  have a: "0 \<le> a" "a \<le> A" using luminance_range [OF inRange_tinycolor, of x] fg by (simp_all add: a_def)
  have b: "0 \<le> b" "lo \<le> b" "b \<le> hi"
    using luminance_range [OF inRange_tinycolor, of bg] bg by (simp_all add: b_def)
  have t0: "0 < t" using t(2) b by simp
  have "(max a b + 1 / 20) / (min a b + 1 / 20) < t"
  proof (cases "b \<le> a")
    case True
    have "t * (lo + 1 / 20) \<le> t * (b + 1 / 20)" using t0 b by (intro mult_left_mono) simp_all
    then have "a + 1 / 20 < t * (b + 1 / 20)" using a t(1) by linarith
    then have "(a + 1 / 20) / (b + 1 / 20) < t" using b by (simp add: pos_divide_less_eq)
    then show ?thesis using True by (simp only: max_absorb1 min_absorb2)
  next
    case False
    then have ab: "a \<le> b" by simp
    have "t * (1 / 20) \<le> t * (a + 1 / 20)" using t0 a by (intro mult_left_mono) simp_all
    moreover have "t * (1 / 20) = t / 20" by simp
    ultimately have "b + 1 / 20 < t * (a + 1 / 20)" using b t(2) by linarith
    then have "(b + 1 / 20) / (a + 1 / 20) < t" using a by (simp add: pos_divide_less_eq)
    then show ?thesis using ab by (simp only: max_absorb2 min_absorb1)
  qed
  then show ?thesis by (simp add: readability_eq a_def b_def)
qed

lemma candidates_below_18:
  "readability ''#f5f5f5'' ''#141414'' < 18" "readability ''#b8b8b8'' ''#141414'' < 18"
proof -
  show "readability ''#f5f5f5'' ''#141414'' < 18"
    by (rule readability_below [OF luminance_f5f5f5 luminance_141414]) simp_all
  show "readability ''#b8b8b8'' ''#141414'' < 18"
    by (rule readability_below [OF luminance_b8b8b8 luminance_141414]) simp_all
qed

lemma white_meets_18: "18 \<le> readability ''#ffffff'' ''#141414''"
proof -
  have b: "0 \<le> getLuminance (tinycolor ''#141414'')"
    using luminance_range [OF inRange_tinycolor] by blast
  have "readability ''#ffffff'' ''#141414''
          = (1 + 1 / 20) / (getLuminance (tinycolor ''#141414'') + 1 / 20)"
    using luminance_141414(2)
    by (simp add: readability_eq luminance_white max_def min_def)
  moreover have "18 \<le> (1 + 1 / 20) / (getLuminance (tinycolor ''#141414'') + 1 / 20)"
    using luminance_141414(2) b by (simp add: field_simps)
  ultimately show ?thesis by simp
qed

lemma reachable_black:
  assumes "t \<le> 18"
  shows "reachable ''#f5f5f5'' ''#141414'' t" "reachable ''#b8b8b8'' ''#141414'' t"
proof -
  have w: "t \<le> readability ''#ffffff'' ''#141414''" using white_meets_18 assms by simp
  have "stepped (toHexString (lighten (grayLevel 0) 96)) ''#141414'' 100 = ''#ffffff''"
    by (rule stepped_tint [OF isDark_141414]) simp
  then have "t \<le> readability (stepped ''#f5f5f5'' ''#141414'' 100) ''#141414''"
    using w lighten_black [of 96] by (simp add: toHexString_gray96)
  then show "reachable ''#f5f5f5'' ''#141414'' t"
    unfolding reachable_def by (intro bexI [of _ 100]) simp_all
  have "stepped (toHexString (lighten (grayLevel 0) 72)) ''#141414'' 100 = ''#ffffff''"
    by (rule stepped_tint [OF isDark_141414]) simp
  then have "t \<le> readability (stepped ''#b8b8b8'' ''#141414'' 100) ''#141414''"
    using w lighten_black [of 72] by (simp add: toHexString_gray72)
  then show "reachable ''#b8b8b8'' ''#141414'' t"
    unfolding reachable_def by (intro bexI [of _ 100]) simp_all
qed

lemma capped_black:
  assumes "21 < t"
  shows "ensureContrast ''#f5f5f5'' ''#141414'' t = ''#ffffff''"
    "ensureContrast ''#b8b8b8'' ''#141414'' t = ''#ffffff''"
proof -
  have "stepped (toHexString (lighten (grayLevel 0) 96)) ''#141414'' 100 = ''#ffffff''"
    by (rule stepped_tint [OF isDark_141414]) simp
  then have "stepped ''#f5f5f5'' ''#141414'' 100 = ''#ffffff''"
    using lighten_black [of 96] by (simp add: toHexString_gray96)
  then show "ensureContrast ''#f5f5f5'' ''#141414'' t = ''#ffffff''"
    using ensureContrast_cap [OF not_reachable_above_21 [OF assms], of "''#f5f5f5''" "''#141414''"]
    by simp
  have "stepped (toHexString (lighten (grayLevel 0) 72)) ''#141414'' 100 = ''#ffffff''"
    by (rule stepped_tint [OF isDark_141414]) simp
  then have "stepped ''#b8b8b8'' ''#141414'' 100 = ''#ffffff''"
    using lighten_black [of 72] by (simp add: toHexString_gray72)
  then show "ensureContrast ''#b8b8b8'' ''#141414'' t = ''#ffffff''"
    using ensureContrast_cap [OF not_reachable_above_21 [OF assms], of "''#b8b8b8''" "''#141414''"]
    by simp
qed

theorem text_slots_meet_target_or_maximum_witness:
  "rampCandidate ''#000000'' Serious Dark 7 = ''#f5f5f5''
   \<and> rampCandidate ''#000000'' Serious Dark 5 = ''#b8b8b8''
   \<and> background (applyFromBase ''#000000'' Serious Dark 18) = ''#141414''
   \<and> readability ''#f5f5f5'' ''#141414'' < 18
   \<and> 18 \<le> readability (textHeading (applyFromBase ''#000000'' Serious Dark 18)) ''#141414''
   \<and> textHeading (applyFromBase ''#000000'' Serious Dark 18) \<noteq> ''#f5f5f5''
   \<and> readability ''#b8b8b8'' ''#141414'' < 18
   \<and> 18 \<le> readability (textBody (applyFromBase ''#000000'' Serious Dark 18)) ''#141414''
   \<and> textBody (applyFromBase ''#000000'' Serious Dark 18) \<noteq> ''#b8b8b8''
   \<and> background (applyFromBase ''#000000'' Serious Dark 22) = ''#141414''
   \<and> textHeading (applyFromBase ''#000000'' Serious Dark 22) = ''#ffffff''
   \<and> readability ''#ffffff'' ''#141414'' = maxAchieved ''#f5f5f5'' ''#141414''
   \<and> textBody (applyFromBase ''#000000'' Serious Dark 22) = ''#ffffff''
   \<and> readability ''#ffffff'' ''#141414'' = maxAchieved ''#b8b8b8'' ''#141414''"
proof -
  have bg: "background (applyFromBase ''#000000'' Serious Dark t) = ''#141414''" for t
    by (simp add: applyFromBase_slots vibeBase_black background_black)
  have h22: "textHeading (applyFromBase ''#000000'' Serious Dark 22) = ''#ffffff''"
    by (simp add: applyFromBase_slots vibeBase_black background_black candidates_black capped_black)
  have b22: "textBody (applyFromBase ''#000000'' Serious Dark 22) = ''#ffffff''"
    by (simp add: applyFromBase_slots vibeBase_black background_black candidates_black capped_black)
  have n: "\<not> reachable c ''#141414'' 22" for c
    by (rule not_reachable_above_21) simp
  note T18 = text_slots_meet_target_or_maximum [of "''#000000''" Serious Dark 18,
      unfolded bg candidates_black]
  note T22 = text_slots_meet_target_or_maximum [of "''#000000''" Serious Dark 22,
      unfolded bg candidates_black h22 b22]
  have h18: "18 \<le> readability (textHeading (applyFromBase ''#000000'' Serious Dark 18)) ''#141414''"
    using T18 reachable_black(1) [of 18] by simp
  have b18: "18 \<le> readability (textBody (applyFromBase ''#000000'' Serious Dark 18)) ''#141414''"
    using T18 reachable_black(2) [of 18] by simp
  have hne: "textHeading (applyFromBase ''#000000'' Serious Dark 18) \<noteq> ''#f5f5f5''"
    using h18 candidates_below_18(1) by auto
  have bne: "textBody (applyFromBase ''#000000'' Serious Dark 18) \<noteq> ''#b8b8b8''"
    using b18 candidates_below_18(2) by auto
  have m: "readability ''#ffffff'' ''#141414'' = maxAchieved ''#f5f5f5'' ''#141414''"
    "readability ''#ffffff'' ''#141414'' = maxAchieved ''#b8b8b8'' ''#141414''"
    using T22 n by simp_all
  show ?thesis
    using candidates_black bg h18 b18 hne bne h22 b22 m candidates_below_18 by simp
qed
end
